(* ===== verification/Prelude.thy ===== *)
theory Prelude
  imports Main "HOL-Library.Sublist"
begin

text \<open>
  What every theory of the development shares: the names of the model's basic types, the
  collections of rewrite rules, and facts about lists, options and maps that the components
  use. A Go \<^verbatim>\<open>string\<close> and a Go \<^verbatim>\<open>[]byte\<close> are byte sequences, and so is HOL's \<open>string\<close>:
  a \<open>char\<close> is one byte. A Go map is a partial function; a Go slice is a list.
\<close>

named_theorems go_defs \<open>definitions that model the standard library\<close>
named_theorems xt_defs \<open>definitions that model the program\<close>

type_synonym bytes = string

section \<open>Loops that look for an index\<close>

text \<open>
  \<^verbatim>\<open>for i, e := range xs { if P(e) { idx = i; break } }\<close>: the index of the first element that
  satisfies \<open>P\<close>, if there is one.
\<close>

fun find_index :: "('a \<Rightarrow> bool) \<Rightarrow> 'a list \<Rightarrow> nat option" where
  "find_index P [] = None"
| "find_index P (x # xs) = (if P x then Some 0 else map_option Suc (find_index P xs))"

lemma find_index_Some: "find_index P xs = Some i \<Longrightarrow> i < length xs \<and> P (xs ! i)"
  by (induction xs arbitrary: i) (auto split: if_splits)

lemma find_index_first: "find_index P xs = Some i \<Longrightarrow> j < i \<Longrightarrow> \<not> P (xs ! j)"
proof (induction xs arbitrary: i j)
  case (Cons x xs)
  then show ?case by (cases j) (auto split: if_splits)
qed simp

lemma find_index_None_iff: "find_index P xs = None \<longleftrightarrow> (\<forall>x \<in> set xs. \<not> P x)"
  by (induction xs) auto

lemma find_index_ex: "x \<in> set xs \<Longrightarrow> P x \<Longrightarrow> \<exists>i. find_index P xs = Some i"
  using find_index_None_iff [of P xs] by auto

section \<open>Loops that carry a state\<close>

text \<open>An invariant of every iteration is an invariant of the loop.\<close>

lemma foldl_invariant:
  assumes "I s" and "\<And>s x. I s \<Longrightarrow> x \<in> set xs \<Longrightarrow> I (f s x)"
  shows "I (foldl f s xs)"
  using assms
proof (induction xs arbitrary: s)
  case (Cons x xs)
  have "I (f s x)" by (rule Cons.prems(2)) (simp_all add: Cons.prems(1))
  then have "I (foldl f (f s x) xs)" by (rule Cons.IH) (simp add: Cons.prems(2))
  then show ?case by simp
qed simp

text \<open>A loop that leaves with the first error (\<open>Inl\<close>).\<close>

fun fold_err :: "('s \<Rightarrow> 'a \<Rightarrow> 'e + 's) \<Rightarrow> 's \<Rightarrow> 'a list \<Rightarrow> 'e + 's" where
  "fold_err f s [] = Inr s"
| "fold_err f s (x # xs) = (case f s x of Inl e \<Rightarrow> Inl e | Inr s' \<Rightarrow> fold_err f s' xs)"

lemma fold_err_append:
  "fold_err f s (xs @ ys) = (case fold_err f s xs of Inl e \<Rightarrow> Inl e | Inr s' \<Rightarrow> fold_err f s' ys)"
  by (induction xs arbitrary: s) (auto split: sum.splits)

lemma fold_err_invariant:
  assumes "fold_err f s xs = Inr t" and "I s"
    and "\<And>s x s'. I s \<Longrightarrow> x \<in> set xs \<Longrightarrow> f s x = Inr s' \<Longrightarrow> I s'"
  shows "I t"
  using assms
proof (induction xs arbitrary: s)
  case (Cons x xs)
  from Cons.prems(1) obtain s' where s': "f s x = Inr s'" and rest: "fold_err f s' xs = Inr t"
    by (auto split: sum.splits)
  have "I s'" by (rule Cons.prems(3) [OF Cons.prems(2) _ s']) simp
  from rest this show ?case by (rule Cons.IH) (rule Cons.prems(3), simp_all)
qed simp

section \<open>Lists\<close>

lemma suffix_length_drop: "suffix x s \<Longrightarrow> take (length s - length x) s @ x = s"
  by (auto simp: suffix_def)

lemma not_set_takeWhile: "c \<notin> set (takeWhile (\<lambda>x. x \<noteq> c) xs)"
  by (induction xs) auto

section \<open>Sums\<close>

lemma map_sum_eq_Inr [simp]: "map_sum f g x = Inr y \<longleftrightarrow> (\<exists>z. x = Inr z \<and> y = g z)"
  by (cases x) auto

lemma map_sum_eq_Inl [simp]: "map_sum f g x = Inl y \<longleftrightarrow> (\<exists>z. x = Inl z \<and> y = f z)"
  by (cases x) auto

section \<open>Values of type any\<close>

text \<open>The dynamic values the program passes around without looking at them closely.\<close>

datatype any = ANil | ABool bool | AInt int | AStr string | AOpaque nat

abbreviation newline :: char where
  "newline \<equiv> CHR 0x0A"

text \<open>The format \<^verbatim>\<open>'%s'\<close>.\<close>

definition single_quoted :: "string \<Rightarrow> string" where
  "single_quoted s = CHR 0x27 # s @ [CHR 0x27]"

end
