(* ===== verification/Go_Errors.thy ===== *)
theory Go_Errors
  imports Prelude
begin

text \<open>
  Go error values. An \<^verbatim>\<open>error\<close> that may be nil is \<open>gerror option\<close>. The constructors are the
  kinds of error the program distinguishes: its own sentinel types \<^verbatim>\<open>ReturnError\<close>
  (\<^verbatim>\<open>dot_instance.go\<close>) and \<^verbatim>\<open>ErrorStatus\<close> (\<^verbatim>\<open>dot_resp.go\<close>), \<^verbatim>\<open>fs.PathError\<close>, a plain message, an
  error wrapped by \<^verbatim>\<open>fmt.Errorf("...: %w", err)\<close>, an error that only quotes another, by \<^verbatim>\<open>%v\<close>, and the result of
  \<^verbatim>\<open>errors.Join\<close>.
\<close>

datatype gerror =
    ReturnError
  | ErrorStatus int
  | ErrMsg string
  | PathError string string gerror
  | Wrapf string gerror
  | Opaquef string gerror
  | JoinError "gerror list"

type_synonym 'a result = "gerror + 'a"

text \<open>A panic is the left side of a sum.\<close>

type_synonym 'a panics = "string + 'a"

text \<open>
  \<^verbatim>\<open>errors.As\<close>: the first error of the tree, in depth-first preorder, of the wanted kind. The kind
  is given by a function that returns the target's value for an error of that kind.
\<close>

fun first_some :: "'a option list \<Rightarrow> 'a option" where
  "first_some [] = None"
| "first_some (Some a # xs) = Some a"
| "first_some (None # xs) = first_some xs"

fun errors_As :: "(gerror \<Rightarrow> 'a option) \<Rightarrow> gerror \<Rightarrow> 'a option" where
  "errors_As k (PathError oper p e) =
     (case k (PathError oper p e) of Some a \<Rightarrow> Some a | None \<Rightarrow> errors_As k e)"
| "errors_As k (Wrapf m e) =
     (case k (Wrapf m e) of Some a \<Rightarrow> Some a | None \<Rightarrow> errors_As k e)"
| "errors_As k (JoinError es) =
     (case k (JoinError es) of Some a \<Rightarrow> Some a | None \<Rightarrow> first_some (map (errors_As k) es))"
| "errors_As k e = k e"

definition kind_return :: "gerror \<Rightarrow> unit option" where [go_defs]:
  "kind_return e = (case e of ReturnError \<Rightarrow> Some () | _ \<Rightarrow> None)"

definition kind_status :: "gerror \<Rightarrow> int option" where [go_defs]:
  "kind_status e = (case e of ErrorStatus c \<Rightarrow> Some c | _ \<Rightarrow> None)"

definition kind_path :: "gerror \<Rightarrow> (string \<times> string \<times> gerror) option" where [go_defs]:
  "kind_path e = (case e of PathError oper p e' \<Rightarrow> Some (oper, p, e') | _ \<Rightarrow> None)"

definition is_return :: "gerror \<Rightarrow> bool" where
  "is_return e \<longleftrightarrow> errors_As kind_return e \<noteq> None"

text \<open>\<^verbatim>\<open>errors.Join\<close>: nil errors are dropped, and it is nil when nothing is left.\<close>

definition errors_Join :: "gerror option list \<Rightarrow> gerror option" where
  "errors_Join es = (case map the (filter (\<lambda>e. e \<noteq> None) es) of
     [] \<Rightarrow> None | es' \<Rightarrow> Some (JoinError es'))"

lemma errors_Join_None_iff: "errors_Join es = None \<longleftrightarrow> (\<forall>e \<in> set es. e = None)"
proof -
  have "errors_Join es = None \<longleftrightarrow> filter (\<lambda>e. e \<noteq> None) es = []"
    by (cases "filter (\<lambda>e. e \<noteq> None) es") (auto simp: errors_Join_def)
  then show ?thesis by (auto simp: filter_empty_conv)
qed

lemma errors_Join_pair:
  "errors_Join [a, b] = (case a of
     None \<Rightarrow> (case b of None \<Rightarrow> None | Some y \<Rightarrow> Some (JoinError [y]))
   | Some x \<Rightarrow> Some (JoinError (x # (case b of None \<Rightarrow> [] | Some y \<Rightarrow> [y]))))"
  by (auto simp: errors_Join_def split: option.splits)

lemma errors_Join_Some: "Some x \<in> set es \<Longrightarrow> errors_Join es \<noteq> None"
  using errors_Join_None_iff [of es] by auto

lemma first_some_None_iff: "first_some xs = None \<longleftrightarrow> (\<forall>x \<in> set xs. x = None)"
  by (induction xs rule: first_some.induct) auto

lemma is_return_simps [simp]:
  "is_return ReturnError"
  "\<not> is_return (ErrorStatus c)"
  "\<not> is_return (ErrMsg m)"
  "\<not> is_return (Opaquef m e)"
  "is_return (Wrapf m e) \<longleftrightarrow> is_return e"
  "is_return (PathError oper p e) \<longleftrightarrow> is_return e"
  "is_return (JoinError es) \<longleftrightarrow> (\<exists>e \<in> set es. is_return e)"
proof -
  show "is_return (JoinError es) \<longleftrightarrow> (\<exists>e \<in> set es. is_return e)"
    using first_some_None_iff [of "map (errors_As kind_return) es"]
    by (auto simp: is_return_def kind_return_def)
qed (simp_all add: is_return_def kind_return_def)

end
