(* ===== verification/Go_Strings.thy ===== *)
theory Go_Strings
  imports Prelude
begin

text \<open>
  The functions of Go's \<^verbatim>\<open>strings\<close>, \<^verbatim>\<open>unicode\<close> and \<^verbatim>\<open>unicode/utf8\<close> packages that the program
  calls, on byte sequences.
\<close>

section \<open>Prefixes and suffixes\<close>

definition HasPrefix :: "string \<Rightarrow> string \<Rightarrow> bool" where [go_defs]:
  "HasPrefix s p \<longleftrightarrow> prefix p s"

definition HasSuffix :: "string \<Rightarrow> string \<Rightarrow> bool" where [go_defs]:
  "HasSuffix s p \<longleftrightarrow> suffix p s"

definition TrimPrefix :: "string \<Rightarrow> string \<Rightarrow> string" where [go_defs]:
  "TrimPrefix s p = (if HasPrefix s p then drop (length p) s else s)"

definition TrimSuffix :: "string \<Rightarrow> string \<Rightarrow> string" where [go_defs]:
  "TrimSuffix s p = (if HasSuffix s p then take (length s - length p) s else s)"

lemma TrimSuffix_append [simp]: "TrimSuffix (s @ x) x = s"
  by (simp add: TrimSuffix_def HasSuffix_def suffixI)

lemma TrimSuffix_Nil [simp]: "TrimSuffix s [] = s"
  by (simp add: TrimSuffix_def HasSuffix_def)

lemma TrimPrefix_append [simp]: "TrimPrefix (p @ s) p = s"
  by (simp add: TrimPrefix_def HasPrefix_def)

lemma TrimSuffix_prefix: "prefix (TrimSuffix s p) s"
  by (simp add: TrimSuffix_def take_is_prefix)

section \<open>Splitting and searching\<close>

text \<open>\<^verbatim>\<open>strings.Split(s, sep)\<close> for a separator of one byte, the only kind the program uses.\<close>

fun Split :: "string \<Rightarrow> char \<Rightarrow> string list" where
  "Split [] c = [[]]"
| "Split (x # xs) c =
     (if x = c then [] # Split xs c
      else (case Split xs c of [] \<Rightarrow> [[x]] | p # ps \<Rightarrow> (x # p) # ps))"

text \<open>\<^verbatim>\<open>strings.SplitN(s, sep, 2)\<close>: at most one cut, at the first separator.\<close>

fun SplitN2 :: "string \<Rightarrow> char \<Rightarrow> string list" where
  "SplitN2 [] c = [[]]"
| "SplitN2 (x # xs) c =
     (if x = c then [[], xs]
      else (case SplitN2 xs c of [] \<Rightarrow> [[x]] | p # ps \<Rightarrow> (x # p) # ps))"

text \<open>\<^verbatim>\<open>strings.Join(xs, sep)\<close>.\<close>

fun Join :: "string list \<Rightarrow> char \<Rightarrow> string" where
  "Join [] c = []"
| "Join [x] c = x"
| "Join (x # y # zs) c = x @ c # Join (y # zs) c"

text \<open>\<^verbatim>\<open>strings.Index(s, sub)\<close>: the first position where \<open>sub\<close> occurs; \<open>None\<close> is -1.\<close>

fun Index :: "string \<Rightarrow> string \<Rightarrow> nat option" where
  "Index [] sub = (if sub = [] then Some 0 else None)"
| "Index (x # xs) sub = (if prefix sub (x # xs) then Some 0 else map_option Suc (Index xs sub))"

lemma Split_nonempty [simp]: "Split s c \<noteq> []"
  by (cases s) (auto split: list.splits)

lemma Split_pieces: "x \<in> set (Split s c) \<Longrightarrow> c \<notin> set x"
proof (induction s arbitrary: x)
  case (Cons a s)
  then show ?case
    by (cases "Split s c") (auto split: if_splits)
qed simp

lemma Split_no_sep: "c \<notin> set s \<Longrightarrow> Split s c = [s]"
  by (induction s) auto

lemma Split_append: "c \<notin> set a \<Longrightarrow> Split (a @ c # b) c = a # Split b c"
  by (induction a) auto

lemma Join_Cons: "xs \<noteq> [] \<Longrightarrow> Join (x # xs) c = x @ c # Join xs c"
  by (cases xs) auto

lemma Join_append: "xs \<noteq> [] \<Longrightarrow> ys \<noteq> [] \<Longrightarrow> Join (xs @ ys) c = Join xs c @ c # Join ys c"
proof (induction xs)
  case (Cons x xs)
  then show ?case by (cases xs) (auto simp: Join_Cons)
qed simp

lemma Join_Split [simp]: "Join (Split s c) c = s"
proof (induction s)
  case (Cons a s)
  then show ?case
    by (cases "Split s c"; cases "tl (Split s c)") (auto simp: Join_Cons)
qed simp

lemma Split_Join: "xs \<noteq> [] \<Longrightarrow> (\<And>x. x \<in> set xs \<Longrightarrow> c \<notin> set x) \<Longrightarrow> Split (Join xs c) c = xs"
proof (induction xs)
  case (Cons x xs)
  then show ?case
    by (cases xs) (auto simp: Split_no_sep Split_append Join_Cons)
qed simp

lemma SplitN2_nonempty [simp]: "SplitN2 s c \<noteq> []"
  by (cases s) (auto split: list.splits)

lemma hd_SplitN2: "hd (SplitN2 s c) = takeWhile (\<lambda>x. x \<noteq> c) s"
proof (induction s)
  case (Cons a s)
  then show ?case by (cases "SplitN2 s c") auto
qed simp

lemma hd_SplitN2_no_sep: "c \<notin> set (hd (SplitN2 s c))"
  by (simp add: hd_SplitN2 not_set_takeWhile)

lemma Index_Some:
  "Index s sub = Some i \<Longrightarrow> i + length sub \<le> length s \<and> take (length sub) (drop i s) = sub"
proof (induction s arbitrary: i)
  case Nil
  then show ?case by (simp split: if_splits)
next
  case (Cons x s)
  show ?case
  proof (cases "prefix sub (x # s)")
    case True
    with Cons.prems have "i = 0" by simp
    with True show ?thesis using prefix_length_le [OF True] by (auto simp: prefix_def)
  next
    case False
    with Cons.prems obtain j where "Index s sub = Some j" and "i = Suc j" by auto
    with Cons.IH show ?thesis by simp
  qed
qed

lemma Index_None: "Index s sub = None \<Longrightarrow> \<not> prefix sub (drop i s)"
proof (induction s arbitrary: i)
  case Nil
  then show ?case by (simp split: if_splits)
next
  case (Cons x s)
  then show ?case by (cases i) (auto split: if_splits)
qed

lemma Index_least: "Index s sub = Some i \<Longrightarrow> j < i \<Longrightarrow> \<not> prefix sub (drop j s)"
proof (induction s arbitrary: i j)
  case Nil
  then show ?case by (simp split: if_splits)
next
  case (Cons x s)
  then show ?case by (cases j) (auto split: if_splits)
qed

lemma Index_eqI:
  assumes "prefix sub (drop i s)" and "\<And>j. j < i \<Longrightarrow> \<not> prefix sub (drop j s)"
  shows "Index s sub = Some i"
  using assms
proof (induction s arbitrary: i)
  case Nil
  then show ?case by (cases i) auto
next
  case (Cons x s)
  show ?case
  proof (cases i)
    case 0
    with Cons.prems show ?thesis by simp
  next
    case (Suc k)
    have "Index s sub = Some k"
    proof (rule Cons.IH)
      show "prefix sub (drop k s)" using Cons.prems(1) Suc by simp
    next
      fix j assume "j < k"
      with Cons.prems(2) [of "Suc j"] Suc show "\<not> prefix sub (drop j s)" by simp
    qed
    moreover have "\<not> prefix sub (x # s)" using Cons.prems(2) [of 0] Suc by simp
    ultimately show ?thesis using Suc by simp
  qed
qed

section \<open>Runes\<close>

text \<open>
  \<^verbatim>\<open>utf8.DecodeRuneInString\<close>, which is also how \<^verbatim>\<open>range\<close> walks a string: the code point at the
  front of a non-empty string and its width in bytes. An invalid or truncated sequence gives
  U+FFFD and width 1.
\<close>

definition byte_val :: "char \<Rightarrow> int" where
  "byte_val c = (case c of Char b0 b1 b2 b3 b4 b5 b6 b7 \<Rightarrow>
     (if b0 then 1 else 0) + (if b1 then 2 else 0) + (if b2 then 4 else 0) + (if b3 then 8 else 0)
     + (if b4 then 16 else 0) + (if b5 then 32 else 0) + (if b6 then 64 else 0) + (if b7 then 128 else 0))"

lemma byte_val_of_char: "byte_val c = of_char c"
  by (cases c) (simp add: byte_val_def)

definition byte_at :: "string \<Rightarrow> nat \<Rightarrow> int" where
  "byte_at s i = (if i < length s then byte_val (s ! i) else 0)"

definition in_range :: "int \<Rightarrow> int \<Rightarrow> int \<Rightarrow> bool" where
  "in_range lo hi n \<longleftrightarrow> lo \<le> n \<and> n \<le> hi"

definition decode_rune :: "string \<Rightarrow> int \<times> nat" where
  "decode_rune s =
    (let a = byte_at s 0; b = byte_at s 1; c = byte_at s 2; d = byte_at s 3;
         cont = in_range 0x80 0xBF in
     if a < 0x80 then (a, 1)
     else if in_range 0xC2 0xDF a \<and> cont b
     then ((a - 0xC0) * 64 + (b - 0x80), 2)
     else if in_range 0xE0 0xEF a
       \<and> in_range (if a = 0xE0 then 0xA0 else 0x80) (if a = 0xED then 0x9F else 0xBF) b \<and> cont c
     then ((a - 0xE0) * 4096 + (b - 0x80) * 64 + (c - 0x80), 3)
     else if in_range 0xF0 0xF4 a
       \<and> in_range (if a = 0xF0 then 0x90 else 0x80) (if a = 0xF4 then 0x8F else 0xBF) b
       \<and> cont c \<and> cont d
     then ((a - 0xF0) * 262144 + (b - 0x80) * 4096 + (c - 0x80) * 64 + (d - 0x80), 4)
     else (0xFFFD, 1))"

text \<open>\<^verbatim>\<open>unicode.IsSpace\<close>: the code points with Unicode's White\_Space property.\<close>

definition IsSpace :: "int \<Rightarrow> bool" where
  "IsSpace r \<longleftrightarrow> r \<in> {0x09, 0x0A, 0x0B, 0x0C, 0x0D, 0x20, 0x85, 0xA0, 0x1680,
     0x2000, 0x2001, 0x2002, 0x2003, 0x2004, 0x2005, 0x2006, 0x2007, 0x2008, 0x2009, 0x200A,
     0x2028, 0x2029, 0x202F, 0x205F, 0x3000}"

lemma decode_rune_width: "0 < snd (decode_rune s) \<and> snd (decode_rune s) \<le> 4"
  by (simp add: decode_rune_def Let_def)

lemma byte_at_pos: "0 < byte_at s i \<Longrightarrow> i < length s"
  by (auto simp: byte_at_def split: if_splits)

lemma decode_rune_width_le: "s \<noteq> [] \<Longrightarrow> snd (decode_rune s) \<le> length s"
  using byte_at_pos [of s 1] byte_at_pos [of s 2] byte_at_pos [of s 3]
  by (cases s) (auto simp: decode_rune_def Let_def in_range_def Suc_le_eq split: if_splits)

lemma decode_rune_ascii: "byte_val c < 128 \<Longrightarrow> decode_rune (c # s) = (byte_val c, 1)"
  by (simp add: decode_rune_def Let_def byte_at_def)

text \<open>
  \<^verbatim>\<open>utf8.DecodeLastRuneInString\<close>: the rune that ends the string. It starts at the last byte, among
  the last four, that is not a continuation byte, and must reach to the end of the string.
\<close>

definition decode_last_rune :: "string \<Rightarrow> int \<times> nat" where
  "decode_last_rune s =
    (case find (\<lambda>k. k \<le> length s \<and> \<not> in_range 0x80 0xBF (byte_at s (length s - k))) [1, 2, 3, 4] of
       None \<Rightarrow> (0xFFFD, 1)
     | Some k \<Rightarrow> let rw = decode_rune (drop (length s - k) s) in
         if snd rw = k then rw else (0xFFFD, 1))"

lemma decode_last_rune_width: "0 < snd (decode_last_rune s)"
  using decode_rune_width by (auto simp: decode_last_rune_def Let_def split: option.splits)

lemma decode_last_rune_ascii:
  "byte_val c < 128 \<Longrightarrow> decode_last_rune (s @ [c]) = (byte_val c, 1)"
  by (simp add: decode_last_rune_def byte_at_def in_range_def nth_append decode_rune_ascii)

section \<open>TrimSpace\<close>

function TrimLeft :: "string \<Rightarrow> string" where
  "TrimLeft s =
     (if s \<noteq> [] \<and> IsSpace (fst (decode_rune s)) then TrimLeft (drop (snd (decode_rune s)) s) else s)"
  by pat_completeness auto
termination
  using decode_rune_width by (relation "measure length") (auto simp: Suc_le_eq)

function TrimRight :: "string \<Rightarrow> string" where
  "TrimRight s =
     (if s \<noteq> [] \<and> IsSpace (fst (decode_last_rune s))
      then TrimRight (take (length s - snd (decode_last_rune s)) s) else s)"
  by pat_completeness auto
termination
  by (relation "measure length") (simp_all add: decode_last_rune_width diff_less min_less_iff_disj)

declare TrimLeft.simps [simp del] TrimRight.simps [simp del]

definition TrimSpace :: "string \<Rightarrow> string" where
  "TrimSpace s = TrimRight (TrimLeft s)"

text \<open>A string whose first and last bytes are printable ASCII is already trimmed.\<close>

definition printable :: "char \<Rightarrow> bool" where
  "printable c \<longleftrightarrow> 0x20 < byte_val c \<and> byte_val c < 0x80"

lemma IsSpace_printable: "printable c \<Longrightarrow> \<not> IsSpace (byte_val c)"
  by (auto simp: printable_def IsSpace_def)

lemma TrimLeft_printable: "printable c \<Longrightarrow> TrimLeft (c # s) = c # s"
  by (subst TrimLeft.simps) (simp add: decode_rune_ascii printable_def IsSpace_printable)

lemma TrimRight_printable: "printable c \<Longrightarrow> TrimRight (s @ [c]) = s @ [c]"
  by (subst TrimRight.simps) (simp add: decode_last_rune_ascii printable_def IsSpace_printable)

lemma TrimSpace_Nil [simp]: "TrimSpace [] = []"
  by (simp add: TrimSpace_def TrimLeft.simps [of "[]"] TrimRight.simps [of "[]"])

lemma TrimSpace_printable:
  assumes "s \<noteq> []" and "printable (hd s)" and "printable (last s)"
  shows "TrimSpace s = s"
proof -
  have "TrimLeft s = s" using assms TrimLeft_printable [of "hd s" "tl s"] by simp
  moreover have "TrimRight s = s"
    using assms TrimRight_printable [of "last s" "butlast s"] by simp
  ultimately show ?thesis by (simp add: TrimSpace_def)
qed

lemma TrimLeft_space: "byte_val c \<in> {0x09, 0x0A, 0x0B, 0x0C, 0x0D, 0x20} \<Longrightarrow> TrimLeft (c # s) = TrimLeft s"
  by (subst TrimLeft.simps) (auto simp: decode_rune_ascii IsSpace_def)

lemma TrimRight_space:
  "byte_val c \<in> {0x09, 0x0A, 0x0B, 0x0C, 0x0D, 0x20} \<Longrightarrow> TrimRight (s @ [c]) = TrimRight s"
  by (subst TrimRight.simps) (auto simp: decode_last_rune_ascii IsSpace_def)

text \<open>What \<^verbatim>\<open>TrimSpace\<close> leaves starts with no white space rune and is a part of its argument.\<close>

lemma TrimLeft_suffix: "suffix (TrimLeft s) s"
proof (induction s rule: TrimLeft.induct)
  case (1 s)
  then show ?case
    by (subst TrimLeft.simps) (auto intro: suffix_order.trans suffix_drop)
qed

lemma TrimRight_prefix: "prefix (TrimRight s) s"
proof (induction s rule: TrimRight.induct)
  case (1 s)
  then show ?case
    by (subst TrimRight.simps) (auto intro: prefix_order.trans take_is_prefix)
qed

lemma TrimSpace_sublist: "sublist (TrimSpace s) s"
  using TrimRight_prefix [of "TrimLeft s"] TrimLeft_suffix [of s]
  by (metis TrimSpace_def prefix_imp_sublist sublist_order.order_trans suffix_imp_sublist)

section \<open>Decimal numbers\<close>

definition digit_of :: "char \<Rightarrow> int option" where
  "digit_of c = (let n = byte_val c in if 48 \<le> n \<and> n \<le> 57 then Some (n - 48) else None)"

fun digits_value :: "int \<Rightarrow> string \<Rightarrow> int option" where
  "digits_value acc [] = Some acc"
| "digits_value acc (c # cs) =
     (case digit_of c of None \<Rightarrow> None | Some d \<Rightarrow> digits_value (10 * acc + d) cs)"

text \<open>\<^verbatim>\<open>strconv.ParseInt(s, 10, 64)\<close> and \<^verbatim>\<open>strconv.ParseUint(s, 10, 64)\<close>: \<open>None\<close> is a syntax or range error.\<close>

definition ParseUint :: "string \<Rightarrow> int option" where
  "ParseUint s = (if s = '''' then None else
     case digits_value 0 s of
       None \<Rightarrow> None
     | Some n \<Rightarrow> (if n < 2 ^ 64 then Some n else None))"

definition ParseInt :: "string \<Rightarrow> int option" where
  "ParseInt s =
     (let neg = (s \<noteq> '''' \<and> hd s = CHR ''-'');
          ds = (if s \<noteq> '''' \<and> (hd s = CHR ''-'' \<or> hd s = CHR ''+'') then tl s else s) in
      if ds = '''' then None else
      case digits_value 0 ds of
        None \<Rightarrow> None
      | Some n \<Rightarrow> (if neg then (if n \<le> 2 ^ 63 then Some (- n) else None)
                   else (if n < 2 ^ 63 then Some n else None)))"

lemma digits_value_nonneg: "digits_value acc t = Some m \<Longrightarrow> 0 \<le> acc \<Longrightarrow> 0 \<le> m"
  by (induction t arbitrary: acc) (auto simp: digit_of_def Let_def split: if_splits option.splits)

lemma ParseUint_bounds: "ParseUint s = Some n \<Longrightarrow> 0 \<le> n \<and> n < 2 ^ 64"
  by (auto simp: ParseUint_def split: if_splits option.splits dest: digits_value_nonneg)

lemma ParseInt_bounds: "ParseInt s = Some n \<Longrightarrow> - (2 ^ 63) \<le> n \<and> n < 2 ^ 63"
  by (auto simp: ParseInt_def Let_def split: if_splits option.splits dest: digits_value_nonneg)

text \<open>\<^verbatim>\<open>strconv.Itoa\<close>, for the \<^verbatim>\<open>%d\<close> of error messages.\<close>

definition digit_char :: "int \<Rightarrow> char" where
  "digit_char n = ''0123456789'' ! nat n"

function itoa_nat :: "int \<Rightarrow> string" where
  "itoa_nat n = (if n < 10 then [digit_char (if n < 0 then 0 else n)]
     else itoa_nat (n div 10) @ [digit_char (n mod 10)])"
  by auto
termination
  by (relation "measure nat") auto

declare itoa_nat.simps [simp del]

definition Itoa :: "int \<Rightarrow> string" where
  "Itoa n = (if n < 0 then CHR ''-'' # itoa_nat (- n) else itoa_nat n)"

section \<open>Identifiers\<close>

text \<open>
  Go identifiers: letters, digits and underscores, not starting with a digit. Letters and digits beyond ASCII
  are decided by the tables of \<^verbatim>\<open>unicode.IsLetter\<close> and \<^verbatim>\<open>unicode.IsDigit\<close>, which are arguments.
\<close>

record unicode =
  u_letter :: "int \<Rightarrow> bool"
  u_digit :: "int \<Rightarrow> bool"

definition ident_letter :: "unicode \<Rightarrow> int \<Rightarrow> bool" where
  "ident_letter u r \<longleftrightarrow> (if r < 128 then in_range 97 122 r \<or> in_range 65 90 r \<or> r = 95 else u_letter u r)"

definition ident_digit :: "unicode \<Rightarrow> int \<Rightarrow> bool" where
  "ident_digit u r \<longleftrightarrow> (if r < 128 then in_range 48 57 r else u_digit u r)"

function ident_rest :: "unicode \<Rightarrow> string \<Rightarrow> bool" where
  "ident_rest u [] = True"
| "ident_rest u (c # cs) =
     (let rw = decode_rune (c # cs) in
      (ident_letter u (fst rw) \<or> ident_digit u (fst rw)) \<and> ident_rest u (drop (snd rw) (c # cs)))"
  by pat_completeness auto
termination
  by (relation "measure (length \<circ> snd)") (use decode_rune_width in \<open>auto simp: Let_def diff_less\<close>)

definition is_ident :: "unicode \<Rightarrow> string \<Rightarrow> bool" where
  "is_ident u s \<longleftrightarrow> s \<noteq> '''' \<and> ident_letter u (fst (decode_rune s)) \<and> ident_rest u s"

end
