(* ===== verification/Go_Http.thy ===== *)
theory Go_Http
  imports Go_Errors Go_Strings
begin

text \<open>
  What the program uses of Go's \<^verbatim>\<open>net/http\<close> and \<^verbatim>\<open>context\<close>: header maps, requests, the server's
  \<^verbatim>\<open>ResponseWriter\<close>, \<^verbatim>\<open>http.Error\<close> and \<^verbatim>\<open>http.NotFound\<close> (as of Go 1.23, the toolchain in \<^verbatim>\<open>go.mod\<close>).
\<close>

section \<open>Headers\<close>

text \<open>
  An \<^verbatim>\<open>http.Header\<close> maps a canonical field name to its values. A field name is canonicalised when it
  consists of token bytes only: the first letter and every letter after a hyphen in upper case, the
  others in lower case. The two cases of a letter differ in the bit of weight 32.
\<close>

type_synonym header = "string \<Rightarrow> string list option"

definition flip_case :: "char \<Rightarrow> char" where
  "flip_case c = (case c of Char b0 b1 b2 b3 b4 b5 b6 b7 \<Rightarrow> Char b0 b1 b2 b3 b4 (\<not> b5) b6 b7)"

definition ToUpper :: "char \<Rightarrow> char" where
  "ToUpper c = (if in_range 97 122 (byte_val c) then flip_case c else c)"

definition ToLower :: "char \<Rightarrow> char" where
  "ToLower c = (if in_range 65 90 (byte_val c) then flip_case c else c)"

definition token_byte :: "char \<Rightarrow> bool" where
  "token_byte c \<longleftrightarrow> (let n = byte_val c in
     in_range 97 122 n \<or> in_range 65 90 n \<or> in_range 48 57 n \<or> c \<in> set ''!#$%&*+-.^_`|~'' \<or> n = 39)"

fun canon_bytes :: "bool \<Rightarrow> string \<Rightarrow> string" where
  "canon_bytes upper [] = []"
| "canon_bytes upper (c # cs) =
     (if upper then ToUpper c else ToLower c) # canon_bytes (c = CHR ''-'') cs"

definition CanonicalHeaderKey :: "string \<Rightarrow> string" where
  "CanonicalHeaderKey k = (if list_all token_byte k then canon_bytes True k else k)"

definition Header_Values :: "header \<Rightarrow> string \<Rightarrow> string list" where
  "Header_Values h k = (case h (CanonicalHeaderKey k) of None \<Rightarrow> [] | Some vs \<Rightarrow> vs)"

definition Header_Get :: "header \<Rightarrow> string \<Rightarrow> string" where
  "Header_Get h k = (case Header_Values h k of [] \<Rightarrow> '''' | v # _ \<Rightarrow> v)"

definition Header_Add :: "header \<Rightarrow> string \<Rightarrow> string \<Rightarrow> header" where
  "Header_Add h k v = h(CanonicalHeaderKey k \<mapsto> Header_Values h k @ [v])"

definition Header_Set :: "header \<Rightarrow> string \<Rightarrow> string \<Rightarrow> header" where
  "Header_Set h k v = h(CanonicalHeaderKey k \<mapsto> [v])"

definition Header_Del :: "header \<Rightarrow> string \<Rightarrow> header" where
  "Header_Del h k = h(CanonicalHeaderKey k := None)"

text \<open>\<^verbatim>\<open>maps.Copy(dst, src)\<close>: the entries of \<^verbatim>\<open>src\<close> are added to \<^verbatim>\<open>dst\<close> and replace those it has.\<close>

definition maps_Copy :: "('k \<Rightarrow> 'v option) \<Rightarrow> ('k \<Rightarrow> 'v option) \<Rightarrow> 'k \<Rightarrow> 'v option" where
  "maps_Copy dst src = dst ++ src"

lemmas header_defs = Header_Values_def Header_Get_def Header_Add_def Header_Set_def Header_Del_def
  maps_Copy_def

lemma Header_Get_Set: "Header_Get (Header_Set h k v) k = v"
  by (simp add: header_defs)

lemma Header_Get_Set_other:
  "CanonicalHeaderKey k \<noteq> CanonicalHeaderKey k' \<Longrightarrow> Header_Get (Header_Set h k v) k' = Header_Get h k'"
  by (simp add: header_defs)

lemma Header_Get_Del: "Header_Get (Header_Del h k) k = ''''"
  by (simp add: header_defs)

section \<open>The response writer\<close>

text \<open>
  The response the server is building: the header map the handler changes, the status and the copy
  of the headers taken when the status was decided, the declared content length, the number of
  bytes the handler tried to write, the bytes accepted for the body, and how many of them have been
  flushed to the client.
\<close>

record respWriter =
  rw_header :: header
  rw_sent :: "(int \<times> header) option"
  rw_limit :: "int option"
  rw_written :: int
  rw_body :: string
  rw_flushed :: nat

definition new_response :: respWriter where
  "new_response = \<lparr>rw_header = (\<lambda>_. None), rw_sent = None, rw_limit = None, rw_written = 0, rw_body = '''',
     rw_flushed = 0\<rparr>"

text \<open>
  \<^verbatim>\<open>WriteHeader\<close>: a second call is ignored, a code outside 100 to 999 panics, and an informational
  code (other than 101) is sent at once without deciding the status. A \<^verbatim>\<open>Content-Length\<close> that is not a
  number is removed from the header map.
\<close>

definition declared_length :: "header \<Rightarrow> int option" where
  "declared_length h = (case ParseInt (Header_Get h ''Content-Length'') of
     Some n \<Rightarrow> (if 0 \<le> n then Some n else None) | None \<Rightarrow> None)"

definition WriteHeader :: "int \<Rightarrow> respWriter \<Rightarrow> respWriter panics" where
  "WriteHeader code w =
     (if rw_sent w \<noteq> None then Inr w
      else if code < 100 \<or> 999 < code then Inl ''invalid WriteHeader code''
      else if in_range 100 199 code \<and> code \<noteq> 101 then Inr w
      else let n = declared_length (rw_header w) in
        Inr (w\<lparr>rw_sent := Some (code, rw_header w), rw_limit := n,
               rw_header := (if n = None then Header_Del (rw_header w) ''Content-Length'' else rw_header w)\<rparr>))"

definition bodyAllowedForStatus :: "int \<Rightarrow> bool" where
  "bodyAllowedForStatus code \<longleftrightarrow> \<not> (in_range 100 199 code \<or> code = 204 \<or> code = 304)"

text \<open>
  \<^verbatim>\<open>Write\<close>: decides status 200 if none was; bytes that the status does not allow, and bytes beyond the
  declared content length, are refused as a whole. The callers in the program ignore its result.
\<close>

definition decide_ok :: "respWriter \<Rightarrow> respWriter" where
  "decide_ok w = (case WriteHeader 200 w of Inl _ \<Rightarrow> w | Inr w' \<Rightarrow> w')"

definition Write :: "string \<Rightarrow> respWriter \<Rightarrow> respWriter" where
  "Write data w =
     (let w1 = decide_ok w in
      if data = '''' then w1
      else if (case rw_sent w1 of Some (code, _) \<Rightarrow> \<not> bodyAllowedForStatus code | None \<Rightarrow> False) then w1
      else let w2 = w1\<lparr>rw_written := rw_written w1 + int (length data)\<rparr> in
        if (case rw_limit w2 of Some n \<Rightarrow> n < rw_written w2 | None \<Rightarrow> False) then w2
        else w2\<lparr>rw_body := rw_body w2 @ data\<rparr>)"

text \<open>\<^verbatim>\<open>Flush\<close> also decides status 200 if none was.\<close>

definition Flush :: "respWriter \<Rightarrow> respWriter" where
  "Flush w = (let w1 = decide_ok w in w1\<lparr>rw_flushed := length (rw_body w1)\<rparr>)"

text \<open>The two functions that answer with an error.\<close>

definition http_Error :: "string \<Rightarrow> int \<Rightarrow> respWriter \<Rightarrow> respWriter panics" where
  "http_Error msg code w =
     (let h = Header_Del (rw_header w) ''Content-Length'';
          h = Header_Set h ''Content-Type'' ''text/plain; charset=utf-8'';
          h = Header_Set h ''X-Content-Type-Options'' ''nosniff'' in
      case WriteHeader code (w\<lparr>rw_header := h\<rparr>) of
        Inl p \<Rightarrow> Inl p
      | Inr w' \<Rightarrow> Inr (Write (msg @ [CHR 0x0A]) w'))"

definition http_NotFound :: "respWriter \<Rightarrow> respWriter panics" where
  "http_NotFound w = http_Error ''404 page not found'' 404 w"

text \<open>The status the client sees: 200 when the handler never decided one.\<close>

definition final_status :: "respWriter \<Rightarrow> int" where
  "final_status w = (case rw_sent w of Some (code, _) \<Rightarrow> code | None \<Rightarrow> 200)"

definition final_header :: "respWriter \<Rightarrow> header" where
  "final_header w = (case rw_sent w of Some (_, h) \<Rightarrow> h | None \<Rightarrow> rw_header w)"

text \<open>Nothing of the response has been decided or written.\<close>

definition untouched :: "respWriter \<Rightarrow> bool" where
  "untouched w \<longleftrightarrow> rw_sent w = None \<and> rw_limit w = None \<and> rw_written w = 0 \<and> rw_body w = ''''"

lemma untouched_new [simp]: "untouched new_response"
  by (simp add: untouched_def new_response_def)

lemma untouched_header [simp]: "untouched (w\<lparr>rw_header := h\<rparr>) = untouched w"
  by (simp add: untouched_def)

lemma WriteHeader_sent: "rw_sent w \<noteq> None \<Longrightarrow> WriteHeader code w = Inr w"
  by (simp add: WriteHeader_def)

lemma WriteHeader_final:
  assumes "rw_sent w = None" and "200 \<le> code" and "code \<le> 999"
  shows "WriteHeader code w = Inr (w\<lparr>rw_sent := Some (code, rw_header w),
     rw_limit := declared_length (rw_header w),
     rw_header := (if declared_length (rw_header w) = None
       then Header_Del (rw_header w) ''Content-Length'' else rw_header w)\<rparr>)"
  using assms by (simp add: WriteHeader_def Let_def in_range_def)

text \<open>A decided status and the headers sent with it never change, and the body only grows.\<close>

lemma WriteHeader_keeps: "WriteHeader code w = Inr w' \<Longrightarrow> rw_sent w = Some s \<Longrightarrow> rw_sent w' = Some s"
  by (simp add: WriteHeader_def)

lemma decide_ok_sent: "rw_sent w = Some s \<Longrightarrow> decide_ok w = w"
  by (simp add: decide_ok_def WriteHeader_def)

lemma decide_ok_new: "rw_sent w = None \<Longrightarrow> rw_sent (decide_ok w) = Some (200, rw_header w)"
  by (simp add: decide_ok_def WriteHeader_final)

lemma decide_ok_body [simp]: "rw_body (decide_ok w) = rw_body w" "rw_written (decide_ok w) = rw_written w"
  by (auto simp: decide_ok_def WriteHeader_def Let_def)

lemma Write_sent: "rw_sent (Write data w) = rw_sent (decide_ok w)"
  by (simp add: Write_def Let_def)

lemma Write_keeps: "rw_sent w = Some s \<Longrightarrow> rw_sent (Write data w) = Some s"
  by (simp add: Write_sent decide_ok_sent)

lemma Write_body_prefix: "prefix (rw_body w) (rw_body (Write data w))"
  by (simp add: Write_def Let_def)

lemma http_Error_untouched:
  assumes "untouched w" and "200 \<le> code" and "code \<le> 999" and "bodyAllowedForStatus code"
  shows "\<exists>w'. http_Error msg code w = Inr w' \<and> final_status w' = code
     \<and> rw_body w' = msg @ [CHR 0x0A] \<and> rw_sent w' = Some (code, final_header w')
     \<and> Header_Get (final_header w') ''Content-Type'' = ''text/plain; charset=utf-8''"
proof -
  let ?h = "Header_Set (Header_Set (Header_Del (rw_header w) ''Content-Length'')
     ''Content-Type'' ''text/plain; charset=utf-8'') ''X-Content-Type-Options'' ''nosniff''"
  have k: "CanonicalHeaderKey ''X-Content-Type-Options'' \<noteq> CanonicalHeaderKey ''Content-Type''"
    "CanonicalHeaderKey ''X-Content-Type-Options'' \<noteq> CanonicalHeaderKey ''Content-Length''"
    "CanonicalHeaderKey ''Content-Type'' \<noteq> CanonicalHeaderKey ''Content-Length''"
    by code_simp+
  have cl: "Header_Get ?h ''Content-Length'' = ''''"
    using k by (simp add: Header_Get_Set_other Header_Get_Del)
  have "ParseInt '''' = None" by (simp add: ParseInt_def)
  with cl have "declared_length ?h = None" by (simp add: declared_length_def)
  then have wh: "WriteHeader code (w\<lparr>rw_header := ?h\<rparr>)
    = Inr (w\<lparr>rw_header := Header_Del ?h ''Content-Length'', rw_sent := Some (code, ?h), rw_limit := None\<rparr>)"
    using assms by (simp add: WriteHeader_final untouched_def)
  show ?thesis
    using assms wh k
    by (simp add: http_Error_def Write_def Let_def decide_ok_sent final_status_def final_header_def
        untouched_def Header_Get_Set_other Header_Get_Set)
qed

text \<open>Once a status is decided, an error answer only appends its text to the body.\<close>

lemma http_Error_sent:
  assumes "rw_sent w = Some s"
  shows "\<exists>w'. http_Error msg code w = Inr w' \<and> rw_sent w' = Some s"
  using assms by (simp add: http_Error_def WriteHeader_sent Write_keeps Let_def)

section \<open>Requests and contexts\<close>

text \<open>
  A \<^verbatim>\<open>context.Context\<close>: whether it is done, and its values, innermost first. The keys the program uses
  are its own two types and the string \<^verbatim>\<open>"vars"\<close>; a value is a string, a map, a logger or something else.
\<close>

datatype ctxkey = KRequestId | KLogger | KString string

datatype ctxval = CStr string | CMap "(string \<times> ctxval) list" | CLogger string | COther

record ctx =
  ctx_done :: bool
  ctx_values :: "(ctxkey \<times> ctxval) list"

definition ctx_Value :: "ctx \<Rightarrow> ctxkey \<Rightarrow> ctxval option" where
  "ctx_Value c k = map_of (ctx_values c) k"

definition WithValue :: "ctx \<Rightarrow> ctxkey \<Rightarrow> ctxval \<Rightarrow> ctx" where
  "WithValue c k v = c\<lparr>ctx_values := (k, v) # ctx_values c\<rparr>"

definition background :: ctx where
  "background = \<lparr>ctx_done = False, ctx_values = []\<rparr>"

text \<open>
  The parts of an \<^verbatim>\<open>http.Request\<close> the program reads: the method, the decoded path \<^verbatim>\<open>URL.Path\<close>, the path
  as escaped in the request line, the values of the query, the headers and the context.
\<close>

record request =
  r_method :: string
  r_host :: string
  r_path :: string
  r_escaped :: string
  r_query :: "(string \<times> string) list"
  r_header :: header
  r_ctx :: ctx

definition query_Get :: "request \<Rightarrow> string \<Rightarrow> string" where
  "query_Get r k = (case map_of (r_query r) k of None \<Rightarrow> '''' | Some v \<Rightarrow> v)"

end
