(* ===== verification/Dot.thy ===== *)
theory Dot
  imports Go_Http
begin

text \<open>
  The dot value given to templates (\<^verbatim>\<open>dot.go\<close>): a struct with one field per provider, taken from a
  pool, filled by the providers' \<^verbatim>\<open>Value\<close> methods before the template runs and handed to their \<^verbatim>\<open>Cleanup\<close>
  methods, with the template's error, after it. A provider is a record of functions, as a Go interface
  value is; \<open>'s\<close> is the state of the world its methods change (the response writer, the databases, the
  open files) and \<open>'v\<close> the type of the values it puts into its field (Go's \<^verbatim>\<open>any\<close>, nil being \<open>None\<close>).
\<close>

type_synonym 'v dotval = "'v option list"
type_synonym ('s, 'v) cleanup_fun = "'v \<Rightarrow> gerror option \<Rightarrow> 's \<Rightarrow> (gerror option \<times> 's) panics"

text \<open>
  The argument of \<^verbatim>\<open>Value\<close>: the server's context, whether the response writer is an \<^verbatim>\<open>http.Flusher\<close>, and
  the request. The response writer itself is part of the world.
\<close>

record Request =
  q_sctx :: ctx
  q_flusher :: bool
  q_r :: request

record ('s, 'v) dotConfig =
  FieldName :: string
  Value :: "Request \<Rightarrow> 's \<Rightarrow> ('v option \<times> gerror option) \<times> 's"
  Cleanup :: "('s, 'v) cleanup_fun option"

record ('s, 'v, 't) dot =
  d_dps :: "('s, 'v) dotConfig list"
  d_cleanups :: "(nat \<times> ('s, 'v) cleanup_fun) list"
  d_types :: "'t list"
  d_pool :: "'v dotval list"

section \<open>Building the struct type: makeDot\<close>

text \<open>
  \<^verbatim>\<open>reflect.StructOf\<close> panics on a field without a name, with a name that is not an identifier, with a
  name that starts in lower case or with an underscore, and on a name that was used before.
\<close>

definition unexported :: "string \<Rightarrow> bool" where
  "unexported name \<longleftrightarrow> in_range 97 122 (byte_val (hd name)) \<or> hd name = CHR ''_''"

fun StructOf :: "unicode \<Rightarrow> string set \<Rightarrow> string list \<Rightarrow> unit panics" where
  "StructOf uni seen [] = Inr ()"
| "StructOf uni seen (name # names) =
     (if name = '''' then Inl ''reflect.StructOf: field has no name''
      else if \<not> is_ident uni name then Inl ''reflect.StructOf: field has invalid name''
      else if unexported name then Inl ''reflect.StructOf: field is unexported but missing PkgPath''
      else if name \<in> seen then Inl ''reflect.StructOf: duplicate field''
      else StructOf uni (insert name seen) names)"

text \<open>
  The loop of \<^verbatim>\<open>makeDot\<close>: every provider is asked for a value with a mock request to learn the type of
  its field (the error is ignored; the type of nil panics), and those with a \<^verbatim>\<open>Cleanup\<close> method are kept
  with their index.
\<close>

fun field_types ::
  "('v \<Rightarrow> 't) \<Rightarrow> Request \<Rightarrow> ('s, 'v) dotConfig list \<Rightarrow> 's \<Rightarrow> ('t list \<times> 's) panics" where
  "field_types tyof mock [] s = Inr ([], s)"
| "field_types tyof mock (dp # dps) s =
     (case Value dp mock s of
        ((None, _), _) \<Rightarrow> Inl ''nil pointer dereference''
      | ((Some a, _), s') \<Rightarrow>
          (case field_types tyof mock dps s' of
             Inl p \<Rightarrow> Inl p
           | Inr (ts, s'') \<Rightarrow> Inr (tyof a # ts, s'')))"

fun cleanups_from :: "nat \<Rightarrow> ('s, 'v) dotConfig list \<Rightarrow> (nat \<times> ('s, 'v) cleanup_fun) list" where
  "cleanups_from i [] = []"
| "cleanups_from i (dp # dps) =
     (case Cleanup dp of None \<Rightarrow> [] | Some c \<Rightarrow> [(i, c)]) @ cleanups_from (Suc i) dps"

definition makeDot ::
  "unicode \<Rightarrow> ('v \<Rightarrow> 't) \<Rightarrow> request \<Rightarrow> ('s, 'v) dotConfig list \<Rightarrow> 's \<Rightarrow> (('s, 'v, 't) dot \<times> 's) panics" where
  "makeDot uni tyof mock dps s =
     (case field_types tyof \<lparr>q_sctx = background, q_flusher = False, q_r = mock\<rparr> dps s of
        Inl p \<Rightarrow> Inl p
      | Inr (ts, s') \<Rightarrow>
          (case StructOf uni {} (map FieldName dps) of
             Inl p \<Rightarrow> Inl p
           | Inr _ \<Rightarrow>
               Inr (\<lparr>d_dps = dps, d_cleanups = cleanups_from 0 dps, d_types = ts, d_pool = []\<rparr>, s')))"

section \<open>Before the template: value\<close>

definition SetZero :: "'v dotval \<Rightarrow> 'v dotval" where
  "SetZero v = map (\<lambda>_. None) v"

text \<open>\<^verbatim>\<open>pool.Get\<close>: a value that was put back, or a new zero struct.\<close>

definition pool_Get :: "('s, 'v, 't) dot \<Rightarrow> 'v dotval \<times> ('s, 'v, 't) dot" where
  "pool_Get d = (case d_pool d of
     [] \<Rightarrow> (replicate (length (d_types d)) None, d)
   | v # vs \<Rightarrow> (v, d\<lparr>d_pool := vs\<rparr>))"

definition pool_Put :: "'v dotval \<Rightarrow> ('s, 'v, 't) dot \<Rightarrow> ('s, 'v, 't) dot" where
  "pool_Put v d = d\<lparr>d_pool := v # d_pool d\<rparr>"

text \<open>Storing a value of another type than the field's panics in \<^verbatim>\<open>reflect.Value.Set\<close>.\<close>

fun fill_fields ::
  "('v \<Rightarrow> 't) \<Rightarrow> 't list \<Rightarrow> Request \<Rightarrow> nat \<Rightarrow> ('s, 'v) dotConfig list \<Rightarrow> 'v dotval \<Rightarrow> 's
   \<Rightarrow> ((gerror + 'v dotval) \<times> 's) panics" where
  "fill_fields tyof ts r i [] val s = Inr (Inr val, s)"
| "fill_fields tyof ts r i (dp # dps) val s =
     (case Value dp r s of
        ((a, Some err), s') \<Rightarrow>
          Inr (Inl (Wrapf (''failed to construct dot value for '' @ FieldName dp) err), s')
      | ((None, None), s') \<Rightarrow> Inl ''reflect: call of reflect.Value.Set on zero Value''
      | ((Some a, None), s') \<Rightarrow>
          (if tyof a \<noteq> ts ! i then Inl ''reflect.Set: value is not assignable to type''
           else fill_fields tyof ts r (Suc i) dps (val[i := Some a]) s'))"

definition dot_value ::
  "('v \<Rightarrow> 't) \<Rightarrow> Request \<Rightarrow> ('s, 'v, 't) dot \<Rightarrow> 's
   \<Rightarrow> ((gerror + 'v dotval) \<times> ('s, 'v, 't) dot \<times> 's) panics" where
  "dot_value tyof r d s =
     (let (val, d1) = pool_Get d; val = SetZero val in
      case fill_fields tyof (d_types d1) r 0 (d_dps d1) val s of
        Inl p \<Rightarrow> Inl p
      | Inr (Inl err, s') \<Rightarrow> Inr (Inl err, pool_Put (SetZero val) d1, s')
      | Inr (Inr val', s') \<Rightarrow> Inr (Inr val', d1, s'))"

section \<open>After the template: cleanup\<close>

fun run_cleanups ::
  "(nat \<times> ('s, 'v) cleanup_fun) list \<Rightarrow> 'v dotval \<Rightarrow> gerror option \<Rightarrow> 's \<Rightarrow> (gerror option \<times> 's) panics" where
  "run_cleanups [] v err s = Inr (err, s)"
| "run_cleanups ((i, c) # cs) v err s =
     (case v ! i of
        None \<Rightarrow> Inl ''interface conversion: interface is nil''
      | Some a \<Rightarrow>
          (case c a err s of
             Inl p \<Rightarrow> Inl p
           | Inr (err', s') \<Rightarrow> run_cleanups cs v err' s'))"

definition dot_cleanup ::
  "'v dotval \<Rightarrow> gerror option \<Rightarrow> ('s, 'v, 't) dot \<Rightarrow> 's \<Rightarrow> (gerror option \<times> ('s, 'v, 't) dot \<times> 's) panics" where
  "dot_cleanup v err d s =
     (case run_cleanups (d_cleanups d) v err s of
        Inl p \<Rightarrow> Inl p
      | Inr (err', s') \<Rightarrow> Inr (err', pool_Put (SetZero v) d, s'))"

section \<open>What value, cleanup and makeDot guarantee\<close>

text \<open>
  The invariant of a \<^verbatim>\<open>dot\<close>: the field types and the cleanup list agree with the providers, and the pool
  holds structs of the right shape.
\<close>

definition dot_wf :: "('s, 'v, 't) dot \<Rightarrow> bool" where
  "dot_wf d \<longleftrightarrow> length (d_types d) = length (d_dps d) \<and> d_cleanups d = cleanups_from 0 (d_dps d)
     \<and> (\<forall>v \<in> set (d_pool d). length v = length (d_dps d))"

lemma SetZero_replicate: "SetZero v = replicate (length v) None"
  by (simp add: SetZero_def map_replicate_const)

lemma pool_Get_wf:
  assumes "dot_wf d" and "pool_Get d = (v, d1)"
  shows "length v = length (d_dps d)" and "dot_wf d1" and "d_dps d1 = d_dps d"
    and "d_types d1 = d_types d" and "d_cleanups d1 = d_cleanups d"
  using assms by (auto simp: dot_wf_def pool_Get_def split: list.splits)

lemma pool_Put_wf: "dot_wf d \<Longrightarrow> length v = length (d_dps d) \<Longrightarrow> dot_wf (pool_Put v d)"
  by (simp add: dot_wf_def pool_Put_def)

text \<open>
  A reference for the loop of \<^verbatim>\<open>value\<close> that has no pool and no indices: ask the providers in turn and
  collect what they answer.
\<close>

fun ask_all ::
  "('v \<Rightarrow> 't) \<Rightarrow> 't list \<Rightarrow> Request \<Rightarrow> ('s, 'v) dotConfig list \<Rightarrow> 's \<Rightarrow> ((gerror + 'v list) \<times> 's) panics" where
  "ask_all tyof ts r [] s = Inr (Inr [], s)"
| "ask_all tyof ts r (dp # dps) s =
     (case Value dp r s of
        ((a, Some err), s') \<Rightarrow>
          Inr (Inl (Wrapf (''failed to construct dot value for '' @ FieldName dp) err), s')
      | ((None, None), s') \<Rightarrow> Inl ''reflect: call of reflect.Value.Set on zero Value''
      | ((Some a, None), s') \<Rightarrow>
          (if tyof a \<noteq> hd ts then Inl ''reflect.Set: value is not assignable to type''
           else (case ask_all tyof (tl ts) r dps s' of
                   Inr (Inr as, s'') \<Rightarrow> Inr (Inr (a # as), s'')
                 | x \<Rightarrow> x)))"

lemma fill_fields_ask:
  assumes "length val = i + length dps" and "length ts = i + length dps"
  shows "fill_fields tyof ts r i dps val s =
    (case ask_all tyof (drop i ts) r dps s of
       Inr (Inr as, s') \<Rightarrow> Inr (Inr (take i val @ map Some as), s')
     | Inr (Inl e, s') \<Rightarrow> Inr (Inl e, s')
     | Inl p \<Rightarrow> Inl p)"
  using assms
proof (induction dps arbitrary: i val s)
  case (Cons dp dps)
  have ts: "drop i ts \<noteq> []" "hd (drop i ts) = ts ! i" "tl (drop i ts) = drop (Suc i) ts"
    using Cons.prems by (simp_all add: hd_drop_conv_nth drop_Suc tl_drop)
  have val: "take (Suc i) (val[i := Some a]) = take i val @ [Some a]" for a
    using Cons.prems by (simp add: take_Suc_conv_app_nth)
  show ?case
    using Cons.IH [of "val[i := Some _]" "Suc i"] Cons.prems
    by (auto simp: ts val split: prod.splits option.splits sum.splits)
qed simp

lemma ask_all_length: "ask_all tyof ts r dps s = Inr (Inr as, s') \<Longrightarrow> length as = length dps"
  by (induction dps arbitrary: ts s as)
    (auto split: prod.splits option.splits sum.splits if_splits)

text \<open>A reference for the loop of \<^verbatim>\<open>cleanup\<close> that walks the providers and the fields side by side.\<close>

fun cleanup_all ::
  "('s, 'v) dotConfig list \<Rightarrow> 'v list \<Rightarrow> gerror option \<Rightarrow> 's \<Rightarrow> (gerror option \<times> 's) panics" where
  "cleanup_all (dp # dps) (a # as) err s =
     (case Cleanup dp of
        None \<Rightarrow> cleanup_all dps as err s
      | Some c \<Rightarrow>
          (case c a err s of
             Inl p \<Rightarrow> Inl p
           | Inr (err', s') \<Rightarrow> cleanup_all dps as err' s'))"
| "cleanup_all _ _ err s = Inr (err, s)"

lemma run_cleanups_from:
  "length as = length dps \<Longrightarrow> length pre = i \<Longrightarrow>
   run_cleanups (cleanups_from i dps) (pre @ map Some as) err s = cleanup_all dps as err s"
proof (induction dps arbitrary: i pre as err s)
  case (Cons dp dps)
  from Cons.prems obtain a as' where as: "as = a # as'" by (cases as) auto
  have nth: "(pre @ Some a # map Some as') ! i = Some a" using Cons.prems by (simp add: nth_append)
  have "run_cleanups (cleanups_from (Suc i) dps) ((pre @ [Some a]) @ map Some as') err' s'
      = cleanup_all dps as' err' s'" for err' s'
    by (rule Cons.IH) (use Cons.prems as in auto)
  then show ?case by (auto simp: as nth split: option.splits sum.splits)
qed simp
lemma cleanup_all_append:
  "length as = length dps \<Longrightarrow> cleanup_all (dps @ dps') (as @ as') err s =
   (case cleanup_all dps as err s of Inl p \<Rightarrow> Inl p | Inr (err', s') \<Rightarrow> cleanup_all dps' as' err' s')"
proof (induction dps arbitrary: as err s)
  case (Cons dp dps)
  then obtain a as'' where "as = a # as''" by (cases as) auto
  with Cons show ?case by (auto split: option.splits sum.splits)
qed simp

lemma cleanup_all_none: "\<forall>dp \<in> set dps. Cleanup dp = None \<Longrightarrow> cleanup_all dps as err s = Inr (err, s)"
proof (induction dps arbitrary: as)
  case (Cons dp dps)
  then show ?case by (cases as) auto
qed simp

text \<open>
  The contract most providers keep: a \<^verbatim>\<open>Cleanup\<close> that is given an error answers with an error. The one
  exception is the provider of \<^verbatim>\<open>.X\<close>, which turns \<^verbatim>\<open>ReturnError\<close> into success.
\<close>

locale error_keeper =
  fixes cleanup :: "('s, 'v) cleanup_fun"
  assumes keeps_error: "cleanup v (Some e) s = Inr (err', s') \<Longrightarrow> err' \<noteq> None"

lemma cleanup_all_keeps_error:
  assumes "\<And>dp c. dp \<in> set dps \<Longrightarrow> Cleanup dp = Some c \<Longrightarrow> error_keeper c"
    and "cleanup_all dps as (Some e) s = Inr (err', s')"
  shows "err' \<noteq> None"
  using assms
proof (induction dps arbitrary: as e s)
  case (Cons dp dps)
  show ?case
  proof (cases as)
    case Nil
    with Cons.prems(2) show ?thesis by auto
  next
    case as: (Cons a as')
    have IH: "cleanup_all dps as'' (Some e'') s'' = Inr (err', s') \<Longrightarrow> err' \<noteq> None" for as'' e'' s''
      by (rule Cons.IH) (use Cons.prems(1) in auto)
    show ?thesis
    proof (cases "Cleanup dp")
      case None
      with as Cons.prems(2) IH show ?thesis by simp
    next
      case (Some c)
      with as Cons.prems(2) obtain err1 s1 where c: "c a (Some e) s = Inr (err1, s1)"
        and rest: "cleanup_all dps as' err1 s1 = Inr (err', s')"
        by (auto split: sum.splits)
      have "error_keeper c" by (rule Cons.prems(1) [OF _ Some]) simp
      from error_keeper.keeps_error [OF this c] obtain e1 where "err1 = Some e1" by blast
      with rest IH show ?thesis by simp
    qed
  qed
qed auto

lemma dot_value_ask:
  assumes "dot_wf d"
  shows "case dot_value tyof r d s of
     Inl p \<Rightarrow> ask_all tyof (d_types d) r (d_dps d) s = Inl p
   | Inr (res, d', s') \<Rightarrow> dot_wf d' \<and> d_dps d' = d_dps d \<and> d_types d' = d_types d
       \<and> (case res of
            Inl e \<Rightarrow> ask_all tyof (d_types d) r (d_dps d) s = Inr (Inl e, s')
          | Inr val \<Rightarrow> \<exists>as. val = map Some as \<and> ask_all tyof (d_types d) r (d_dps d) s = Inr (Inr as, s'))"
proof -
  obtain v d1 where get: "pool_Get d = (v, d1)" by force
  note wf = pool_Get_wf [OF assms get]
  have len: "length (SetZero v) = 0 + length (d_dps d)" "length (d_types d) = 0 + length (d_dps d)"
    using wf(1) assms by (simp_all add: SetZero_def dot_wf_def)
  have put: "dot_wf (pool_Put (SetZero (SetZero v)) d1)"
    using wf by (intro pool_Put_wf) (simp_all add: SetZero_def)
  have f: "d_dps (pool_Put x d1) = d_dps d" "d_types (pool_Put x d1) = d_types d" for x
    using wf by (simp_all add: pool_Put_def)
  show ?thesis
    using fill_fields_ask [OF len, of tyof r s] wf put
    by (auto simp: dot_value_def get f Let_def split: sum.splits prod.splits)
qed

text \<open>C6. \<^verbatim>\<open>value\<close> gives a template exactly what the providers answer for this request: the struct may come
  from the pool, but nothing an earlier request left in it survives, whatever the pool holds, and the
  provider at position \<open>i\<close> fills field \<open>i\<close>. When a provider fails the caller gets its error and no value.
  The invariant of the \<^verbatim>\<open>dot\<close> is kept.\<close>

theorem dot_value_fresh:
  assumes "dot_wf d"
  shows "case dot_value tyof r d s of
     Inl p \<Rightarrow> ask_all tyof (d_types d) r (d_dps d) s = Inl p
   | Inr (res, d', s') \<Rightarrow> dot_wf d' \<and> d_dps d' = d_dps d \<and> d_types d' = d_types d
       \<and> (case res of
            Inl e \<Rightarrow> ask_all tyof (d_types d) r (d_dps d) s = Inr (Inl e, s')
          | Inr val \<Rightarrow> \<exists>as. val = map Some as \<and> ask_all tyof (d_types d) r (d_dps d) s = Inr (Inr as, s'))"
  by (rule dot_value_ask [OF assms])

lemma dot_cleanup_all:
  assumes "dot_wf d" and "length as = length (d_dps d)"
  shows "dot_cleanup (map Some as) err d s =
    (case cleanup_all (d_dps d) as err s of
       Inl p \<Rightarrow> Inl p
     | Inr (err', s') \<Rightarrow> Inr (err', d\<lparr>d_pool := replicate (length as) None # d_pool d\<rparr>, s'))"
  using assms run_cleanups_from [of as "d_dps d" "[]" 0 err s]
  by (auto simp: dot_cleanup_def dot_wf_def pool_Put_def SetZero_replicate split: sum.splits)

text \<open>C7. \<^verbatim>\<open>cleanup\<close> calls the \<^verbatim>\<open>Cleanup\<close> method of every provider that has one, in the order of the providers,
  each on its own field (the recorded indices are right) and with the error its predecessor returned;
  then the struct goes back to the pool with every field zero.\<close>

theorem dot_cleanup_order:
  assumes "dot_wf d" and "length as = length (d_dps d)"
  shows "dot_cleanup (map Some as) err d s =
    (case cleanup_all (d_dps d) as err s of
       Inl p \<Rightarrow> Inl p
     | Inr (err', s') \<Rightarrow> Inr (err', d\<lparr>d_pool := replicate (length as) None # d_pool d\<rparr>, s'))"
  by (rule dot_cleanup_all [OF assms])

lemma StructOf_ok:
  "StructOf uni seen names = Inr () \<longleftrightarrow> distinct names \<and> set names \<inter> seen = {}
     \<and> (\<forall>n \<in> set names. is_ident uni n \<and> \<not> unexported n)"
  by (induction names arbitrary: seen) (auto simp: is_ident_def)

lemma makeDot_cases:
  "case makeDot uni tyof mock dps s of
     Inr (d, s') \<Rightarrow> dot_wf d \<and> d_dps d = dps \<and> d_pool d = [] \<and> distinct (map FieldName dps)
       \<and> (\<forall>dp \<in> set dps. is_ident uni (FieldName dp) \<and> \<not> unexported (FieldName dp))
   | Inl p \<Rightarrow> \<not> distinct (map FieldName dps)
       \<or> (\<exists>dp \<in> set dps. \<not> is_ident uni (FieldName dp) \<or> unexported (FieldName dp))
       \<or> field_types tyof \<lparr>q_sctx = background, q_flusher = False, q_r = mock\<rparr> dps s = Inl p"
proof -
  have len: "field_types tyof q dps s = Inr (ts, s') \<Longrightarrow> length ts = length dps" for q ts s'
    by (induction dps arbitrary: s ts) (auto split: prod.splits option.splits sum.splits)
  have ok: "StructOf uni {} (map FieldName dps) = Inr () \<longleftrightarrow> distinct (map FieldName dps)
     \<and> (\<forall>dp \<in> set dps. is_ident uni (FieldName dp) \<and> \<not> unexported (FieldName dp))"
    by (simp add: StructOf_ok)
  show ?thesis
    using ok by (auto simp: makeDot_def dot_wf_def dest: len split: sum.splits prod.splits)
qed


section \<open>Examples\<close>

text \<open>Two providers over a log of calls, and a \<^verbatim>\<open>dot\<close> whose pool holds a struct with a value left in it.\<close>

definition log_provider :: "string \<Rightarrow> nat \<Rightarrow> (string list, nat) dotConfig" where
  "log_provider name n = \<lparr>FieldName = name, Value = (\<lambda>_ s. ((Some n, None), s @ [name])),
     Cleanup = Some (\<lambda>_ err s. Inr (err, s @ [''clean '' @ name]))\<rparr>"

definition example_dot :: "(string list, nat, unit) dot" where
  "example_dot = \<lparr>d_dps = [log_provider ''A'' 1, log_provider ''B'' 2],
     d_cleanups = cleanups_from 0 [log_provider ''A'' 1, log_provider ''B'' 2],
     d_types = [(), ()], d_pool = [[Some 7, None]]\<rparr>"

definition get_request :: "string \<Rightarrow> request" where
  "get_request p = \<lparr>r_method = ''GET'', r_host = '''', r_path = p, r_escaped = p, r_query = [],
     r_header = (\<lambda>_. None), r_ctx = background\<rparr>"

lemma example_dot_wf: "dot_wf example_dot"
  by (simp add: dot_wf_def example_dot_def)

lemma dot_value_fresh_witness:
  "\<exists>d'. dot_value (\<lambda>_. ()) \<lparr>q_sctx = background, q_flusher = False, q_r = get_request ''/''\<rparr> example_dot []
     = Inr (Inr [Some 1, Some 2], d', [''A'', ''B'']) \<and> dot_wf d'"
proof -
  let ?q = "\<lparr>q_sctx = background, q_flusher = False, q_r = get_request ''/''\<rparr>"
  obtain d' where v: "dot_value (\<lambda>_. ()) ?q example_dot [] = Inr (Inr [Some 1, Some 2], d', [''A'', ''B''])"
    by (simp add: dot_value_def example_dot_def pool_Get_def SetZero_def log_provider_def)
  with dot_value_fresh [OF example_dot_wf, of "\<lambda>_. ()" ?q "[]"] show ?thesis by auto
qed

lemma dot_cleanup_order_witness:
  "dot_cleanup (map Some [1, 2]) None example_dot [] =
   Inr (None, example_dot\<lparr>d_pool := [[None, None], [Some 7, None]]\<rparr>, [''clean A'', ''clean B''])"
  using dot_cleanup_order [OF example_dot_wf, of "[1, 2]" None "[]"]
  by (simp add: example_dot_def log_provider_def numeral_2_eq_2)

definition ascii_only :: unicode where
  "ascii_only = \<lparr>u_letter = (\<lambda>_. False), u_digit = (\<lambda>_. False)\<rparr>"


end
