(* ===== verification/Dot_DB.thy ===== *)
theory Dot_DB
  imports Dot "HOL-Library.AList"
begin

text \<open>
  The SQL provider (\<^verbatim>\<open>dot_db.go\<close>, \<^verbatim>\<open>dot_db_config.go\<close>). A \<^verbatim>\<open>DotDB\<close> opens a transaction at the first statement,
  runs every later statement in it, and \<^verbatim>\<open>Cleanup\<close> commits it when the template succeeded and rolls it
  back when it failed. \<open>'d\<close> is the contents of a database; the driver behind \<^verbatim>\<open>sql.DB\<close> and \<^verbatim>\<open>sql.Tx\<close> is a record
  of functions, an argument of every operation: it may refuse anything.
\<close>

text \<open>\<^verbatim>\<open>sql.Rows\<close>: the column names, what \<^verbatim>\<open>Scan\<close> gives for each row \<^verbatim>\<open>Next\<close> finds, and \<^verbatim>\<open>Err()\<close> at the end.\<close>

record sqlRows =
  rs_columns :: "gerror + string list"
  rs_scans :: "(gerror + any list) list"
  rs_err :: "gerror option"

text \<open>
  \<^verbatim>\<open>BeginTx\<close> gives the state the new transaction works on. \<^verbatim>\<open>Commit\<close> and \<^verbatim>\<open>Rollback\<close> take the contents of the
  database and the state of the transaction, and give the contents afterwards.
\<close>

record 'd sqlDB =
  BeginTx :: "ctx \<Rightarrow> 'd \<Rightarrow> gerror + 'd"
  TxExec :: "string \<Rightarrow> any list \<Rightarrow> 'd \<Rightarrow> (gerror + any) \<times> 'd"
  TxQuery :: "string \<Rightarrow> any list \<Rightarrow> 'd \<Rightarrow> (gerror + sqlRows) \<times> 'd"
  TxCommit :: "'d \<Rightarrow> 'd \<Rightarrow> gerror option \<times> 'd"
  TxRollback :: "'d \<Rightarrow> 'd \<Rightarrow> gerror option \<times> 'd"

record 'd DotDB =
  db_ctx :: ctx
  db_tx :: "'d option"

definition dotDB_Value :: "ctx \<Rightarrow> 'd DotDB" where
  "dotDB_Value c = \<lparr>db_ctx = c, db_tx = None\<rparr>"

section \<open>Statements\<close>

text \<open>\<open>c\<close> is the contents of the database; a statement changes the transaction only.\<close>

definition makeTx :: "'d sqlDB \<Rightarrow> 'd \<Rightarrow> 'd DotDB \<Rightarrow> gerror option \<times> 'd DotDB" where
  "makeTx sql c d =
     (case db_tx d of
        Some t \<Rightarrow> (None, d)
      | None \<Rightarrow>
          (case BeginTx sql (db_ctx d) c of
             Inl e \<Rightarrow> (Some e, d)
           | Inr t \<Rightarrow> (None, d\<lparr>db_tx := Some t\<rparr>)))"

definition Exec :: "'d sqlDB \<Rightarrow> string \<Rightarrow> any list \<Rightarrow> 'd \<Rightarrow> 'd DotDB \<Rightarrow> (gerror + any) \<times> 'd DotDB" where
  "Exec sql query params c d =
     (case makeTx sql c d of
        (Some e, d1) \<Rightarrow> (Inl e, d1)
      | (None, d1) \<Rightarrow>
          (case TxExec sql query params (the (db_tx d1)) of (r, t) \<Rightarrow> (r, d1\<lparr>db_tx := Some t\<rparr>)))"

type_synonym row = "(string \<times> any) list"

definition make_row :: "string list \<Rightarrow> any list \<Rightarrow> row" where
  "make_row columns out = foldl (\<lambda>row (c, v). AList.update c v row) [] (zip columns out)"

fun scan_rows :: "string list \<Rightarrow> (gerror + any list) list \<Rightarrow> gerror + row list" where
  "scan_rows columns [] = Inr []"
| "scan_rows columns (Inl e # scans) = Inl e"
| "scan_rows columns (Inr out # scans) = map_sum id (\<lambda>rows. make_row columns out # rows) (scan_rows columns scans)"

definition QueryRows ::
  "'d sqlDB \<Rightarrow> string \<Rightarrow> any list \<Rightarrow> 'd \<Rightarrow> 'd DotDB \<Rightarrow> (row list \<times> gerror option) \<times> 'd DotDB" where
  "QueryRows sql query params c d =
     (case makeTx sql c d of
        (Some e, d1) \<Rightarrow> (([], Some e), d1)
      | (None, d1) \<Rightarrow>
          (case TxQuery sql query params (the (db_tx d1)) of
             (r, t) \<Rightarrow>
               (case r of
                  Inl e \<Rightarrow> ([], Some (Wrapf ''failed to execute query'' e))
                | Inr result \<Rightarrow>
                    (case rs_columns result of
                       Inl e \<Rightarrow> ([], Some e)
                     | Inr columns \<Rightarrow>
                         (case scan_rows columns (rs_scans result) of
                            Inl e \<Rightarrow> ([], Some e)
                          | Inr rows \<Rightarrow> (rows, rs_err result))),
                d1\<lparr>db_tx := Some t\<rparr>)))"

definition QueryRow ::
  "'d sqlDB \<Rightarrow> string \<Rightarrow> any list \<Rightarrow> 'd \<Rightarrow> 'd DotDB \<Rightarrow> (gerror + row) \<times> 'd DotDB" where
  "QueryRow sql query params c d =
     (case QueryRows sql query params c d of
        ((rows, Some e), d1) \<Rightarrow> (Inl e, d1)
      | ((rows, None), d1) \<Rightarrow>
          (if length rows \<noteq> 1 then
             (Inl (ErrMsg (''query returned '' @ Itoa (int (length rows)) @ '' rows, expected exactly 1 row'')), d1)
           else (Inr (rows ! 0), d1)))"

definition QueryVal ::
  "'d sqlDB \<Rightarrow> string \<Rightarrow> any list \<Rightarrow> 'd \<Rightarrow> 'd DotDB \<Rightarrow> (gerror + any) panics \<times> 'd DotDB" where
  "QueryVal sql query params c d =
     (case QueryRow sql query params c d of
        (Inl e, d1) \<Rightarrow> (Inr (Inl e), d1)
      | (Inr row, d1) \<Rightarrow>
          (if length row \<noteq> 1 then
             (Inr (Inl (ErrMsg (''query returned '' @ Itoa (int (length row)) @ '' columns, expected 1''))), d1)
           else (case row of
                   (_, v) # _ \<Rightarrow> (Inr (Inr v), d1)
                 | [] \<Rightarrow> (Inl ''impossible condition'', d1))))"

section \<open>The end of a transaction\<close>

definition commit :: "'d sqlDB \<Rightarrow> 'd \<Rightarrow> 'd DotDB \<Rightarrow> gerror option \<times> 'd \<times> 'd DotDB" where
  "commit sql c d =
     (case db_tx d of
        Some t \<Rightarrow> (case TxCommit sql c t of (err, c') \<Rightarrow> (err, c', d\<lparr>db_tx := None\<rparr>))
      | None \<Rightarrow> (None, c, d))"

definition rollback :: "'d sqlDB \<Rightarrow> 'd \<Rightarrow> 'd DotDB \<Rightarrow> gerror option \<times> 'd \<times> 'd DotDB" where
  "rollback sql c d =
     (case db_tx d of
        Some t \<Rightarrow> (case TxRollback sql c t of (err, c') \<Rightarrow> (err, c', d\<lparr>db_tx := None\<rparr>))
      | None \<Rightarrow> (None, c, d))"

definition Commit :: "'d sqlDB \<Rightarrow> 'd \<Rightarrow> 'd DotDB \<Rightarrow> (string \<times> gerror option) \<times> 'd \<times> 'd DotDB" where
  "Commit sql c d = (case commit sql c d of (err, c', d') \<Rightarrow> (('''', err), c', d'))"

definition Rollback :: "'d sqlDB \<Rightarrow> 'd \<Rightarrow> 'd DotDB \<Rightarrow> (string \<times> gerror option) \<times> 'd \<times> 'd DotDB" where
  "Rollback sql c d = (case rollback sql c d of (err, c', d') \<Rightarrow> (('''', err), c', d'))"

definition dotDB_Cleanup :: "'d sqlDB \<Rightarrow> 'd DotDB \<Rightarrow> gerror option \<Rightarrow> 'd \<Rightarrow> gerror option \<times> 'd \<times> 'd DotDB" where
  "dotDB_Cleanup sql d err c =
     (if err \<noteq> None then
        (case rollback sql c d of (err', c', d') \<Rightarrow> (errors_Join [err, err'], c', d'))
      else
        (case commit sql c d of (err', c', d') \<Rightarrow> (errors_Join [err, err'], c', d')))"

section \<open>What the provider guarantees\<close>

text \<open>
  What \<^verbatim>\<open>database/sql\<close> documents of a transaction: a commit without error makes the state of the
  transaction the contents of the database, a commit that fails and a rollback leave the contents as
  they were.
\<close>

definition sql_ok :: "'d sqlDB \<Rightarrow> bool" where
  "sql_ok sql \<longleftrightarrow> (\<forall>c t. snd (TxRollback sql c t) = c
     \<and> snd (TxCommit sql c t) = (if fst (TxCommit sql c t) = None then t else c))"

text \<open>The statements of a template, and the state a transaction is in after one.\<close>

datatype stmt = SExec string "any list" | SQueryRows string "any list" | SQueryRow string "any list"
  | SQueryVal string "any list"

fun stmt_effect :: "'d sqlDB \<Rightarrow> 'd \<Rightarrow> stmt \<Rightarrow> 'd" where
  "stmt_effect sql t (SExec q ps) = snd (TxExec sql q ps t)"
| "stmt_effect sql t (SQueryRows q ps) = snd (TxQuery sql q ps t)"
| "stmt_effect sql t (SQueryRow q ps) = snd (TxQuery sql q ps t)"
| "stmt_effect sql t (SQueryVal q ps) = snd (TxQuery sql q ps t)"

fun run_stmt :: "'d sqlDB \<Rightarrow> 'd \<Rightarrow> 'd DotDB \<Rightarrow> stmt \<Rightarrow> 'd DotDB" where
  "run_stmt sql c d (SExec q ps) = snd (Exec sql q ps c d)"
| "run_stmt sql c d (SQueryRows q ps) = snd (QueryRows sql q ps c d)"
| "run_stmt sql c d (SQueryRow q ps) = snd (QueryRow sql q ps c d)"
| "run_stmt sql c d (SQueryVal q ps) = snd (QueryVal sql q ps c d)"

definition view :: "'d \<Rightarrow> 'd DotDB \<Rightarrow> 'd" where
  "view c d = (case db_tx d of Some t \<Rightarrow> t | None \<Rightarrow> c)"

lemma QueryRow_state: "snd (QueryRow sql q ps c d) = snd (QueryRows sql q ps c d)"
  by (auto simp: QueryRow_def split: prod.splits option.splits)

lemma QueryVal_state: "snd (QueryVal sql q ps c d) = snd (QueryRows sql q ps c d)"
  using QueryRow_state [of sql q ps c d]
  by (auto simp: QueryVal_def split: prod.splits sum.splits list.splits)

lemma run_stmt_view:
  assumes "db_tx d \<noteq> None \<or> BeginTx sql (db_ctx d) c = Inr c"
  shows "db_tx (run_stmt sql c d st) = Some (stmt_effect sql (view c d) st)
    \<and> db_ctx (run_stmt sql c d st) = db_ctx d"
  using assms
  by (cases st) (auto simp: QueryRow_state QueryVal_state Exec_def QueryRows_def makeTx_def view_def
      split: option.splits prod.splits)

lemma run_stmts_view:
  assumes "db_tx d \<noteq> None \<or> BeginTx sql (db_ctx d) c = Inr c"
  shows "view c (foldl (run_stmt sql c) d sts) = foldl (stmt_effect sql) (view c d) sts"
  using assms
proof (induction sts arbitrary: d)
  case (Cons st sts)
  note step = run_stmt_view [OF Cons.prems, of st]
  have "view c (foldl (run_stmt sql c) (run_stmt sql c d st) sts)
      = foldl (stmt_effect sql) (view c (run_stmt sql c d st)) sts"
    by (rule Cons.IH) (use step in simp)
  with step show ?case by (simp add: view_def)
qed simp

lemma sql_okD:
  assumes "sql_ok sql"
  shows "TxRollback sql c t = (e, c') \<Longrightarrow> c' = c" and "TxCommit sql c t = (e, c') \<Longrightarrow> c' = (if e = None then t else c)"
  using assms by (metis sql_ok_def snd_conv) (metis assms sql_ok_def fst_conv snd_conv)

lemma dotDB_Cleanup_view:
  assumes "sql_ok sql" and "dotDB_Cleanup sql d err c = (err', c', d')"
  shows "db_tx d' = None" and "err' = None \<Longrightarrow> err = None \<and> c' = view c d" and "err' \<noteq> None \<Longrightarrow> c' = c"
  using assms(2)
  by (auto simp: dotDB_Cleanup_def commit_def rollback_def errors_Join_pair view_def dest: sql_okD [OF assms(1)]
      split: option.splits prod.splits if_splits)


lemma dotDB_Cleanup_keeps_error:
  "dotDB_Cleanup sql d (Some e) c = (err', c', d') \<Longrightarrow> err' \<noteq> None"
  by (auto simp: dotDB_Cleanup_def errors_Join_pair split: prod.splits option.splits)
subsection \<open>Rows\<close>

lemma make_row_foldl:
  "map_of (foldl (\<lambda>row (c, v). AList.update c v row) row cvs) = map_of row ++ map_of (rev cvs)
   \<and> (distinct (map fst row) \<longrightarrow> distinct (map fst (foldl (\<lambda>row (c, v). AList.update c v row) row cvs)))"
proof (induction cvs arbitrary: row)
  case (Cons cv cvs)
  obtain k v where cv: "cv = (k, v)" by force
  have upd: "map_of (AList.update k v row) = (map_of row)(k \<mapsto> v)" by (simp add: update_conv')
  show ?case using Cons.IH [of "AList.update k v row"]
    by (auto simp: cv upd distinct_update map_add_def split: option.splits)
qed simp

text \<open>A row maps each column to its value; the last column of a name wins.\<close>

lemma map_of_make_row: "map_of (make_row columns out) = map_of (rev (zip columns out))"
  using make_row_foldl [of "[]" "zip columns out"] by (simp add: make_row_def)

lemma distinct_make_row: "distinct (map fst (make_row columns out))"
  using make_row_foldl [of "[]" "zip columns out"] by (simp add: make_row_def)

lemma set_make_row:
  "length out = length columns \<Longrightarrow> fst ` set (make_row columns out) = set columns"
proof -
  assume len: "length out = length columns"
  have "fst ` set (make_row columns out) = dom (map_of (make_row columns out))"
    by (simp add: dom_map_of_conv_image_fst)
  also have "\<dots> = set columns"
    using len by (simp add: map_of_make_row dom_map_of_conv_image_fst flip: set_map)
  finally show ?thesis .
qed

lemma length_make_row: "length out = length columns \<Longrightarrow> length (make_row columns out) = card (set columns)"
  using distinct_card [OF distinct_make_row, of columns out] by (simp add: set_make_row)

lemma scan_rows_all: "scan_rows columns (map Inr outs) = Inr (map (make_row columns) outs)"
  by (induction outs) auto

lemma scan_rows_error: "Inl e \<in> set scans \<Longrightarrow> \<exists>e'. scan_rows columns scans = Inl e'"
  by (induction columns scans rule: scan_rows.induct) auto

text \<open>The transaction accepts the query and answers with these columns and these rows.\<close>

definition answers ::
  "'d sqlDB \<Rightarrow> string \<Rightarrow> any list \<Rightarrow> 'd \<Rightarrow> 'd DotDB \<Rightarrow> string list \<Rightarrow> any list list \<Rightarrow> bool" where
  "answers sql query params c d columns outs \<longleftrightarrow>
     fst (makeTx sql c d) = None
     \<and> fst (TxQuery sql query params (the (db_tx (snd (makeTx sql c d))))) =
         Inr \<lparr>rs_columns = Inr columns, rs_scans = map Inr outs, rs_err = None\<rparr>"

lemma QueryRows_answers:
  "answers sql query params c d columns outs \<Longrightarrow>
   fst (QueryRows sql query params c d) = (map (make_row columns) outs, None)"
  by (auto simp: answers_def QueryRows_def scan_rows_all split: prod.splits option.splits)

text \<open>C34. \<^verbatim>\<open>QueryVal\<close> never reaches its \<^verbatim>\<open>panic("impossible condition")\<close>. On a query that the database answers
  it gives a value exactly when there is one row and one column name, and then it is the value of the
  last column; every other answer is an error.\<close>

theorem QueryVal_value:
  assumes "answers sql query params c d columns outs"
    and "\<And>out. out \<in> set outs \<Longrightarrow> length out = length columns"
  shows "case fst (QueryVal sql query params c d) of
     Inl p \<Rightarrow> False
   | Inr (Inl e) \<Rightarrow> length outs \<noteq> 1 \<or> card (set columns) \<noteq> 1
   | Inr (Inr v) \<Rightarrow> \<exists>out. outs = [out] \<and> card (set columns) = 1 \<and> v = last out"
proof (cases "\<exists>out. outs = [out]")
  case False
  then have "length outs \<noteq> 1" by (metis length_0_conv length_Suc_conv One_nat_def)
  then show ?thesis
    using QueryRows_answers [OF assms(1)]
    by (auto simp: QueryVal_def QueryRow_def split: prod.splits option.splits sum.splits)
next
  case True
  then obtain out where out: "outs = [out]" by blast
  have len: "length out = length columns" using assms(2) out by simp
  let ?row = "make_row columns out"
  have q: "fst (QueryRow sql query params c d) = Inr ?row"
    using QueryRows_answers [OF assms(1)] out by (auto simp: QueryRow_def split: prod.splits)
  show ?thesis
  proof (cases "length ?row = 1")
    case False
    with q len show ?thesis
      by (auto simp: QueryVal_def length_make_row split: prod.splits list.splits)
  next
    case one: True
    then obtain k v where row: "?row = [(k, v)]" by (auto simp: length_Suc_conv)
    have "columns \<noteq> []" using row by (auto simp: make_row_def)
    then have ne: "zip columns out \<noteq> []" using len by (cases columns; cases out) auto
    have k: "last columns = k" using row set_make_row [OF len] \<open>columns \<noteq> []\<close>
      by (metis fst_conv image_empty image_insert last_in_set list.set(1) list.simps(15) singletonD)
    have rz: "rev (zip columns out) = (last columns, last out) # rev (butlast (zip columns out))"
      using append_butlast_last_id [OF ne] last_zip [of columns out] ne len
      by (metis length_0_conv rev_eq_Cons_iff rev_rev_ident zip_Nil zip_eq_Nil_iff)
    have "map_of ?row k = Some (last out)" unfolding map_of_make_row rz by (simp add: k)
    then have "v = last out" using row by simp
    moreover have "card (set columns) = 1" using one length_make_row [OF len] by simp
    ultimately show ?thesis using q row out by (auto simp: QueryVal_def split: prod.splits)
  qed
qed

section \<open>Examples\<close>

text \<open>A database that is the list of the statements executed on it; a query answers with their number
  under the column names given as parameters.\<close>

definition log_db :: "string list sqlDB" where
  "log_db = \<lparr>BeginTx = (\<lambda>_ c. Inr c),
     TxExec = (\<lambda>q _ t. (Inr ANil, t @ [q])),
     TxQuery = (\<lambda>q ps t. (Inr \<lparr>rs_columns = Inr (map (\<lambda>p. case p of AStr k \<Rightarrow> k | _ \<Rightarrow> ''?'') ps),
        rs_scans = [Inr (map (\<lambda>_. AInt (int (length t))) ps)], rs_err = None\<rparr>, t)),
     TxCommit = (\<lambda>c t. (None, t)), TxRollback = (\<lambda>c t. (None, c))\<rparr>"

lemma sql_ok_log_db: "sql_ok log_db"
  by (simp add: sql_ok_def log_db_def)


lemma log_db_answers: "answers log_db ''q'' [AStr ''n'', AStr ''n''] [''a''] (dotDB_Value background)
   [''n'', ''n''] [[AInt 1, AInt 1]]"
  by code_simp

lemma QueryVal_value_witness:
  "fst (QueryVal log_db ''q'' [AStr ''n'', AStr ''n''] [''a''] (dotDB_Value background)) = Inr (Inr (AInt 1))"
  using QueryVal_value [OF log_db_answers]
  by (auto simp: card_insert_if split: sum.splits)

end
