(* ===== verification/Go_Path.thy ===== *)
theory Go_Path
  imports Go_Strings
begin

text \<open>
  Go's \<^verbatim>\<open>path\<close> package (\<^verbatim>\<open>path/filepath\<close> agrees with it on the systems whose separator is \<^verbatim>\<open>/\<close>):
  \<^verbatim>\<open>Clean\<close>, \<^verbatim>\<open>Join\<close>, \<^verbatim>\<open>Split\<close>, \<^verbatim>\<open>Base\<close>, \<^verbatim>\<open>Dir\<close> and \<^verbatim>\<open>Ext\<close>. \<^verbatim>\<open>Clean\<close> is the lexical processing its
  documentation gives: empty and \<^verbatim>\<open>.\<close> elements are dropped, \<^verbatim>\<open>..\<close> removes the element before it, is
  dropped at the start of a rooted path, and stays at the start of a relative one.
\<close>

abbreviation slash :: char where
  "slash \<equiv> CHR ''/''"

fun clean_step :: "bool \<Rightarrow> string list \<Rightarrow> string \<Rightarrow> string list" where
  "clean_step rooted stack e =
     (if e = '''' \<or> e = ''.'' then stack
      else if e = ''..'' then
        (case stack of
           [] \<Rightarrow> (if rooted then [] else [''..''])
         | x # xs \<Rightarrow> (if x = ''..'' then ''..'' # x # xs else xs))
      else e # stack)"

definition clean_elems :: "bool \<Rightarrow> string \<Rightarrow> string list" where
  "clean_elems rooted p = rev (foldl (clean_step rooted) [] (Split p slash))"

definition Clean :: "string \<Rightarrow> string" where
  "Clean p =
     (if p = '''' then ''.''
      else if hd p = slash then slash # Join (clean_elems True p) slash
      else let q = Join (clean_elems False p) slash in if q = '''' then ''.'' else q)"

definition path_Join :: "string list \<Rightarrow> string" where
  "path_Join es = (let es' = dropWhile (\<lambda>e. e = '''') es in
     if es' = [] then '''' else Clean (Join es' slash))"

definition after_last :: "char \<Rightarrow> string \<Rightarrow> string" where
  "after_last c s = rev (takeWhile (\<lambda>x. x \<noteq> c) (rev s))"

definition path_Split :: "string \<Rightarrow> string \<times> string" where
  "path_Split p = (let f = after_last slash p in (take (length p - length f) p, f))"

definition Base :: "string \<Rightarrow> string" where
  "Base p =
     (if p = '''' then ''.''
      else let q = after_last slash (rev (dropWhile (\<lambda>x. x = slash) (rev p)))
           in if q = '''' then ''/'' else q)"

definition Dir :: "string \<Rightarrow> string" where
  "Dir p = Clean (fst (path_Split p))"

definition Ext :: "string \<Rightarrow> string" where
  "Ext p = (let f = after_last slash p in
     if CHR ''.'' \<in> set f then CHR ''.'' # after_last (CHR ''.'') f else '''')"

section \<open>Clean\<close>

text \<open>The elements of a cleaned path: none is empty or \<^verbatim>\<open>.\<close> and none holds a slash; a rooted path
  has no \<^verbatim>\<open>..\<close> element, a relative one has them at the front only.\<close>

definition plain_elem :: "string \<Rightarrow> bool" where
  "plain_elem e \<longleftrightarrow> e \<noteq> '''' \<and> e \<noteq> ''.'' \<and> e \<noteq> ''..'' \<and> slash \<notin> set e"

fun clean_stack :: "bool \<Rightarrow> string list \<Rightarrow> bool" where
  "clean_stack rooted [] = True"
| "clean_stack rooted (e # es) =
     (if e = ''..'' then \<not> rooted \<and> set es \<subseteq> {''..''} else plain_elem e \<and> clean_stack rooted es)"

lemma clean_stack_dotdots: "set es \<subseteq> {''..''} \<Longrightarrow> clean_stack False es"
  by (induction es) auto

lemma clean_stack_step:
  assumes "clean_stack rooted st" and "slash \<notin> set e"
  shows "clean_stack rooted (clean_step rooted st e)"
proof (cases st)
  case (Cons x xs)
  show ?thesis
  proof (cases "x = ''..''")
    case True
    with Cons assms show ?thesis by (auto simp: plain_elem_def)
  next
    case False
    with Cons assms show ?thesis by (auto simp: plain_elem_def)
  qed
qed (use assms in \<open>auto simp: plain_elem_def\<close>)

lemma clean_stack_elems: "clean_stack rooted (rev (clean_elems rooted p))"
proof -
  have "clean_stack rooted (foldl (clean_step rooted) [] (Split p slash))"
    by (rule foldl_invariant) (use clean_stack_step Split_pieces in auto)
  then show ?thesis by (simp add: clean_elems_def)
qed

lemma clean_stack_rooted: "clean_stack True es \<longleftrightarrow> (\<forall>e \<in> set es. plain_elem e)"
  by (induction es) (auto simp: plain_elem_def)

lemma clean_stack_elem:
  "clean_stack rooted es \<Longrightarrow> e \<in> set es \<Longrightarrow> e \<noteq> '''' \<and> e \<noteq> ''.'' \<and> slash \<notin> set e"
proof (induction es)
  case (Cons x xs)
  then show ?case by (cases "x = ''..''") (auto simp: plain_elem_def)
qed simp

text \<open>Cleaning the elements of a cleaned path changes nothing.\<close>

lemma clean_step_refold:
  "clean_stack rooted st \<Longrightarrow> foldl (clean_step rooted) [] (rev st) = st"
proof (induction st)
  case (Cons x xs)
  show ?case
  proof (cases "x = ''..''")
    case True
    with Cons.prems have x: "\<not> rooted" "set xs \<subseteq> {''..''}" by auto
    then have "clean_stack rooted xs" using clean_stack_dotdots by simp
    then have "foldl (clean_step rooted) [] (rev xs) = xs" by (rule Cons.IH)
    then have "foldl (clean_step rooted) [] (rev (x # xs)) = clean_step rooted xs x"
      by (simp del: clean_step.simps)
    also have "\<dots> = x # xs" using x True by (cases xs) auto
    finally show ?thesis .
  next
    case False
    with Cons show ?thesis by (auto simp: plain_elem_def)
  qed
qed simp

lemma clean_step_Nil [simp]: "clean_step rooted st '''' = st"
  by simp

lemma Split_Join_elems:
  "clean_stack rooted (rev es) \<Longrightarrow> es \<noteq> [] \<Longrightarrow> Split (Join es slash) slash = es"
  using clean_stack_elem [of rooted "rev es"] by (intro Split_Join) auto

lemma clean_elems_Join:
  assumes "clean_stack rooted (rev es)"
  shows "clean_elems rooted (Join es slash) = es"
proof (cases "es = []")
  case False
  with assms show ?thesis
    using clean_step_refold [OF assms] by (simp add: clean_elems_def Split_Join_elems)
qed (simp add: clean_elems_def)

lemma clean_elems_slash: "clean_elems rooted (slash # p) = clean_elems rooted p"
  by (simp add: clean_elems_def)

lemma Clean_rooted: "Clean (slash # p) = slash # Join (clean_elems True p) slash"
  by (simp add: Clean_def clean_elems_slash)

lemma Join_eq_Nil: "Join es c = [] \<longleftrightarrow> es = [] \<or> es = [[]]"
  by (cases "(es, c)" rule: Join.cases) auto

lemma hd_Join: "es \<noteq> [] \<Longrightarrow> hd es \<noteq> [] \<Longrightarrow> hd (Join es c) = hd (hd es)"
  by (cases "(es, c)" rule: Join.cases) auto

lemma Clean_idem_rooted: "Clean (Clean (slash # p)) = Clean (slash # p)"
  using clean_elems_Join [OF clean_stack_elems [of True p, unfolded rev_rev_ident]]
  by (simp add: Clean_rooted clean_stack_elems clean_elems_Join)

lemma Clean_idem: "Clean (Clean p) = Clean p"
proof (cases "p = '''' \<or> hd p = slash")
  case True
  show ?thesis
  proof (cases p)
    case Nil
    then show ?thesis by (simp add: Clean_def clean_elems_def)
  next
    case (Cons c cs)
    with True show ?thesis using Clean_idem_rooted by simp
  qed
next
  case False
  let ?es = "clean_elems False p"
  have st: "clean_stack False (rev ?es)" by (rule clean_stack_elems)
  show ?thesis
  proof (cases "Join ?es slash = ''''")
    case True
    with False show ?thesis by (simp add: Clean_def clean_elems_def)
  next
    case nonempty: False
    then have ne: "?es \<noteq> []" by auto
    then have mem: "hd ?es \<in> set (rev ?es)" by simp
    have "hd ?es \<noteq> ''''" and "slash \<notin> set (hd ?es)"
      using clean_stack_elem [OF st mem] by auto
    then have "hd (Join ?es slash) \<noteq> slash"
      using hd_Join [OF ne, of slash] by (cases "hd ?es") auto
    with nonempty False st show ?thesis
      by (simp add: Clean_def Let_def clean_elems_Join)
  qed
qed

text \<open>A cleaned rooted path stays below the root: no element of it is \<^verbatim>\<open>..\<close>.\<close>

lemma Clean_rooted_elems: "\<forall>e \<in> set (clean_elems True p). plain_elem e"
  using clean_stack_elems [of True p] by (simp add: clean_stack_rooted)

lemma Clean_rooted_Cons: "\<exists>q. Clean (slash # p) = slash # q"
  by (simp add: Clean_rooted)

section \<open>Ext and Split\<close>

lemma after_last_decomp: "\<exists>a. s = a @ after_last c s \<and> (a = [] \<or> last a = c)"
proof -
  have "rev s = takeWhile (\<lambda>x. x \<noteq> c) (rev s) @ dropWhile (\<lambda>x. x \<noteq> c) (rev s)" by simp
  then have s: "s = rev (dropWhile (\<lambda>x. x \<noteq> c) (rev s)) @ after_last c s"
    unfolding after_last_def by (metis rev_append rev_rev_ident)
  show ?thesis
  proof (intro exI conjI)
    show "s = rev (dropWhile (\<lambda>x. x \<noteq> c) (rev s)) @ after_last c s" by (rule s)
    show "rev (dropWhile (\<lambda>x. x \<noteq> c) (rev s)) = [] \<or> last (rev (dropWhile (\<lambda>x. x \<noteq> c) (rev s))) = c"
      using hd_dropWhile [of "\<lambda>x. x \<noteq> c" "rev s"] by (auto simp: last_rev)
  qed
qed

lemma after_last_notin: "c \<notin> set (after_last c s)"
  by (simp add: after_last_def not_set_takeWhile)

lemma after_last_append: "c \<notin> set b \<Longrightarrow> after_last c (a @ c # b) = b"
  unfolding after_last_def by (simp, subst takeWhile_append2) auto

lemma after_last_append_suffix: "c \<notin> set b \<Longrightarrow> after_last c (a @ b) = after_last c a @ b"
  unfolding after_last_def by (simp, subst takeWhile_append2) auto

lemma Ext_suffix: "suffix (Ext p) p"
proof -
  let ?f = "after_last slash p"
  have f: "suffix ?f p" using after_last_decomp [of p slash] by (auto simp: suffix_def)
  show ?thesis
  proof (cases "CHR ''.'' \<in> set ?f")
    case True
    obtain a where a: "?f = a @ after_last (CHR ''.'') ?f" "a = [] \<or> last a = CHR ''.''"
      using after_last_decomp by blast
    with True have "a \<noteq> []" using after_last_notin [of "CHR ''.''" ?f] by (metis append_Nil)
    with a have "?f = butlast a @ (CHR ''.'' # after_last (CHR ''.'') ?f)"
      by (metis append_butlast_last_id append_Cons append_Nil append_assoc)
    then have "suffix (CHR ''.'' # after_last (CHR ''.'') ?f) ?f" unfolding suffix_def by blast
    with f True show ?thesis by (simp add: Ext_def suffix_order.order_trans)
  qed (simp add: Ext_def)
qed

lemma Ext_append:
  "slash \<notin> set x \<Longrightarrow> CHR ''.'' \<notin> set x \<Longrightarrow> Ext (p @ CHR ''.'' # x) = CHR ''.'' # x"
proof -
  assume h: "slash \<notin> set x" "CHR ''.'' \<notin> set x"
  have "after_last slash (p @ CHR ''.'' # x) = after_last slash p @ CHR ''.'' # x"
    using h by (intro after_last_append_suffix) auto
  with h show ?thesis by (simp add: Ext_def after_last_append)
qed

end
