(* ===== verification/Dot_FS.thy ===== *)
theory Dot_FS
  imports Dot Go_Path
begin

text \<open>
  The file system provider (\<^verbatim>\<open>dot_fs.go\<close>, \<^verbatim>\<open>dot_fs_config.go\<close>). The \<^verbatim>\<open>fs.FS\<close> is an argument of the operations: what
  opening a path gives, and whether closing a handle reports an error. Open handles are numbers in the
  state \<open>handles\<close>; \<^verbatim>\<open>dotFS.opened\<close> is the list of the handles the provider closes at the end of the request. A
  \<^verbatim>\<open>Dir\<close> is its \<^verbatim>\<open>path\<close>; all the \<^verbatim>\<open>Dir\<close>s of a request share one \<^verbatim>\<open>dotFS\<close>.
\<close>

datatype fsnode = RegFile string | Directory "string list"

record fsys =
  fs_node :: "string \<Rightarrow> gerror + fsnode"
  fs_closeErr :: "nat \<Rightarrow> gerror option"

record handles =
  h_next :: nat
  h_open :: "nat list"

record dotFS =
  df_opened :: "nat list"

section \<open>The file system\<close>

definition fs_Open :: "fsys \<Rightarrow> string \<Rightarrow> handles \<Rightarrow> (gerror + nat \<times> fsnode) \<times> handles" where
  "fs_Open fs name h =
     (case fs_node fs name of
        Inl e \<Rightarrow> (Inl e, h)
      | Inr n \<Rightarrow> (Inr (h_next h, n), h\<lparr>h_next := Suc (h_next h), h_open := h_next h # h_open h\<rparr>))"

definition file_Close :: "fsys \<Rightarrow> nat \<Rightarrow> handles \<Rightarrow> gerror option \<times> handles" where
  "file_Close fs f h =
     (if f \<in> set (h_open h) then (fs_closeErr fs f, h\<lparr>h_open := remove1 f (h_open h)\<rparr>)
      else (Some (PathError ''close'' '''' (ErrMsg ''file already closed'')), h))"

definition file_path :: "string \<Rightarrow> string \<Rightarrow> string" where
  "file_path dir name = path_Join [dir, Clean name]"

section \<open>What templates can call\<close>

definition Dir_Stat :: "fsys \<Rightarrow> string \<Rightarrow> string \<Rightarrow> handles \<Rightarrow> (gerror + fsnode) \<times> handles" where
  "Dir_Stat fs dir name h =
     (case fs_Open fs (file_path dir name) h of
        (Inl e, h1) \<Rightarrow> (Inl e, h1)
      | (Inr (f, n), h1) \<Rightarrow> (Inr n, snd (file_Close fs f h1)))"

definition Dir_Dir :: "fsys \<Rightarrow> string \<Rightarrow> string \<Rightarrow> handles \<Rightarrow> (gerror + string) \<times> handles" where
  "Dir_Dir fs dir name h =
     (let name' = Clean name in
      case Dir_Stat fs dir name' h of
        (Inl e, h1) \<Rightarrow> (Inl e, h1)
      | (Inr (RegFile _), h1) \<Rightarrow> (Inl (ErrMsg (''not a directory: '' @ name')), h1)
      | (Inr (Directory _), h1) \<Rightarrow> (Inr (path_Join [dir, name']), h1))"

definition Dir_List :: "fsys \<Rightarrow> string \<Rightarrow> string \<Rightarrow> handles \<Rightarrow> (gerror + string list) \<times> handles" where
  "Dir_List fs dir name h =
     (let p = file_path dir name in
      case fs_Open fs p h of
        (Inl e, h1) \<Rightarrow> (Inl e, h1)
      | (Inr (f, RegFile _), h1) \<Rightarrow>
          (Inl (PathError ''readdir'' p (ErrMsg ''not implemented'')), snd (file_Close fs f h1))
      | (Inr (f, Directory es), h1) \<Rightarrow> (Inr es, snd (file_Close fs f h1)))"

definition Dir_Read :: "fsys \<Rightarrow> string \<Rightarrow> string \<Rightarrow> handles \<Rightarrow> (gerror + string) \<times> handles" where
  "Dir_Read fs dir name h =
     (let p = file_path dir name in
      case fs_Open fs p h of
        (Inl e, h1) \<Rightarrow> (Inl e, h1)
      | (Inr (f, Directory _), h1) \<Rightarrow>
          (Inl (PathError ''read'' p (ErrMsg ''is a directory'')), snd (file_Close fs f h1))
      | (Inr (f, RegFile contents), h1) \<Rightarrow> (Inr contents, snd (file_Close fs f h1)))"

definition Dir_Open ::
  "fsys \<Rightarrow> string \<Rightarrow> string \<Rightarrow> dotFS \<Rightarrow> handles \<Rightarrow> (gerror + nat \<times> fsnode) \<times> dotFS \<times> handles" where
  "Dir_Open fs dir name d h =
     (let p = file_path dir name in
      case fs_Open fs p h of
        (Inl e, h1) \<Rightarrow> (Inl (Wrapf (''failed to open file at path '' @ single_quoted p) e), d, h1)
      | (Inr (f, _), h1) \<Rightarrow>
          (case fs_Open fs p h1 of (r, h2) \<Rightarrow> (r, d\<lparr>df_opened := f # df_opened d\<rparr>, h2)))"

definition Dir_Exists ::
  "fsys \<Rightarrow> string \<Rightarrow> string \<Rightarrow> dotFS \<Rightarrow> handles \<Rightarrow> bool \<times> dotFS \<times> handles" where
  "Dir_Exists fs dir name d h =
     (let name' = path_Join [dir, Clean name] in
      case Dir_Open fs dir name' d h of
        (Inl e, d1, h1) \<Rightarrow> (False, d1, h1)
      | (Inr (f, _), d1, h1) \<Rightarrow> (True, d1, snd (file_Close fs f h1)))"

section \<open>The provider\<close>

definition dotFS_Value :: "string \<times> dotFS" where
  "dotFS_Value = (''.'', \<lparr>df_opened = []\<rparr>)"

text \<open>\<^verbatim>\<open>Cleanup\<close> closes what is recorded as opened. A close error is ignored when it says that the file was
  closed before and logged otherwise; the error of the template is passed on.\<close>

definition already_closed :: "gerror \<Rightarrow> bool" where
  "already_closed e \<longleftrightarrow> (case errors_As kind_path e of
     Some (oper, _, err) \<Rightarrow> oper = ''close'' \<and> err = ErrMsg ''file already closed''
   | None \<Rightarrow> False)"

fun close_all :: "fsys \<Rightarrow> nat list \<Rightarrow> handles \<Rightarrow> gerror list \<times> handles" where
  "close_all fs [] h = ([], h)"
| "close_all fs (f # fs') h =
     (case file_Close fs f h of
        (err, h1) \<Rightarrow>
          (case close_all fs fs' h1 of
             (errs, h2) \<Rightarrow>
               ((case err of None \<Rightarrow> errs | Some e \<Rightarrow> (if already_closed e then errs else e # errs)), h2)))"

definition dotFS_Cleanup :: "fsys \<Rightarrow> dotFS \<Rightarrow> gerror option \<Rightarrow> handles \<Rightarrow> gerror option \<times> handles" where
  "dotFS_Cleanup fs d err h = (err, snd (close_all fs (df_opened d) h))"

section \<open>Paths stay below the root\<close>

text \<open>
  \<^verbatim>\<open>fs.ValidPath\<close>, apart from its demand for UTF-8: a file system rejects any other name, by the
  documentation of \<^verbatim>\<open>fs.FS\<close>.
\<close>

definition ValidPath :: "string \<Rightarrow> bool" where
  "ValidPath p \<longleftrightarrow> p = ''.'' \<or> (\<forall>e \<in> set (Split p slash). e \<noteq> '''' \<and> e \<noteq> ''.'' \<and> e \<noteq> ''..'')"

definition fs_valid :: "fsys \<Rightarrow> bool" where
  "fs_valid fs \<longleftrightarrow> (\<forall>p n. fs_node fs p = Inr n \<longrightarrow> ValidPath p)"

definition relative :: "string \<Rightarrow> bool" where
  "relative p \<longleftrightarrow> p \<noteq> '''' \<and> hd p \<noteq> slash"

lemma clean_stack_dotdot: "clean_stack False st \<Longrightarrow> ''..'' \<in> set st \<Longrightarrow> last st = ''..''"
proof (induction st)
  case (Cons x xs)
  show ?case
  proof (cases "x = ''..''")
    case True
    with Cons.prems have "set xs \<subseteq> {''..''}" by simp
    with True show ?thesis by (cases xs rule: rev_cases) auto
  next
    case False
    with Cons show ?thesis by (auto split: if_splits)
  qed
qed simp

lemma Clean_relative:
  assumes "relative p"
  shows "relative (Clean p) \<and> (ValidPath (Clean p) \<or> hd (Split (Clean p) slash) = ''..'')"
proof -
  let ?es = "clean_elems False p"
  have st: "clean_stack False (rev ?es)" by (rule clean_stack_elems)
  show ?thesis
  proof (cases "Join ?es slash = ''''")
    case True
    with assms show ?thesis by (simp add: Clean_def relative_def ValidPath_def)
  next
    case False
    then have ne: "?es \<noteq> []" by auto
    have c: "Clean p = Join ?es slash" using assms False by (simp add: Clean_def relative_def Let_def)
    have elem: "e \<noteq> '''' \<and> e \<noteq> ''.'' \<and> slash \<notin> set e" if "e \<in> set ?es" for e
      using clean_stack_elem [OF st] that by simp
    have sp: "Split (Clean p) slash = ?es" unfolding c by (rule Split_Join_elems [OF st ne])
    have h: "hd ?es \<noteq> ''''" "slash \<notin> set (hd ?es)" using elem [of "hd ?es"] ne by auto
    then have "hd (Join ?es slash) \<noteq> slash" using hd_Join [OF ne h(1), of slash] by (metis list.set_sel(1))
    moreover have "ValidPath (Clean p) \<or> hd ?es = ''..''"
    proof (cases "''..'' \<in> set ?es")
      case True
      then have "last (rev ?es) = ''..''" by (intro clean_stack_dotdot [OF st]) simp
      then show ?thesis using ne by (simp add: last_rev)
    next
      case nodots: False
      have "\<forall>e \<in> set ?es. e \<noteq> '''' \<and> e \<noteq> ''.'' \<and> e \<noteq> ''..''" using elem nodots by blast
      then show ?thesis by (simp add: ValidPath_def sp)
    qed
    ultimately show ?thesis using False c sp by (simp add: relative_def)
  qed
qed

lemma path_Join_relative:
  assumes "relative dir"
  shows "path_Join [dir, x] = Clean (dir @ slash # x)" and "relative (dir @ slash # x)"
  using assms by (simp_all add: path_Join_def relative_def)

lemma file_path_relative:
  "relative dir \<Longrightarrow> relative (file_path dir name)
     \<and> (ValidPath (file_path dir name) \<or> hd (Split (file_path dir name) slash) = ''..'')"
  using Clean_relative [OF path_Join_relative(2) [of dir "Clean name"]] path_Join_relative(1) [of dir "Clean name"]
  by (simp add: file_path_def)

section \<open>Handles\<close>

definition handles_wf :: "handles \<Rightarrow> bool" where
  "handles_wf h \<longleftrightarrow> distinct (h_open h) \<and> (\<forall>f \<in> set (h_open h). f < h_next h)"

lemma fs_Open_fresh:
  assumes "handles_wf h" and "fs_Open fs p h = (Inr (f, n), h1)"
  shows "handles_wf h1" and "f \<notin> set (h_open h)" and "h_open h1 = f # h_open h"
    and "f = h_next h" and "fs_node fs p = Inr n" and "h_next h1 = Suc (h_next h)"
  using assms by (auto simp: fs_Open_def handles_wf_def less_Suc_eq split: sum.splits)

lemma fs_Open_error: "fs_Open fs p h = (Inl e, h1) \<Longrightarrow> h1 = h \<and> fs_node fs p = Inl e"
  by (auto simp: fs_Open_def split: sum.splits)

lemma file_Close_wf: "handles_wf h \<Longrightarrow> handles_wf (snd (file_Close fs f h))"
  by (auto simp: file_Close_def handles_wf_def dest: notin_set_remove1 set_remove1_subset [THEN subsetD])

lemma file_Close_set:
  "handles_wf h \<Longrightarrow> set (h_open (snd (file_Close fs f h))) = set (h_open h) - {f}"
  by (auto simp: file_Close_def handles_wf_def)

lemma open_close:
  "handles_wf h \<Longrightarrow> fs_Open fs p h = (Inr (f, n), h1) \<Longrightarrow> h_open (snd (file_Close fs f h1)) = h_open h"
  using fs_Open_fresh [of h fs p f n h1] by (simp add: file_Close_def)

lemma close_all_set:
  "handles_wf h \<Longrightarrow> handles_wf (snd (close_all fs xs h))
     \<and> set (h_open (snd (close_all fs xs h))) = set (h_open h) - set xs"
proof (induction xs arbitrary: h)
  case (Cons f xs)
  obtain err h1 where c: "file_Close fs f h = (err, h1)" by force
  obtain errs h2 where a: "close_all fs xs h1 = (errs, h2)" by force
  have "handles_wf h1" using file_Close_wf [OF Cons.prems, of fs f] by (simp add: c)
  from Cons.IH [OF this] file_Close_set [OF Cons.prems, of fs f] show ?case
    by (simp add: c a) blast
qed simp
section \<open>What the provider guarantees\<close>

text \<open>The directories a template can get hold of: the root and what \<^verbatim>\<open>Dir\<close> returns.\<close>

inductive reachable_dir :: "fsys \<Rightarrow> string \<Rightarrow> bool" for fs where
  root: "reachable_dir fs ''.''"
| sub: "reachable_dir fs dir \<Longrightarrow> Dir_Dir fs dir name h = (Inr dir', h') \<Longrightarrow> reachable_dir fs dir'"

lemma Dir_Dir_path: "Dir_Dir fs dir name h = (Inr dir', h') \<Longrightarrow> dir' = path_Join [dir, Clean name]"
  by (auto simp: Dir_Dir_def Let_def split: prod.splits sum.splits fsnode.splits)

lemma reachable_dir_relative: "reachable_dir fs dir \<Longrightarrow> relative dir"
proof (induction rule: reachable_dir.induct)
  case root
  show ?case by (simp add: relative_def)
next
  case (sub dir name h dir' h')
  then show ?case using file_path_relative [of dir name] Dir_Dir_path by (simp add: file_path_def)
qed



text \<open>At the end of a request every file recorded as opened is closed, no other file is, and the error
  of the template is passed on unchanged.\<close>

theorem dotFS_Cleanup_closes:
  assumes "handles_wf h"
  shows "fst (dotFS_Cleanup fs d err h) = err
     \<and> set (h_open (snd (dotFS_Cleanup fs d err h))) = set (h_open h) - set (df_opened d)"
  using close_all_set [OF assms, of fs "df_opened d"] by (simp add: dotFS_Cleanup_def)

text \<open>The file that \<^verbatim>\<open>Open\<close> returns is not among those closed at the end of the request: \<^verbatim>\<open>Open\<close> opens the path
  twice, records the first file and returns the second. Unless the template closes it, it stays open.\<close>

lemma Dir_Open_leaks:
  assumes "handles_wf h" and "\<forall>g \<in> set (df_opened d). g < h_next h"
    and "Dir_Open fs dir name d h = (Inr (f, n), d1, h1)"
  shows "f \<notin> set (df_opened d1) \<and> f \<in> set (h_open (snd (dotFS_Cleanup fs d1 err h1)))"
proof -
  let ?p = "file_path dir name"
  from assms(3) obtain g m h2 where o1: "fs_Open fs ?p h = (Inr (g, m), h2)"
    by (auto simp: Dir_Open_def Let_def split: prod.splits sum.splits)
  with assms(3) have o2: "fs_Open fs ?p h2 = (Inr (f, n), h1)" and d1: "df_opened d1 = g # df_opened d"
    by (auto simp: Dir_Open_def Let_def split: prod.splits)
  note first = fs_Open_fresh [OF assms(1) o1]
  note second = fs_Open_fresh [OF first(1) o2]
  have "f \<notin> set (df_opened d1)" using d1 first second assms(2) by auto
  moreover have "f \<in> set (h_open h1)" using second by simp
  ultimately show ?thesis
    using close_all_set [OF second(1), of fs "df_opened d1"] by (simp add: dotFS_Cleanup_def)
qed

lemma Clean_dot: "relative q \<Longrightarrow> Clean (''./'' @ q) = Clean q"
  by (cases q) (auto simp: Clean_def relative_def clean_elems_def)

lemma Dir_Exists_iff:
  "fst (Dir_Exists fs dir name d h) \<longleftrightarrow> (\<exists>n. fs_node fs (file_path dir (file_path dir name)) = Inr n)"
  by (auto simp: Dir_Exists_def Dir_Open_def fs_Open_def file_path_def Let_def split: prod.splits sum.splits)

text \<open>In the root directory \<^verbatim>\<open>Exists\<close> tells whether the path that the other operations use can be opened.\<close>

lemma Dir_Exists_root:
  "fst (Dir_Exists fs ''.'' name d h) \<longleftrightarrow> (\<exists>n. fs_node fs (file_path ''.'' name) = Inr n)"
proof -
  have rel: "relative ''.''" by (simp add: relative_def)
  let ?q = "file_path ''.'' name"
  have q: "?q = Clean (''./'' @ Clean name)"
    using path_Join_relative(1) [OF rel, of "Clean name"] by (simp add: file_path_def)
  have "relative ?q" using file_path_relative [OF rel] by simp
  then have "file_path ''.'' ?q = Clean ?q"
    using path_Join_relative(1) [OF rel, of "Clean ?q"] Clean_dot [of "Clean ?q"] Clean_relative [of ?q]
    by (simp add: file_path_def Clean_idem)
  then have "file_path ''.'' ?q = ?q" by (simp add: q Clean_idem)
  then show ?thesis by (simp add: Dir_Exists_iff)
qed

section \<open>Examples\<close>

text \<open>A file system with a directory \<^verbatim>\<open>a\<close> and a file \<^verbatim>\<open>a/b\<close>.\<close>

definition small_fs :: fsys where
  "small_fs = \<lparr>fs_node = (\<lambda>p.
       if p = ''.'' then Inr (Directory [''a'']) else if p = ''a'' then Inr (Directory [''b''])
       else if p = ''a/b'' then Inr (RegFile ''hello'')
       else Inl (PathError ''open'' p (ErrMsg ''file does not exist''))),
     fs_closeErr = (\<lambda>_. None)\<rparr>"

definition no_handles :: handles where
  "no_handles = \<lparr>h_next = 0, h_open = []\<rparr>"

lemma handles_wf_none: "handles_wf no_handles"
  by (simp add: handles_wf_def no_handles_def)

text \<open>In any other directory \<^verbatim>\<open>Exists\<close> looks in the wrong place, because it adds the directory's path
  twice: \<^verbatim>\<open>a/b\<close> can be read through the \<^verbatim>\<open>Dir\<close> of \<^verbatim>\<open>a\<close>, which says that \<^verbatim>\<open>b\<close> does not exist.\<close>

lemma Dir_Exists_subdirectory:
  "Dir_Dir small_fs ''.'' ''a'' no_handles = (Inr ''a'', no_handles\<lparr>h_next := 1\<rparr>)
   \<and> fst (Dir_Read small_fs ''a'' ''b'' no_handles) = Inr ''hello''
   \<and> \<not> fst (Dir_Exists small_fs ''a'' ''b'' \<lparr>df_opened = []\<rparr> no_handles)"
  by code_simp



lemma dotFS_Cleanup_closes_witness:
  "set (h_open (snd (dotFS_Cleanup small_fs \<lparr>df_opened = [0]\<rparr> None \<lparr>h_next = 2, h_open = [1, 0]\<rparr>))) = {1}"
proof -
  have "handles_wf \<lparr>h_next = 2, h_open = [1, 0]\<rparr>" by (simp add: handles_wf_def)
  from dotFS_Cleanup_closes [OF this, of small_fs "\<lparr>df_opened = [0]\<rparr>" None] show ?thesis by auto
qed

lemma Dir_Open_leaks_witness:
  "1 \<in> set (h_open (snd (dotFS_Cleanup small_fs \<lparr>df_opened = [0]\<rparr> None \<lparr>h_next = 2, h_open = [1, 0]\<rparr>)))"
proof -
  have o: "Dir_Open small_fs ''.'' ''a/b'' \<lparr>df_opened = []\<rparr> no_handles
    = (Inr (1, RegFile ''hello''), \<lparr>df_opened = [0]\<rparr>, \<lparr>h_next = 2, h_open = [1, 0]\<rparr>)"
    by code_simp
  from Dir_Open_leaks [OF handles_wf_none _ o, of None] show ?thesis by simp
qed

end
