(* ===== verification/Dot_Resp.thy ===== *)
theory Dot_Resp
  imports Dot Go_Path
begin

text \<open>
  The provider of \<^verbatim>\<open>.Resp\<close> (\<^verbatim>\<open>dot_resp.go\<close>), present in buffered template invocations: the template collects
  headers and a status in a \<^verbatim>\<open>DotResp\<close>, and \<^verbatim>\<open>Cleanup\<close> copies them to the response writer when the template
  succeeded. \<^verbatim>\<open>DotResp.w\<close> and \<^verbatim>\<open>DotResp.r\<close> are the response writer and the request of the same invocation, so
  the operations take them as arguments.
\<close>

record DotResp =
  dr_header :: header
  dr_status :: int

definition dotResp_Value :: DotResp where
  "dotResp_Value = \<lparr>dr_header = (\<lambda>_. None), dr_status = 200\<rparr>"

definition dotResp_Cleanup :: "DotResp \<Rightarrow> gerror option \<Rightarrow> respWriter \<Rightarrow> (gerror option \<times> respWriter) panics" where
  "dotResp_Cleanup d err w =
     (case Option.bind err (errors_As kind_status) of
        Some code \<Rightarrow> map_sum id (Pair err) (WriteHeader code w)
      | None \<Rightarrow>
          (if err = None then
             map_sum id (Pair err)
               (WriteHeader (dr_status d) (w\<lparr>rw_header := maps_Copy (rw_header w) (dr_header d)\<rparr>))
           else Inr (err, w)))"

section \<open>What templates can call\<close>

text \<open>Each returns its result, an error, and the updated \<^verbatim>\<open>DotResp\<close>.\<close>

definition AddHeader :: "string \<Rightarrow> string \<Rightarrow> DotResp \<Rightarrow> string \<times> DotResp" where
  "AddHeader field val d = ('''', d\<lparr>dr_header := Header_Add (dr_header d) field val\<rparr>)"

definition SetHeader :: "string \<Rightarrow> string \<Rightarrow> DotResp \<Rightarrow> string \<times> DotResp" where
  "SetHeader field val d = ('''', d\<lparr>dr_header := Header_Set (dr_header d) field val\<rparr>)"

definition DelHeader :: "string \<Rightarrow> DotResp \<Rightarrow> string \<times> DotResp" where
  "DelHeader field d = ('''', d\<lparr>dr_header := Header_Del (dr_header d) field\<rparr>)"

definition SetStatus :: "int \<Rightarrow> DotResp \<Rightarrow> string \<times> DotResp" where
  "SetStatus status d = ('''', d\<lparr>dr_status := status\<rparr>)"

definition ReturnStatus :: "int \<Rightarrow> DotResp \<Rightarrow> (string \<times> gerror option) \<times> DotResp" where
  "ReturnStatus status d = (('''', Some ReturnError), d\<lparr>dr_status := status\<rparr>)"

text \<open>
  The argument of \<^verbatim>\<open>ServeContent\<close> is an \<^verbatim>\<open>any\<close>: a string, a reader (with its contents), or something else,
  for which the reader stays nil and \<^verbatim>\<open>http.ServeContent\<close> panics on it. \<open>serve\<close> is \<^verbatim>\<open>http.ServeContent\<close>.
\<close>

datatype content = CString string | CReader string | CNeither

definition ServeContent ::
  "(request \<Rightarrow> string \<Rightarrow> int \<Rightarrow> string \<Rightarrow> respWriter \<Rightarrow> respWriter panics) \<Rightarrow> request
   \<Rightarrow> string \<Rightarrow> int \<Rightarrow> content \<Rightarrow> DotResp \<Rightarrow> respWriter \<Rightarrow> ((string \<times> gerror option) \<times> respWriter) panics" where
  "ServeContent serve r path modtime c d w =
     (let w1 = w\<lparr>rw_header := maps_Copy (rw_header w) (dr_header d)\<rparr>; p = Clean path in
      case c of
        CString s \<Rightarrow> map_sum id (Pair ('''', Some ReturnError)) (serve r p modtime s w1)
      | CReader s \<Rightarrow> map_sum id (Pair ('''', Some ReturnError)) (serve r p modtime s w1)
      | CNeither \<Rightarrow> Inl ''invalid memory address or nil pointer dereference'')"

section \<open>Cleanup\<close>

interpretation resp_keeps: error_keeper dotResp_Cleanup
  by unfold_locales (auto simp: dotResp_Cleanup_def split: option.splits)

text \<open>On success the response has the status and the headers the template asked for, and nothing of the
  body has been written.\<close>

lemma dotResp_Cleanup_success:
  assumes "untouched w" and "200 \<le> dr_status d" and "dr_status d \<le> 999"
  shows "\<exists>w'. dotResp_Cleanup d None w = Inr (None, w')
     \<and> rw_sent w' = Some (dr_status d, maps_Copy (rw_header w) (dr_header d))
     \<and> rw_body w' = '''' \<and> rw_written w' = 0
     \<and> rw_limit w' = declared_length (maps_Copy (rw_header w) (dr_header d))"
  using assms by (simp add: dotResp_Cleanup_def WriteHeader_final untouched_def)

text \<open>An error that carries no \<^verbatim>\<open>ErrorStatus\<close> leaves the response untouched.\<close>

lemma dotResp_Cleanup_failure:
  "errors_As kind_status e = None \<Longrightarrow> dotResp_Cleanup d (Some e) w = Inr (Some e, w)"
  by (simp add: dotResp_Cleanup_def)

end
