(* ===== verification/Dot_Flush.thy ===== *)
theory Dot_Flush
  imports Dot
begin

text \<open>
  The provider of \<^verbatim>\<open>.Flush\<close> (\<^verbatim>\<open>dot_flush.go\<close>), present in flushing template invocations: server-sent events,
  the number generator \<^verbatim>\<open>Repeat\<close>, and the operations that wait. The response writer and the two contexts of
  a \<^verbatim>\<open>DotFlush\<close> are arguments of its operations.
\<close>

definition dotFlush_Value :: "Request \<Rightarrow> (ctx \<times> ctx) option \<times> gerror option" where
  "dotFlush_Value q =
     (if q_flusher q then (Some (q_sctx q, r_ctx (q_r q)), None)
      else (Some (background, background), Some (ErrMsg ''response writer could not cast to http.Flusher'')))"

definition dotFlush_Cleanup :: "gerror option \<Rightarrow> respWriter \<Rightarrow> gerror option \<times> respWriter" where
  "dotFlush_Cleanup err w = (if err = None then (err, Flush w) else (err, w))"

section \<open>Server-sent events\<close>

definition arg_or_empty :: "string list \<Rightarrow> nat \<Rightarrow> string" where
  "arg_or_empty args i = (if i < length args then args ! i else '''')"

definition first_line :: "string \<Rightarrow> string" where
  "first_line s = hd (SplitN2 s newline)"

definition write_field :: "string \<Rightarrow> string \<Rightarrow> respWriter \<Rightarrow> respWriter" where
  "write_field field v w = Write (field @ '': '' @ v @ [newline]) w"

definition SendSSE :: "string list \<Rightarrow> respWriter \<Rightarrow> gerror option \<times> respWriter" where
  "SendSSE args w =
     (if length args < 1 \<or> 4 < length args then
        (Some (ErrMsg (''wrong number of args provided. got '' @ Itoa (int (length args)) @ '', need 1-4'')), w)
      else
        let event = arg_or_empty args 0; data = arg_or_empty args 1;
            id = arg_or_empty args 2; retry = arg_or_empty args 3;
            w = (if event \<noteq> '''' then write_field ''event'' (first_line event) w else w);
            w = (if data \<noteq> '''' then foldl (\<lambda>w line. write_field ''data'' line w) w (Split data newline) else w);
            w = (if id \<noteq> '''' then write_field ''id'' (first_line id) w else w);
            w = (if retry \<noteq> '''' then write_field ''retry'' (first_line retry) w else w);
            written = (event \<noteq> '''' \<or> data \<noteq> '''' \<or> id \<noteq> '''' \<or> retry \<noteq> '''')
        in (None, if written then Flush (Write [newline, newline] w) else w))"

definition DotFlush_Flush :: "respWriter \<Rightarrow> string \<times> respWriter" where
  "DotFlush_Flush w = ('''', Flush w)"

section \<open>Repeat\<close>

text \<open>
  The goroutine of \<^verbatim>\<open>Repeat\<close>: at the \<^verbatim>\<open>select\<close> it either sends the counter or sees one of the contexts done;
  after a send it leaves the loop at the maximum and counts on otherwise. The channel is closed at the end.
\<close>

datatype repeat_pc = AtSelect | AtCheck | Closed

record repeat_state =
  rp_pc :: repeat_pc
  rp_i :: int
  rp_sent :: "int list"

definition repeat_init :: repeat_state where
  "repeat_init = \<lparr>rp_pc = AtSelect, rp_i = 0, rp_sent = []\<rparr>"

definition repeat_max :: "int list \<Rightarrow> int" where
  "repeat_max args = (case args of [] \<Rightarrow> 2 ^ 63 - 1 | m # _ \<Rightarrow> m)"

inductive repeat_step :: "int \<Rightarrow> repeat_state \<Rightarrow> repeat_state \<Rightarrow> bool" for max where
  cancelled: "rp_pc s = AtSelect \<Longrightarrow> repeat_step max s (s\<lparr>rp_pc := Closed\<rparr>)"
| send: "rp_pc s = AtSelect \<Longrightarrow> repeat_step max s (s\<lparr>rp_pc := AtCheck, rp_sent := rp_sent s @ [rp_i s]\<rparr>)"
| finish: "rp_pc s = AtCheck \<Longrightarrow> max \<le> rp_i s \<Longrightarrow> repeat_step max s (s\<lparr>rp_pc := Closed\<rparr>)"
| count: "rp_pc s = AtCheck \<Longrightarrow> \<not> max \<le> rp_i s \<Longrightarrow> repeat_step max s (s\<lparr>rp_pc := AtSelect, rp_i := rp_i s + 1\<rparr>)"

inductive repeat_reachable :: "int \<Rightarrow> repeat_state \<Rightarrow> bool" for max where
  start: "repeat_reachable max repeat_init"
| step: "repeat_reachable max s \<Longrightarrow> repeat_step max s t \<Longrightarrow> repeat_reachable max t"

inductive_cases repeat_stepE: "repeat_step m s t"

section \<open>Waiting\<close>

text \<open>
  What a \<^verbatim>\<open>select\<close> may return, given which of its channels are ready: the timer (\<^verbatim>\<open>Sleep\<close> only), the request's
  context, the server's context. The duration is an \<^verbatim>\<open>int64\<close> of nanoseconds and the product wraps.
\<close>

definition wrap64 :: "int \<Rightarrow> int" where
  "wrap64 n = (n + 2 ^ 63) mod 2 ^ 64 - 2 ^ 63"

definition sleep_duration :: "int \<Rightarrow> int" where
  "sleep_duration ms = wrap64 (ms * 1000000)"

inductive Sleep_returns :: "int \<Rightarrow> int \<Rightarrow> ctx \<Rightarrow> ctx \<Rightarrow> gerror option \<Rightarrow> bool" for ms elapsed requestCtx serverCtx where
  timer: "sleep_duration ms \<le> elapsed \<Longrightarrow> Sleep_returns ms elapsed requestCtx serverCtx None"
| sleep_request: "ctx_done requestCtx \<Longrightarrow> Sleep_returns ms elapsed requestCtx serverCtx (Some ReturnError)"
| sleep_server: "ctx_done serverCtx \<Longrightarrow> Sleep_returns ms elapsed requestCtx serverCtx (Some ReturnError)"

inductive WaitForServerStop_returns :: "ctx \<Rightarrow> ctx \<Rightarrow> gerror option \<Rightarrow> bool" for requestCtx serverCtx where
  wait_request: "ctx_done requestCtx \<Longrightarrow> WaitForServerStop_returns requestCtx serverCtx (Some ReturnError)"
| wait_server: "ctx_done serverCtx \<Longrightarrow> WaitForServerStop_returns requestCtx serverCtx None"

section \<open>A client's parser for server-sent events\<close>

text \<open>
  The interpretation of an event stream in the WHATWG HTML standard (section 9.2.6): lines end in LF, CR or
  CR LF; a field is the part of a line before its first colon, and one space after the colon is dropped; an
  empty line dispatches the event, unless it has no data.
\<close>

record sse_event =
  ev_type :: string
  ev_data :: string
  ev_id :: string

record sse_client =
  sc_type :: string
  sc_data :: string
  sc_id :: string
  sc_retry :: string
  sc_events :: "sse_event list"

definition sse_start :: sse_client where
  "sse_start = \<lparr>sc_type = '''', sc_data = '''', sc_id = '''', sc_retry = '''', sc_events = []\<rparr>"

definition sse_field :: "sse_client \<Rightarrow> string \<Rightarrow> string \<Rightarrow> sse_client" where
  "sse_field st field v =
     (if field = ''event'' then st\<lparr>sc_type := v\<rparr>
      else if field = ''data'' then st\<lparr>sc_data := sc_data st @ v @ [newline]\<rparr>
      else if field = ''id'' then (if CHR 0x00 \<in> set v then st else st\<lparr>sc_id := v\<rparr>)
      else if field = ''retry'' then
        (if v \<noteq> '''' \<and> list_all (\<lambda>c. digit_of c \<noteq> None) v then st\<lparr>sc_retry := v\<rparr> else st)
      else st)"

definition sse_dispatch :: "sse_client \<Rightarrow> sse_client" where
  "sse_dispatch st =
     (if sc_data st = '''' then st\<lparr>sc_type := '''', sc_data := ''''\<rparr>
      else st\<lparr>sc_type := '''', sc_data := '''',
        sc_events := sc_events st @ [\<lparr>ev_type = (if sc_type st = '''' then ''message'' else sc_type st),
          ev_data = TrimSuffix (sc_data st) [newline], ev_id = sc_id st\<rparr>]\<rparr>)"

definition drop_space :: "string \<Rightarrow> string" where
  "drop_space v = (case v of c # cs \<Rightarrow> (if c = CHR '' '' then cs else v) | [] \<Rightarrow> [])"

definition sse_line :: "sse_client \<Rightarrow> string \<Rightarrow> sse_client" where
  "sse_line st line =
     (if line = '''' then sse_dispatch st
      else case SplitN2 line (CHR '':'') of
        [field, v] \<Rightarrow> (if field = '''' then st else sse_field st field (drop_space v))
      | _ \<Rightarrow> sse_field st line '''')"

fun sse_newlines :: "string \<Rightarrow> string" where
  "sse_newlines [] = []"
| "sse_newlines (c # cs) =
     (if c = CHR 0x0D then newline # (case cs of
          d # ds \<Rightarrow> (if d = newline then sse_newlines ds else sse_newlines cs)
        | [] \<Rightarrow> [])
      else c # sse_newlines cs)"

definition sse_parse :: "sse_client \<Rightarrow> string \<Rightarrow> sse_client" where
  "sse_parse st s = foldl sse_line st (butlast (Split (sse_newlines s) newline))"

text \<open>What a call of \<^verbatim>\<open>SendSSE\<close> means to a client: one event, if there are data.\<close>

definition sse_call :: "sse_client \<Rightarrow> string list \<Rightarrow> sse_client" where
  "sse_call st args =
     (let event = first_line (arg_or_empty args 0); data = arg_or_empty args 1;
          id = arg_or_empty args 2; retry = first_line (arg_or_empty args 3);
          st = (if id = '''' \<or> CHR 0x00 \<in> set (first_line id) then st else st\<lparr>sc_id := first_line id\<rparr>);
          st = (if retry \<noteq> '''' \<and> list_all (\<lambda>c. digit_of c \<noteq> None) retry then st\<lparr>sc_retry := retry\<rparr> else st)
      in if data = '''' then st
         else st\<lparr>sc_events := sc_events st @ [\<lparr>ev_type = (if event = '''' then ''message'' else event),
           ev_data = data, ev_id = sc_id st\<rparr>]\<rparr>)"

definition idle :: "sse_client \<Rightarrow> bool" where
  "idle st \<longleftrightarrow> sc_type st = '''' \<and> sc_data st = ''''"

section \<open>The bytes of a call\<close>

definition field_line :: "string \<Rightarrow> string \<Rightarrow> string" where
  "field_line field v = field @ '': '' @ v"

definition sse_lines :: "string list \<Rightarrow> string list" where
  "sse_lines args =
     (let event = arg_or_empty args 0; data = arg_or_empty args 1;
          id = arg_or_empty args 2; retry = arg_or_empty args 3;
          ls = (if event \<noteq> '''' then [field_line ''event'' (first_line event)] else [])
            @ (if data \<noteq> '''' then map (field_line ''data'') (Split data newline) else [])
            @ (if id \<noteq> '''' then [field_line ''id'' (first_line id)] else [])
            @ (if retry \<noteq> '''' then [field_line ''retry'' (first_line retry)] else [])
      in if ls = [] then [] else ls @ ['''', ''''])"

definition streaming :: "respWriter \<Rightarrow> bool" where
  "streaming w \<longleftrightarrow> (case rw_sent w of
     None \<Rightarrow> declared_length (rw_header w) = None
   | Some (code, _) \<Rightarrow> bodyAllowedForStatus code \<and> rw_limit w = None)"

definition lines_bytes :: "string list \<Rightarrow> string" where
  "lines_bytes ls = concat (map (\<lambda>l. l @ [newline]) ls)"

lemma streaming_Write: "streaming w \<Longrightarrow> streaming (Write s w) \<and> rw_body (Write s w) = rw_body w @ s"
  by (auto simp: streaming_def Write_def Let_def decide_ok_def WriteHeader_def in_range_def
      bodyAllowedForStatus_def split: option.splits)

lemma streaming_Flush: "streaming w \<Longrightarrow> streaming (Flush w) \<and> rw_body (Flush w) = rw_body w
   \<and> rw_flushed (Flush w) = length (rw_body w)"
  by (auto simp: streaming_def Flush_def Let_def decide_ok_def WriteHeader_def in_range_def
      bodyAllowedForStatus_def split: option.splits)

lemma streaming_lines:
  "streaming w \<Longrightarrow> streaming (foldl (\<lambda>w line. write_field field line w) w ls)
   \<and> rw_body (foldl (\<lambda>w line. write_field field line w) w ls) = rw_body w @ lines_bytes (map (field_line field) ls)"
proof (induction ls arbitrary: w)
  case (Cons l ls)
  have "streaming (write_field field l w)" and "rw_body (write_field field l w) = rw_body w @ field_line field l @ [newline]"
    using streaming_Write [OF Cons.prems] by (simp_all add: write_field_def field_line_def)
  with Cons.IH [of "write_field field l w"] show ?case by (simp add: lines_bytes_def)
qed (simp add: lines_bytes_def)

lemma lines_bytes_append [simp]: "lines_bytes (xs @ ys) = lines_bytes xs @ lines_bytes ys"
  by (simp add: lines_bytes_def)

lemma Split_ne_map: "map f (Split s c) \<noteq> []"
  by simp

lemma SendSSE_bytes:
  assumes "streaming w" and "1 \<le> length args" and "length args \<le> 4"
  shows "\<exists>w'. SendSSE args w = (None, w') \<and> streaming w' \<and> rw_body w' = rw_body w @ lines_bytes (sse_lines args)
     \<and> (sse_lines args \<noteq> [] \<longrightarrow> rw_flushed w' = length (rw_body w'))
     \<and> (sse_lines args = [] \<longrightarrow> w' = w)"
proof -
  let ?e = "arg_or_empty args 0" and ?d = "arg_or_empty args 1" and ?i = "arg_or_empty args 2"
    and ?r = "arg_or_empty args 3"
  define one where "one field v w = (if v \<noteq> '''' then write_field field (first_line v) w else w)" for field v w
  have one: "streaming (one field v u) \<and> rw_body (one field v u)
     = rw_body u @ lines_bytes (if v \<noteq> '''' then [field_line field (first_line v)] else [])"
    if "streaming u" for field v u
    using that streaming_Write [OF that] by (simp add: one_def write_field_def field_line_def lines_bytes_def)
  define w1 where "w1 = one ''event'' ?e w"
  define w2 where "w2 = (if ?d \<noteq> '''' then foldl (\<lambda>w line. write_field ''data'' line w) w1 (Split ?d newline) else w1)"
  define w3 where "w3 = one ''id'' ?i w2"
  define w4 where "w4 = one ''retry'' ?r w3"
  have 1: "streaming w1 \<and> rw_body w1 = rw_body w @ lines_bytes (if ?e \<noteq> '''' then [field_line ''event'' (first_line ?e)] else [])"
    unfolding w1_def by (rule one [OF assms(1)])
  have 2: "streaming w2 \<and> rw_body w2 = rw_body w1 @ lines_bytes (if ?d \<noteq> '''' then map (field_line ''data'') (Split ?d newline) else [])"
    unfolding w2_def using streaming_lines [of w1 "''data''" "Split ?d newline"] 1 by (simp add: lines_bytes_def)
  have 3: "streaming w3 \<and> rw_body w3 = rw_body w2 @ lines_bytes (if ?i \<noteq> '''' then [field_line ''id'' (first_line ?i)] else [])"
    unfolding w3_def using one 2 by blast
  have 4: "streaming w4 \<and> rw_body w4 = rw_body w3 @ lines_bytes (if ?r \<noteq> '''' then [field_line ''retry'' (first_line ?r)] else [])"
    unfolding w4_def using one 3 by blast
  let ?written = "?e \<noteq> '''' \<or> ?d \<noteq> '''' \<or> ?i \<noteq> '''' \<or> ?r \<noteq> ''''"
  have len: "\<not> (length args < 1 \<or> 4 < length args)" using assms(2,3) by linarith
  have s: "SendSSE args w = (None, if ?written then Flush (Write [newline, newline] w4) else w4)"
    unfolding SendSSE_def if_not_P [OF len] Let_def w4_def w3_def w2_def w1_def one_def by simp
  have end_: "streaming (Flush (Write [newline, newline] w4))
     \<and> rw_body (Flush (Write [newline, newline] w4)) = rw_body w4 @ [newline, newline]
     \<and> rw_flushed (Flush (Write [newline, newline] w4)) = length (rw_body w4 @ [newline, newline])"
    using 4 streaming_Write [of w4 "[newline, newline]"] streaming_Flush [of "Write [newline, newline] w4"] by simp
  have idle: "w4 = w" if "\<not> ?written" using that by (simp add: w4_def w3_def w2_def w1_def one_def)
  show ?thesis
  proof (cases ?written)
    case True
    then have "lines_bytes (sse_lines args) = lines_bytes (if ?e \<noteq> '''' then [field_line ''event'' (first_line ?e)] else [])
       @ lines_bytes (if ?d \<noteq> '''' then map (field_line ''data'') (Split ?d newline) else [])
       @ lines_bytes (if ?i \<noteq> '''' then [field_line ''id'' (first_line ?i)] else [])
       @ lines_bytes (if ?r \<noteq> '''' then [field_line ''retry'' (first_line ?r)] else []) @ [newline, newline]"
      by (simp add: sse_lines_def Let_def lines_bytes_def)
    moreover have "sse_lines args \<noteq> []" using True by (auto simp: sse_lines_def Let_def)
    ultimately show ?thesis using True s 1 2 3 4 end_ by simp
  next
    case False
    then have "sse_lines args = []" by (simp add: sse_lines_def)
    with False s idle assms(1) show ?thesis by (auto simp: lines_bytes_def)
  qed
qed
section \<open>What the client sees\<close>

lemma sse_newlines_id: "CHR 0x0D \<notin> set s \<Longrightarrow> sse_newlines s = s"
  by (induction s rule: sse_newlines.induct) auto

lemma Split_lines: "\<forall>l \<in> set ls. newline \<notin> set l \<Longrightarrow> Split (lines_bytes ls) newline = ls @ [[]]"
  by (induction ls) (auto simp: lines_bytes_def Split_append)

lemma sse_parse_lines:
  assumes "\<forall>l \<in> set ls. newline \<notin> set l \<and> CHR 0x0D \<notin> set l"
  shows "sse_parse st (lines_bytes ls) = foldl sse_line st ls"
proof -
  have "CHR 0x0D \<notin> set (lines_bytes ls)" using assms by (auto simp: lines_bytes_def)
  then show ?thesis using assms by (simp add: sse_parse_def sse_newlines_id Split_lines)
qed

lemma SplitN2_append: "c \<notin> set a \<Longrightarrow> SplitN2 (a @ c # b) c = [a, b]"
  by (induction a) auto

lemma sse_line_field:
  "CHR '':'' \<notin> set field \<Longrightarrow> field \<noteq> '''' \<Longrightarrow> sse_line st (field_line field v) = sse_field st field v"
  using SplitN2_append [of "CHR '':''" field "CHR '' '' # v"]
  by (simp add: sse_line_def field_line_def drop_space_def)

lemma sse_data_lines:
  "foldl sse_line st (map (field_line ''data'') ls) = st\<lparr>sc_data := sc_data st @ lines_bytes ls\<rparr>"
  by (induction ls arbitrary: st) (simp_all add: sse_line_field sse_field_def lines_bytes_def)

lemma lines_bytes_Join: "xs \<noteq> [] \<Longrightarrow> lines_bytes xs = Join xs newline @ [newline]"
  by (induction xs newline rule: Join.induct) (simp_all add: lines_bytes_def)

lemma lines_bytes_Split: "lines_bytes (Split s newline) = s @ [newline]"
  by (simp add: lines_bytes_Join)

lemma Split_set: "x \<in> set (Split s c) \<Longrightarrow> set x \<subseteq> set s"
  by (induction s arbitrary: x) (force split: if_splits list.splits)+

lemma first_line_set: "set (first_line s) \<subseteq> set s" "newline \<notin> set (first_line s)"
  by (auto simp: first_line_def hd_SplitN2 dest: set_takeWhileD)

lemma arg_or_empty_set: "(\<forall>a \<in> set args. c \<notin> set a) \<Longrightarrow> c \<notin> set (arg_or_empty args i)"
  by (simp add: arg_or_empty_def)

lemma sse_lines_clean:
  assumes "\<forall>a \<in> set args. CHR 0x0D \<notin> set a" and "l \<in> set (sse_lines args)"
  shows "newline \<notin> set l \<and> CHR 0x0D \<notin> set l"
proof -
  note cr = arg_or_empty_set [OF assms(1)]
  have fl: "newline \<notin> set (first_line (arg_or_empty args i)) \<and> CHR 0x0D \<notin> set (first_line (arg_or_empty args i))" for i
    using first_line_set [of "arg_or_empty args i"] cr [of i] by blast
  have sp: "newline \<notin> set x \<and> CHR 0x0D \<notin> set x" if "x \<in> set (Split (arg_or_empty args i) newline)" for x i
    using Split_pieces [OF that] Split_set [OF that] cr [of i] by blast
  from assms(2) show ?thesis
    using fl sp by (auto simp: sse_lines_def Let_def field_line_def split: if_splits)
qed

text \<open>One call, seen by a client that is between two events.\<close>

lemma sse_lines_call:
  assumes "idle st"
  shows "foldl sse_line st (sse_lines args) = sse_call st args" and "idle (sse_call st args)"
proof -
  let ?e = "arg_or_empty args 0" and ?d = "arg_or_empty args 1" and ?i = "arg_or_empty args 2"
    and ?r = "arg_or_empty args 3"
  define le where "le = (if ?e \<noteq> '''' then [field_line ''event'' (first_line ?e)] else [])"
  define ld where "ld = (if ?d \<noteq> '''' then map (field_line ''data'') (Split ?d newline) else [])"
  define li where "li = (if ?i \<noteq> '''' then [field_line ''id'' (first_line ?i)] else [])"
  define lr where "lr = (if ?r \<noteq> '''' then [field_line ''retry'' (first_line ?r)] else [])"
  define i' where "i' = (if ?i = '''' \<or> CHR 0x00 \<in> set (first_line ?i) then sc_id st else first_line ?i)"
  define r' where "r' = (if first_line ?r \<noteq> '''' \<and> list_all (\<lambda>c. digit_of c \<noteq> None) (first_line ?r)
     then first_line ?r else sc_retry st)"
  define d' where "d' = (if ?d = '''' then '''' else ?d @ [newline])"
  have fl: "first_line [] = []" by (simp add: first_line_def)
  have call: "sse_call st args = (let st = st\<lparr>sc_id := i', sc_retry := r'\<rparr> in
     if ?d = '''' then st else st\<lparr>sc_events := sc_events st @
       [\<lparr>ev_type = (if first_line ?e = '''' then ''message'' else first_line ?e), ev_data = ?d, ev_id = i'\<rparr>]\<rparr>)"
    by (simp add: sse_call_def Let_def i'_def r'_def)
  have e: "foldl sse_line st le = st\<lparr>sc_type := first_line ?e\<rparr>"
    using assms by (simp add: le_def sse_line_field sse_field_def idle_def fl)
  have d: "foldl sse_line u ld = u\<lparr>sc_data := d'\<rparr>" if "sc_data u = ''''" for u
    using that by (simp add: ld_def d'_def sse_data_lines lines_bytes_Split)
  have i: "foldl sse_line u li = u\<lparr>sc_id := i'\<rparr>" if "sc_id u = sc_id st" for u
    using that by (simp add: li_def i'_def sse_line_field sse_field_def)
  have r: "foldl sse_line u lr = u\<lparr>sc_retry := r'\<rparr>" if "sc_retry u = sc_retry st" for u
    using that by (simp add: lr_def r'_def sse_line_field sse_field_def fl)
  have four: "foldl sse_line st (le @ ld @ li @ lr)
     = st\<lparr>sc_type := first_line ?e, sc_data := d', sc_id := i', sc_retry := r'\<rparr>"
    using assms by (simp add: e d i r idle_def)
  have end_: "foldl sse_line u ['''', ''''] = sse_dispatch (sse_dispatch u)" for u
    by (simp add: sse_line_def)
  have ls: "sse_lines args = (if le @ ld @ li @ lr = [] then [] else (le @ ld @ li @ lr) @ ['''', ''''])"
    unfolding sse_lines_def Let_def le_def ld_def li_def lr_def by (rule refl)
  show "foldl sse_line st (sse_lines args) = sse_call st args"
  proof (cases "le @ ld @ li @ lr = []")
    case True
    then have "?d = ''''" "?i = ''''" "?r = ''''"
      by (auto simp: ld_def li_def lr_def split: if_splits)
    then have "sse_call st args = st" by (simp add: call i'_def r'_def fl)
    with True show ?thesis by (simp add: ls)
  next
    case False
    then have "foldl sse_line st (sse_lines args) = sse_dispatch (sse_dispatch
       (st\<lparr>sc_type := first_line ?e, sc_data := d', sc_id := i', sc_retry := r'\<rparr>))"
      unfolding ls foldl_append [of _ _ _ "['''', '''']"] if_not_P [OF False] four end_ by simp
    also have "\<dots> = sse_call st args"
      using assms by (simp add: sse_dispatch_def d'_def call idle_def)
    finally show ?thesis .
  qed
  show "idle (sse_call st args)" using assms by (simp add: call idle_def Let_def)
qed

definition send_all :: "string list list \<Rightarrow> respWriter \<Rightarrow> respWriter" where
  "send_all calls w = foldl (\<lambda>w args. snd (SendSSE args w)) w calls"

lemma send_all_bytes:
  assumes "streaming w" and "\<forall>args \<in> set calls. 1 \<le> length args \<and> length args \<le> 4"
    and "rw_flushed w = length (rw_body w)"
  shows "rw_body (send_all calls w) = rw_body w @ lines_bytes (concat (map sse_lines calls))
     \<and> rw_flushed (send_all calls w) = length (rw_body (send_all calls w))"
  using assms
proof (induction calls arbitrary: w)
  case (Cons args calls)
  from Cons.prems(2) have "1 \<le> length args" "length args \<le> 4" by auto
  from SendSSE_bytes [OF Cons.prems(1) this] obtain w' where w': "SendSSE args w = (None, w')" "streaming w'"
    "rw_body w' = rw_body w @ lines_bytes (sse_lines args)" "rw_flushed w' = length (rw_body w')"
    using Cons.prems(3) by metis
  from Cons.IH [OF w'(2) _ w'(4)] Cons.prems(2) w' show ?case by (simp add: send_all_def)
qed (simp add: send_all_def lines_bytes_def)

lemma sse_lines_calls:
  "idle st \<Longrightarrow> foldl sse_line st (concat (map sse_lines calls)) = foldl sse_call st calls"
proof (induction calls arbitrary: st)
  case (Cons args calls)
  from sse_lines_call [OF Cons.prems, of args] Cons.IH show ?case by simp
qed simp

text \<open>C29. A client that parses the stream by the HTML standard sees, for a sequence of \<^verbatim>\<open>SendSSE\<close> calls, exactly
  the events of the calls that carry data, in order, each with its type, its data (newlines included) and
  its id: no text in an argument can end an event early or forge a field. Everything written has been
  flushed. The arguments must be free of carriage returns.\<close>

theorem SendSSE_roundtrip:
  assumes "streaming w" and "rw_body w = ''''" and "rw_flushed w = 0"
    and "\<forall>args \<in> set calls. 1 \<le> length args \<and> length args \<le> 4"
    and "\<forall>args \<in> set calls. \<forall>a \<in> set args. CHR 0x0D \<notin> set a"
  shows "sse_parse sse_start (rw_body (send_all calls w)) = foldl sse_call sse_start calls
     \<and> rw_flushed (send_all calls w) = length (rw_body (send_all calls w))"
proof -
  let ?ls = "concat (map sse_lines calls)"
  have b: "rw_body (send_all calls w) = lines_bytes ?ls
     \<and> rw_flushed (send_all calls w) = length (rw_body (send_all calls w))"
    using send_all_bytes [OF assms(1,4)] assms(2,3) by simp
  have "\<forall>l \<in> set ?ls. newline \<notin> set l \<and> CHR 0x0D \<notin> set l"
    using sse_lines_clean assms(5) by fastforce
  moreover have "idle sse_start" by (simp add: idle_def sse_start_def)
  ultimately show ?thesis using b by (simp add: sse_parse_lines sse_lines_calls)
qed
text \<open>Carriage returns are not handled, although the standard ends a line at one: data that hold two
  carriage returns and a line \<^verbatim>\<open>data: b\<close> reach the client as two events.\<close>

lemma SendSSE_carriage_return:
  "map ev_data (sc_events (sse_parse sse_start (rw_body (snd
     (SendSSE [''m'', ''a'' @ [CHR 0x0D, CHR 0x0D] @ ''data: b''] new_response))))) = [''a'', ''b'']"
  by code_simp

text \<open>
  The invariant of the generator: at the \<^verbatim>\<open>select\<close> the numbers below the counter have been sent, after a send
  the counter too, and the counter never exceeds the maximum (or 0, when the maximum is negative).
\<close>

definition repeat_inv :: "int \<Rightarrow> repeat_state \<Rightarrow> bool" where
  "repeat_inv m s \<longleftrightarrow> 0 \<le> rp_i s \<and> rp_i s \<le> max 0 m
     \<and> (case rp_pc s of
          AtSelect \<Rightarrow> rp_sent s = map int [0..<nat (rp_i s)]
        | AtCheck \<Rightarrow> rp_sent s = map int [0..<nat (rp_i s) + 1]
        | Closed \<Rightarrow> \<exists>n. rp_sent s = map int [0..<n] \<and> int n \<le> max 0 m + 1)"

lemma repeat_step_inv: "repeat_step m s t \<Longrightarrow> repeat_inv m s \<Longrightarrow> repeat_inv m t"
proof (induction rule: repeat_step.induct)
  case (cancelled s)
  then have "rp_sent s = map int [0..<nat (rp_i s)]" "0 \<le> rp_i s" "rp_i s \<le> max 0 m"
    by (simp_all add: repeat_inv_def)
  then show ?case by (auto simp: repeat_inv_def intro!: exI [of _ "nat (rp_i s)"])
next
  case (send s)
  then show ?case by (simp add: repeat_inv_def)
next
  case (finish s)
  then have "rp_sent s = map int [0..<nat (rp_i s) + 1]" "0 \<le> rp_i s" "rp_i s \<le> max 0 m"
    by (simp_all add: repeat_inv_def)
  then show ?case by (auto simp: repeat_inv_def intro!: exI [of _ "nat (rp_i s) + 1"])
next
  case (count s)
  then have h: "rp_sent s = map int [0..<nat (rp_i s) + 1]" "0 \<le> rp_i s" "rp_i s < m"
    by (simp_all add: repeat_inv_def)
  then have "nat (rp_i s + 1) = nat (rp_i s) + 1" by simp
  with h show ?case by (simp add: repeat_inv_def)
qed

lemma repeat_reachable_inv: "repeat_reachable m s \<Longrightarrow> repeat_inv m s"
proof (induction rule: repeat_reachable.induct)
  case start
  show ?case by (simp add: repeat_inv_def repeat_init_def)
next
  case (step s t)
  from repeat_step_inv [OF step.hyps(2) step.IH] show ?case .
qed

text \<open>C30. Whenever the channel of \<^verbatim>\<open>Repeat\<close> is looked at, what was received from it is 0, 1, 2, ... without gaps
  or repeats, and never a number above the maximum (0 itself is always offered, even below a negative
  maximum). The counter stays within an \<^verbatim>\<open>int64\<close>: it is compared before it is incremented.\<close>

theorem Repeat_numbers:
  assumes "repeat_reachable (repeat_max args) s" and "\<forall>m \<in> set args. m < 2 ^ 63"
  shows "(\<exists>n. rp_sent s = map int [0..<n] \<and> int n \<le> max 0 (repeat_max args) + 1)
     \<and> 0 \<le> rp_i s \<and> rp_i s < 2 ^ 63"
proof -
  have inv: "repeat_inv (repeat_max args) s" by (rule repeat_reachable_inv [OF assms(1)])
  have "repeat_max args < 2 ^ 63"
    using assms(2) by (cases args) (simp_all add: repeat_max_def)
  then have b: "0 \<le> rp_i s \<and> rp_i s < 2 ^ 63" using inv by (auto simp: repeat_inv_def max_def split: if_splits)
  have "\<exists>n. rp_sent s = map int [0..<n] \<and> int n \<le> max 0 (repeat_max args) + 1"
  proof (cases "rp_pc s")
    case AtSelect
    with inv show ?thesis by (intro exI [of _ "nat (rp_i s)"]) (simp add: repeat_inv_def)
  next
    case AtCheck
    with inv show ?thesis by (intro exI [of _ "nat (rp_i s) + 1"]) (simp add: repeat_inv_def)
  next
    case Closed
    with inv show ?thesis by (simp add: repeat_inv_def)
  qed
  with b show ?thesis by simp
qed


text \<open>How many steps are left.\<close>

definition repeat_measure :: "int \<Rightarrow> repeat_state \<Rightarrow> nat" where
  "repeat_measure m s = (case rp_pc s of AtSelect \<Rightarrow> 2 * nat (max 0 m - rp_i s) + 2 | AtCheck \<Rightarrow> 2 * nat (max 0 m - rp_i s) + 1 | Closed \<Rightarrow> 0)"

lemma repeat_step_measure: "repeat_step m s t \<Longrightarrow> repeat_inv m s \<Longrightarrow> repeat_measure m t < repeat_measure m s"
  by (induction rule: repeat_step.induct) (auto simp: repeat_measure_def repeat_inv_def)

lemma repeat_run_measure:
  "(repeat_step m ^^ n) repeat_init s \<Longrightarrow> repeat_inv m s \<and> repeat_measure m s + n \<le> repeat_measure m repeat_init"
proof (induction n arbitrary: s)
  case 0
  then show ?case by (auto simp: repeat_inv_def repeat_init_def)
next
  case (Suc n)
  then obtain s' where s': "(repeat_step m ^^ n) repeat_init s'" "repeat_step m s' s" by (auto elim: relpowp_Suc_E)
  with Suc.IH repeat_step_measure [OF s'(2)] repeat_step_inv [OF s'(2)] show ?case by fastforce
qed


section \<open>Examples\<close>

lemma SendSSE_roundtrip_witness:
  "sc_events (sse_parse sse_start (rw_body (send_all [[''m'', ''a'' @ newline # ''b''], [''ping'']] new_response)))
   = [\<lparr>ev_type = ''m'', ev_data = ''a'' @ newline # ''b'', ev_id = ''''\<rparr>]"
proof -
  let ?calls = "[[''m'', ''a'' @ newline # ''b''], [''ping'']]"
  have s: "streaming new_response" by code_simp
  have "sse_parse sse_start (rw_body (send_all ?calls new_response)) = foldl sse_call sse_start ?calls"
    using SendSSE_roundtrip [OF s, of ?calls] by (simp add: new_response_def)
  moreover have "sc_events (foldl sse_call sse_start ?calls)
     = [\<lparr>ev_type = ''m'', ev_data = ''a'' @ newline # ''b'', ev_id = ''''\<rparr>]"
    by code_simp
  ultimately show ?thesis by simp
qed

lemma repeat_two_sent:
  "repeat_reachable 1 \<lparr>rp_pc = AtCheck, rp_i = 1, rp_sent = [0, 1]\<rparr>"
proof -
  let ?a = "\<lparr>rp_pc = AtCheck, rp_i = 0, rp_sent = [0]\<rparr>" and ?b = "\<lparr>rp_pc = AtSelect, rp_i = 1, rp_sent = [0]\<rparr>"
  have "repeat_step 1 repeat_init ?a" using repeat_step.send [of repeat_init 1] by (simp add: repeat_init_def)
  moreover have "repeat_step 1 ?a ?b" using repeat_step.count [of ?a 1] by simp
  moreover have "repeat_step 1 ?b \<lparr>rp_pc = AtCheck, rp_i = 1, rp_sent = [0, 1]\<rparr>"
    using repeat_step.send [of ?b 1] by simp
  ultimately show ?thesis by (meson repeat_reachable.intros)
qed

lemma Repeat_numbers_witness: "\<exists>n. [0, 1] = map int [0..<n] \<and> int n \<le> 2"
proof -
  have "repeat_reachable (repeat_max [1]) \<lparr>rp_pc = AtCheck, rp_i = 1, rp_sent = [0, 1]\<rparr>"
    using repeat_two_sent by (simp add: repeat_max_def)
  from Repeat_numbers [OF this] show ?thesis by (simp add: repeat_max_def)
qed



end
