(* ===== verification/Go_ServeContent.thy ===== *)
theory Go_ServeContent
  imports Go_Http Go_Path
begin

text \<open>
  Go's \<^verbatim>\<open>http.ServeContent\<close>: conditional requests, byte ranges and the headers of the response. Times are
  nanoseconds since 1970. Three things are left to the record of arguments \<open>env\<close>: the text form of HTTP dates,
  the guess of a content type, and the multipart encoding of a request for several ranges (its boundary is
  random). Reading from the content does not fail.
\<close>

record serveEnv =
  se_parseTime :: "string \<Rightarrow> int option"
  se_formatTime :: "int \<Rightarrow> string"
  se_guessType :: "string \<Rightarrow> string \<Rightarrow> string"
  se_multipart :: "(int \<times> int) list \<Rightarrow> string \<Rightarrow> string \<Rightarrow> string"

section \<open>Conditional requests\<close>

definition ascii_space :: "char \<Rightarrow> bool" where
  "ascii_space c \<longleftrightarrow> byte_val c \<in> {0x20, 0x09, 0x0A, 0x0D}"

definition TrimString :: "string \<Rightarrow> string" where
  "TrimString s = rev (dropWhile ascii_space (rev (dropWhile ascii_space s)))"

abbreviation quote :: char where
  "quote \<equiv> CHR 0x22"

text \<open>The bytes up to the closing quotation mark of an entity tag, if they are all allowed.\<close>

fun etag_tail :: "string \<Rightarrow> string option" where
  "etag_tail [] = None"
| "etag_tail (c # cs) =
     (if c = quote then Some [quote]
      else let n = byte_val c in
        if n = 0x21 \<or> in_range 0x23 0x7E n \<or> 0x80 \<le> n then map_option ((#) c) (etag_tail cs)
        else None)"

definition scanETag :: "string \<Rightarrow> string \<times> string" where
  "scanETag s0 =
     (let s = TrimString s0;
          start = (if HasPrefix s ''W/'' then 2 else 0);
          body = drop start s in
      case body of
        q # rest \<Rightarrow>
          (if q = quote then
             (case etag_tail rest of
                Some t \<Rightarrow> (let tag = take start s @ quote # t in (tag, drop (length tag) s))
              | None \<Rightarrow> ('''', ''''))
           else ('''', ''''))
      | [] \<Rightarrow> ('''', ''''))"

definition etagStrongMatch :: "string \<Rightarrow> string \<Rightarrow> bool" where
  "etagStrongMatch a b \<longleftrightarrow> a = b \<and> a \<noteq> '''' \<and> hd a = quote"

definition etagWeakMatch :: "string \<Rightarrow> string \<Rightarrow> bool" where
  "etagWeakMatch a b \<longleftrightarrow> TrimPrefix a ''W/'' = TrimPrefix b ''W/''"

text \<open>
  The loop of \<^verbatim>\<open>checkIfMatch\<close> and \<^verbatim>\<open>checkIfNoneMatch\<close>: whether a list of entity tags has one that matches. The
  bound on the iterations is the length of the list, since each consumes at least one byte.
\<close>

fun etag_list_matches :: "nat \<Rightarrow> (string \<Rightarrow> bool) \<Rightarrow> string \<Rightarrow> bool" where
  "etag_list_matches 0 m s = False"
| "etag_list_matches (Suc n) m s =
     (case TrimString s of
        [] \<Rightarrow> False
      | c # cs \<Rightarrow>
          if c = CHR '','' then etag_list_matches n m cs
          else if c = CHR ''*'' then True
          else (case scanETag (c # cs) of
                  (tag, rest) \<Rightarrow> tag \<noteq> '''' \<and> (m tag \<or> etag_list_matches n m rest)))"

datatype cond = condNone | condTrue | condFalse

definition isZeroTime :: "int \<Rightarrow> bool" where
  "isZeroTime t \<longleftrightarrow> t = 0 \<or> t = - 62135596800000000000"

definition truncate_second :: "int \<Rightarrow> int" where
  "truncate_second t = t div 1000000000 * 1000000000"

definition checkIfMatch :: "request \<Rightarrow> respWriter \<Rightarrow> cond" where
  "checkIfMatch r w =
     (let im = Header_Get (r_header r) ''If-Match'' in
      if im = '''' then condNone
      else if etag_list_matches (Suc (length im)) (\<lambda>t. etagStrongMatch t (Header_Get (rw_header w) ''Etag'')) im
      then condTrue else condFalse)"

definition checkIfUnmodifiedSince :: "serveEnv \<Rightarrow> request \<Rightarrow> int \<Rightarrow> cond" where
  "checkIfUnmodifiedSince env r modtime =
     (let ius = Header_Get (r_header r) ''If-Unmodified-Since'' in
      if ius = '''' \<or> isZeroTime modtime then condNone
      else case se_parseTime env ius of
        None \<Rightarrow> condNone
      | Some t \<Rightarrow> (if truncate_second modtime \<le> t then condTrue else condFalse))"

definition checkIfNoneMatch :: "request \<Rightarrow> respWriter \<Rightarrow> cond" where
  "checkIfNoneMatch r w =
     (let inm = Header_Get (r_header r) ''If-None-Match'' in
      if inm = '''' then condNone
      else if etag_list_matches (Suc (length inm)) (\<lambda>t. etagWeakMatch t (Header_Get (rw_header w) ''Etag'')) inm
      then condFalse else condTrue)"

definition is_get_or_head :: "request \<Rightarrow> bool" where
  "is_get_or_head r \<longleftrightarrow> r_method r = ''GET'' \<or> r_method r = ''HEAD''"

definition checkIfModifiedSince :: "serveEnv \<Rightarrow> request \<Rightarrow> int \<Rightarrow> cond" where
  "checkIfModifiedSince env r modtime =
     (let ims = Header_Get (r_header r) ''If-Modified-Since'' in
      if \<not> is_get_or_head r \<or> ims = '''' \<or> isZeroTime modtime then condNone
      else case se_parseTime env ims of
        None \<Rightarrow> condNone
      | Some t \<Rightarrow> (if truncate_second modtime \<le> t then condFalse else condTrue))"

definition checkIfRange :: "serveEnv \<Rightarrow> request \<Rightarrow> respWriter \<Rightarrow> int \<Rightarrow> cond" where
  "checkIfRange env r w modtime =
     (let ir = Header_Get (r_header r) ''If-Range''; etag = fst (scanETag ir) in
      if \<not> is_get_or_head r \<or> ir = '''' then condNone
      else if etag \<noteq> '''' then
        (if etagStrongMatch etag (Header_Get (rw_header w) ''Etag'') then condTrue else condFalse)
      else if modtime = - 62135596800000000000 then condFalse
      else case se_parseTime env ir of
        None \<Rightarrow> condFalse
      | Some t \<Rightarrow> (if t div 1000000000 = modtime div 1000000000 then condTrue else condFalse))"

definition writeNotModified :: "respWriter \<Rightarrow> respWriter panics" where
  "writeNotModified w =
     (let h = Header_Del (Header_Del (Header_Del (rw_header w) ''Content-Type'') ''Content-Length'') ''Content-Encoding'';
          h = (if Header_Get h ''Etag'' \<noteq> '''' then Header_Del h ''Last-Modified'' else h)
      in WriteHeader 304 (w\<lparr>rw_header := h\<rparr>))"

text \<open>The answer, or the \<^verbatim>\<open>Range\<close> header that is left to honour.\<close>

definition checkPreconditions ::
  "serveEnv \<Rightarrow> request \<Rightarrow> int \<Rightarrow> respWriter \<Rightarrow> respWriter panics + string" where
  "checkPreconditions env r modtime w =
     (let ch = (case checkIfMatch r w of condNone \<Rightarrow> checkIfUnmodifiedSince env r modtime | c \<Rightarrow> c) in
      if ch = condFalse then Inl (WriteHeader 412 w)
      else
        let inm = checkIfNoneMatch r w in
        if inm = condFalse then
          Inl (if is_get_or_head r then writeNotModified w else WriteHeader 412 w)
        else if inm = condNone \<and> checkIfModifiedSince env r modtime = condFalse then Inl (writeNotModified w)
        else let rangeReq = Header_Get (r_header r) ''Range'' in
          Inr (if rangeReq \<noteq> '''' \<and> checkIfRange env r w modtime = condFalse then '''' else rangeReq))"

section \<open>Byte ranges\<close>

datatype range_error = InvalidRange | NoOverlap

fun add_ranges ::
  "int \<Rightarrow> string list \<Rightarrow> bool \<Rightarrow> (int \<times> int) list \<Rightarrow> range_error + bool \<times> (int \<times> int) list" where
  "add_ranges sz [] noOverlap ranges = Inr (noOverlap, ranges)"
| "add_ranges sz (ra0 # ras) noOverlap ranges =
     (let ra = TrimString ra0 in
      if ra = '''' then add_ranges sz ras noOverlap ranges
      else case SplitN2 ra (CHR ''-'') of
        [a, b] \<Rightarrow>
          (let start = TrimString a; end = TrimString b in
           if start = '''' then
             (if end = '''' \<or> hd end = CHR ''-'' then Inl InvalidRange
              else case ParseInt end of
                None \<Rightarrow> Inl InvalidRange
              | Some i \<Rightarrow>
                  (if i < 0 then Inl InvalidRange
                   else add_ranges sz ras noOverlap (ranges @ [(sz - min i sz, min i sz)])))
           else case ParseInt start of
             None \<Rightarrow> Inl InvalidRange
           | Some i \<Rightarrow>
               (if i < 0 then Inl InvalidRange
                else if sz \<le> i then add_ranges sz ras True ranges
                else if end = '''' then add_ranges sz ras noOverlap (ranges @ [(i, sz - i)])
                else case ParseInt end of
                  None \<Rightarrow> Inl InvalidRange
                | Some j \<Rightarrow>
                    (if j < i then Inl InvalidRange
                     else add_ranges sz ras noOverlap (ranges @ [(i, min j (sz - 1) - i + 1)]))))
      | _ \<Rightarrow> Inl InvalidRange)"

definition parseRange :: "string \<Rightarrow> int \<Rightarrow> range_error + (int \<times> int) list" where
  "parseRange s sz =
     (if s = '''' then Inr []
      else if \<not> HasPrefix s ''bytes='' then Inl InvalidRange
      else case add_ranges sz (Split (drop 6 s) (CHR '','')) False [] of
        Inl e \<Rightarrow> Inl e
      | Inr (noOverlap, ranges) \<Rightarrow> (if noOverlap \<and> ranges = [] then Inl NoOverlap else Inr ranges))"

section \<open>The response\<close>

definition serveError :: "string \<Rightarrow> int \<Rightarrow> respWriter \<Rightarrow> respWriter panics" where
  "serveError text code w =
     http_Error text code (w\<lparr>rw_header := Header_Del (Header_Del (Header_Del (Header_Del (rw_header w)
       ''Cache-Control'') ''Content-Encoding'') ''Etag'') ''Last-Modified''\<rparr>)"

definition set_header :: "string \<Rightarrow> string \<Rightarrow> respWriter \<Rightarrow> respWriter" where
  "set_header k v w = w\<lparr>rw_header := Header_Set (rw_header w) k v\<rparr>"

definition send_content ::
  "serveEnv \<Rightarrow> request \<Rightarrow> string \<Rightarrow> (int \<times> int) list \<Rightarrow> string \<Rightarrow> respWriter \<Rightarrow> respWriter panics" where
  "send_content env r ctype ranges content w =
     (let sz = int (length content);
          (code, body, w) = (case ranges of
             [] \<Rightarrow> (200, content, w)
           | [(start, len)] \<Rightarrow> (206, take (nat len) (drop (nat start) content),
               set_header ''Content-Range''
                 (''bytes '' @ Itoa start @ ''-'' @ Itoa (start + len - 1) @ ''/'' @ Itoa sz) w)
           | _ \<Rightarrow> (206, se_multipart env ranges ctype content,
               set_header ''Content-Type'' ''multipart/byteranges'' w));
          w = set_header ''Accept-Ranges'' ''bytes'' w;
          w = (if ranges \<noteq> [] \<or> Header_Get (rw_header w) ''Content-Encoding'' = ''''
               then set_header ''Content-Length'' (Itoa (int (length body))) w else w)
      in case WriteHeader code w of
        Inl p \<Rightarrow> Inl p
      | Inr w' \<Rightarrow> Inr (if r_method r \<noteq> ''HEAD'' then Write body w' else w'))"

definition http_ServeContent ::
  "serveEnv \<Rightarrow> request \<Rightarrow> string \<Rightarrow> int \<Rightarrow> string \<Rightarrow> respWriter \<Rightarrow> respWriter panics" where
  "http_ServeContent env r name modtime content w0 =
     (let w = (if isZeroTime modtime then w0 else set_header ''Last-Modified'' (se_formatTime env modtime) w0) in
      case checkPreconditions env r modtime w of
        Inl answer \<Rightarrow> answer
      | Inr rangeReq \<Rightarrow>
          (let (ctype, w) = (case rw_header w ''Content-Type'' of
                 None \<Rightarrow> (let t = se_guessType env name content in (t, set_header ''Content-Type'' t w))
               | Some vs \<Rightarrow> (case vs of [] \<Rightarrow> '''' | v # _ \<Rightarrow> v, w));
               sz = int (length content) in
           case parseRange rangeReq sz of
             Inl InvalidRange \<Rightarrow> serveError ''invalid range'' 416 w
           | Inl NoOverlap \<Rightarrow>
               (if sz = 0 then send_content env r ctype [] content w
                else serveError ''invalid range: failed to overlap'' 416
                  (set_header ''Content-Range'' (''bytes */'' @ Itoa sz) w))
           | Inr ranges \<Rightarrow>
               send_content env r ctype (if sz < sum_list (map snd ranges) then [] else ranges) content w))"

end
