(* ===== verification/World.thy ===== *)
theory World
  imports Dot_DB Dot_FS Dot_Resp Dot_Flush Go_ServeContent
begin

text \<open>
  What the providers of a template invocation share: the response being written, the databases, the objects they allocate
  for a request (\<^verbatim>\<open>*DotDB\<close> and \<^verbatim>\<open>*dotFS\<close> pointers are indices into a heap), the open files, the pool of buffers, the
  contexts, and the NATS servers that run in the process, each with the context whose end the goroutine that shuts it down waits for
  (there is no such goroutine when the context cannot end). \<open>'d\<close> is the contents of a database.
\<close>

record 'd world =
  w_rw :: respWriter
  w_dbs :: "'d list"
  w_pools :: nat
  w_txs :: "'d DotDB list"
  w_fss :: "dotFS list"
  w_handles :: handles
  w_bufs :: "string list"
  w_parents :: "nat option list"
  w_cancelled :: "nat list"
  w_servers :: "(nat \<times> nat option) list"

text \<open>
  Code outside the repository: the drivers behind \<^verbatim>\<open>sql.Open\<close>, \<^verbatim>\<open>Ping\<close> and the transactions of each database, the
  file systems and \<^verbatim>\<open>os.DirFS\<close>, what \<^verbatim>\<open>http.ServeContent\<close> leaves open, the Unicode tables, and the order in which Go ranges over a map, as a rank
  for each key.
\<close>

record 'd env =
  e_sql :: "nat \<Rightarrow> 'd sqlDB"
  e_sqlOpen :: "string \<Rightarrow> string \<Rightarrow> nat result"
  e_ping :: "nat \<Rightarrow> gerror option"
  e_fs :: "nat \<Rightarrow> fsys"
  e_dirFS :: "string \<Rightarrow> nat"
  e_serve :: serveEnv
  e_uni :: unicode
  e_rank :: "string \<Rightarrow> nat"

text \<open>The values of the fields of a dot struct, and their types.\<close>

datatype val = VX | VReq request | VDB nat | VFlags "(string \<times> string) list" | VDir string nat | VNats | VResp DotResp
  | VFlush ctx ctx | VCustom nat any

datatype vtype = TX | TReq | TDB | TFlags | TDirT | TNats | TResp | TFlush | TCustom nat

fun type_of :: "val \<Rightarrow> vtype" where
  "type_of VX = TX"
| "type_of (VReq _) = TReq"
| "type_of (VDB _) = TDB"
| "type_of (VFlags _) = TFlags"
| "type_of (VDir _ _) = TDirT"
| "type_of VNats = TNats"
| "type_of (VResp _) = TResp"
| "type_of (VFlush _ _) = TFlush"
| "type_of (VCustom n _) = TCustom n"

section \<open>Contexts\<close>

text \<open>
  Contexts with a cancel function are numbers; a context made by \<^verbatim>\<open>context.WithCancel\<close> is done when it or an ancestor is
  cancelled. A number outside the table is \<^verbatim>\<open>context.Background()\<close>, never done.
\<close>

fun chain :: "nat option list \<Rightarrow> nat \<Rightarrow> nat list" where
  "chain parents c =
     (if c < length parents
      then c # (case parents ! c of Some p \<Rightarrow> (if p < c then chain parents p else []) | None \<Rightarrow> [])
      else [])"

declare chain.simps [simp del]

definition is_done :: "'d world \<Rightarrow> nat \<Rightarrow> bool" where
  "is_done w c \<longleftrightarrow> (\<exists>a \<in> set (chain (w_parents w) c). a \<in> set (w_cancelled w))"

definition WithCancel :: "nat \<Rightarrow> 'd world \<Rightarrow> nat \<times> 'd world" where
  "WithCancel parent w = (length (w_parents w), w\<lparr>w_parents := w_parents w @ [Some parent]\<rparr>)"

definition cancel :: "nat \<Rightarrow> 'd world \<Rightarrow> 'd world" where
  "cancel c w = w\<lparr>w_cancelled := c # w_cancelled w\<rparr>"

text \<open>\<^verbatim>\<open>ctx.Done()\<close>: nil, here \<open>None\<close>, for a context that is never done.\<close>

definition ctx_Done :: "'d world \<Rightarrow> nat \<Rightarrow> nat option" where
  "ctx_Done w c = (if c < length (w_parents w) then Some c else None)"

text \<open>The context of the server as providers see it.\<close>

definition server_ctx :: "'d world \<Rightarrow> nat \<Rightarrow> ctx" where
  "server_ctx w c = \<lparr>ctx_done = is_done w c, ctx_values = []\<rparr>"

lemma chain_append:
  "c < length ps \<Longrightarrow> chain (ps @ qs) c = chain ps c"
proof (induction ps c rule: chain.induct)
  case (1 ps c)
  then show ?case by (subst (1 2) chain.simps) (auto simp: nth_append split: option.splits)
qed

lemma chain_less: "a \<in> set (chain ps c) \<Longrightarrow> a \<le> c \<and> c < length ps"
proof (induction ps c rule: chain.induct)
  case (1 ps c)
  then show ?case by (subst (asm) (2) chain.simps) (force split: if_splits option.splits)
qed

text \<open>A new context is done exactly when its parent is; the others are as before.\<close>

lemma is_done_WithCancel:
  assumes "WithCancel p w = (c, w')" and "p < length (w_parents w)" and "\<forall>a \<in> set (w_cancelled w). a < length (w_parents w)"
  shows "c = length (w_parents w)" and "is_done w' c = is_done w p"
    and "\<And>x. x < length (w_parents w) \<Longrightarrow> is_done w' x = is_done w x"
proof -
  have w': "w' = w\<lparr>w_parents := w_parents w @ [Some p]\<rparr>" and c: "c = length (w_parents w)"
    using assms(1) by (auto simp: WithCancel_def)
  show "c = length (w_parents w)" by (rule c)
  have "chain (w_parents w @ [Some p]) c = c # chain (w_parents w) p"
    using assms(2) by (subst chain.simps) (simp add: c nth_append chain_append)
  then show "is_done w' c = is_done w p" using assms(3) by (auto simp: is_done_def w' c)
  show "is_done w' x = is_done w x" if "x < length (w_parents w)" for x
    using that by (simp add: is_done_def w' chain_append)
qed

lemma is_done_cancel:
  "is_done (cancel c w) x \<longleftrightarrow> is_done w x \<or> c \<in> set (chain (w_parents w) x)"
  by (auto simp: is_done_def cancel_def)

end
