(* ===== verification/Config.thy ===== *)
theory Config
  imports World
begin

text \<open>
  The configuration (\<^verbatim>\<open>config.go\<close>) with the configurations of the providers (\<^verbatim>\<open>dot_db_config.go\<close>, \<^verbatim>\<open>dot_fs_config.go\<close>,
  \<^verbatim>\<open>dot_flags.go\<close>, \<^verbatim>\<open>dot_nats_config.go\<close>) and the options that change it. A \<^verbatim>\<open>*sql.DB\<close>, an \<^verbatim>\<open>fs.FS\<close> and a context are numbers, a
  logger is the text of its attributes, and nil is \<open>None\<close>. A custom provider is its \<^verbatim>\<open>Init\<close> method and the rest of it.
\<close>

record DotDBConfig =
  dbc_DB :: "nat option"
  dbc_TxOptions :: string
  dbc_Name :: string
  dbc_Driver :: string
  dbc_Connstr :: string
  dbc_MaxOpenConns :: int

record DotFlagsConfig =
  flc_Name :: string
  flc_Values :: "(string \<times> string) list"

record DotDirConfig =
  dic_Name :: string
  dic_FS :: "nat option"
  dic_Path :: string

text \<open>The options of the NATS client are opaque; a connection is a number.\<close>

record NatsConfig =
  nac_server :: "string option"
  nac_conn :: "string option"
  nac_js :: "string list"

record DotNatsConfig =
  nc_Name :: string
  nc_config :: "NatsConfig option"
  nc_Conn :: "nat option"
  nc_server :: "nat option"
  nc_js :: "nat option"

type_synonym 'd custom = "(ctx \<Rightarrow> 'd world \<Rightarrow> gerror option \<times> 'd world) \<times> ('d world, val) dotConfig"
type_synonym funcMap = "string \<Rightarrow> nat option"

record 'd Config =
  TemplatesDir :: string
  TemplatesFS :: "nat option"
  TemplateExtension :: string
  Minify :: bool
  Databases :: "DotDBConfig list"
  Flags :: "DotFlagsConfig list"
  Directories :: "DotDirConfig list"
  Nats :: "DotNatsConfig list"
  CustomProviders :: "'d custom list"
  LDelim :: string
  RDelim :: string
  FuncMaps :: "funcMap list"
  Ctx :: "nat option"
  Logger :: "string option"

definition empty_config :: "'d Config" where
  "empty_config = \<lparr>TemplatesDir = '''', TemplatesFS = None, TemplateExtension = '''', Minify = False, Databases = [],
     Flags = [], Directories = [], Nats = [], CustomProviders = [], LDelim = '''', RDelim = '''', FuncMaps = [],
     Ctx = None, Logger = None\<rparr>"

section \<open>Defaults\<close>

text \<open>\<open>bg\<close> is \<^verbatim>\<open>context.Background()\<close>.\<close>

definition Defaults :: "nat \<Rightarrow> 'd Config \<Rightarrow> 'd Config" where
  "Defaults bg c =
     c\<lparr>TemplatesDir := (if TemplatesDir c = '''' then ''templates'' else TemplatesDir c),
       TemplateExtension := (if TemplateExtension c = '''' then ''.html'' else TemplateExtension c),
       LDelim := (if LDelim c = '''' then ''{{'' else LDelim c),
       RDelim := (if RDelim c = '''' then ''}}'' else RDelim c),
       Logger := (if Logger c = None then Some ''default'' else Logger c),
       Ctx := (if Ctx c = None then Some bg else Ctx c)\<rparr>"

definition New :: "nat \<Rightarrow> 'd Config" where
  "New bg = Defaults bg empty_config"

section \<open>Options\<close>

type_synonym 'd option_fun = "'d Config \<Rightarrow> gerror option \<times> 'd Config"

text \<open>The config is changed in place: an option that fails leaves what the options before it did.\<close>

fun Options :: "'d option_fun list \<Rightarrow> 'd Config \<Rightarrow> gerror option \<times> 'd Config" where
  "Options [] c = (None, c)"
| "Options (f # fs) c =
     (case f c of
        (Some err, c') \<Rightarrow> (Some (Wrapf ''failed to apply xtemplate config option'' err), c')
      | (None, c') \<Rightarrow> Options fs c')"

definition WithTemplateFS :: "nat option \<Rightarrow> 'd option_fun" where
  "WithTemplateFS fs c = (if fs = None then (Some (ErrMsg ''nil fs''), c) else (None, c\<lparr>TemplatesFS := fs\<rparr>))"

definition WithLogger :: "string option \<Rightarrow> 'd option_fun" where
  "WithLogger logger c = (if logger = None then (Some (ErrMsg ''nil logger''), c) else (None, c\<lparr>Logger := logger\<rparr>))"

definition WithFuncMaps :: "funcMap list \<Rightarrow> 'd option_fun" where
  "WithFuncMaps fm c = (None, c\<lparr>FuncMaps := FuncMaps c @ fm\<rparr>)"

definition WithProvider :: "'d custom \<Rightarrow> 'd option_fun" where
  "WithProvider p c = (None, c\<lparr>CustomProviders := CustomProviders c @ [p]\<rparr>)"

definition WithDB :: "string \<Rightarrow> nat option \<Rightarrow> string \<Rightarrow> 'd option_fun" where
  "WithDB name db opt c =
     (if db = None then (Some (ErrMsg (''cannot create database provider with nil sql.DB. name: '' @ name)), c)
      else (None, c\<lparr>Databases := Databases c @ [\<lparr>dbc_DB = db, dbc_TxOptions = opt, dbc_Name = name, dbc_Driver = '''',
              dbc_Connstr = '''', dbc_MaxOpenConns = 0\<rparr>]\<rparr>))"

definition WithDir :: "string \<Rightarrow> nat option \<Rightarrow> 'd option_fun" where
  "WithDir name fs c =
     (if fs = None then (Some (ErrMsg (''cannot create DotFSProvider with null FS with name '' @ name)), c)
      else (None, c\<lparr>Directories := Directories c @ [\<lparr>dic_Name = name, dic_FS = fs, dic_Path = ''''\<rparr>]\<rparr>))"

definition WithFlags :: "string \<Rightarrow> (string \<times> string) list option \<Rightarrow> 'd option_fun" where
  "WithFlags name flags c =
     (case flags of
        None \<Rightarrow> (Some (ErrMsg (''cannot create DotKVProvider with null map with name '' @ name)), c)
      | Some m \<Rightarrow> (None, c\<lparr>Flags := Flags c @ [\<lparr>flc_Name = name, flc_Values = m\<rparr>]\<rparr>))"

definition WithNats :: "string \<Rightarrow> string option \<Rightarrow> string option \<Rightarrow> string list \<Rightarrow> 'd option_fun" where
  "WithNats name serverOpts connOpts jsOpts c =
     (None, c\<lparr>Nats := Nats c @ [\<lparr>nc_Name = name,
        nc_config = Some \<lparr>nac_server = serverOpts, nac_conn = connOpts, nac_js = jsOpts\<rparr>,
        nc_Conn = None, nc_server = None, nc_js = None\<rparr>]\<rparr>)"

section \<open>What they guarantee\<close>

definition complete_config :: "'d Config \<Rightarrow> bool" where
  "complete_config c \<longleftrightarrow> TemplatesDir c \<noteq> '''' \<and> TemplateExtension c \<noteq> '''' \<and> LDelim c \<noteq> '''' \<and> RDelim c \<noteq> ''''
     \<and> Logger c \<noteq> None \<and> Ctx c \<noteq> None"

lemma Defaults_complete: "complete_config (Defaults bg c)"
  by (simp add: complete_config_def Defaults_def)

lemma Defaults_keeps: "complete_config c \<Longrightarrow> Defaults bg c = c"
  by (simp add: complete_config_def Defaults_def)

text \<open>The options the program offers.\<close>

inductive std_option :: "'d option_fun \<Rightarrow> bool" where
  "std_option (WithTemplateFS fs)"
| "std_option (WithLogger l)"
| "std_option (WithFuncMaps fm)"
| "std_option (WithProvider p)"
| "std_option (WithDB n db opt)"
| "std_option (WithDir n fs)"
| "std_option (WithFlags n m)"
| "std_option (WithNats n so co jo)"

lemmas option_defs = WithTemplateFS_def WithLogger_def WithFuncMaps_def WithProvider_def WithDB_def WithDir_def
  WithFlags_def WithNats_def

lemma std_option_complete: "std_option f \<Longrightarrow> complete_config c \<Longrightarrow> complete_config (snd (f c))"
  by (induction rule: std_option.induct) (auto simp: option_defs complete_config_def split: option.splits)

text \<open>Every provider and function of \<open>c\<close> is in \<open>c'\<close>, in its place.\<close>

definition extends_config :: "'d Config \<Rightarrow> 'd Config \<Rightarrow> bool" where
  "extends_config c c' \<longleftrightarrow> prefix (Databases c) (Databases c') \<and> prefix (Flags c) (Flags c')
     \<and> prefix (Directories c) (Directories c') \<and> prefix (Nats c) (Nats c')
     \<and> prefix (CustomProviders c) (CustomProviders c') \<and> prefix (FuncMaps c) (FuncMaps c')"

lemma extends_config_trans: "extends_config a b \<Longrightarrow> extends_config b c \<Longrightarrow> extends_config a c"
  unfolding extends_config_def by (elim conjE, intro conjI) (erule (1) prefix_order.trans)+

lemma std_option_extends: "std_option f \<Longrightarrow> fst (f c) = None \<Longrightarrow> extends_config c (snd (f c))"
  by (induction rule: std_option.induct) (auto simp: option_defs extends_config_def split: option.splits if_splits)

lemma std_option_fails: "std_option f \<Longrightarrow> f c = (Some e, c') \<Longrightarrow> c' = c"
  by (induction rule: std_option.induct) (auto simp: option_defs split: option.splits if_splits)

lemma Options_keeps:
  assumes "\<forall>f \<in> set fs. std_option f" and "complete_config c"
  shows "complete_config (snd (Options fs c))"
  using assms
proof (induction fs arbitrary: c)
  case (Cons f fs)
  obtain e c' where f: "f c = (e, c')" by force
  have "complete_config c'" using std_option_complete [of f c] Cons.prems f by simp
  with Cons f show ?case by (cases e) simp_all
qed simp

lemma Options_extends:
  "\<forall>f \<in> set fs. std_option f \<Longrightarrow> Options fs c = (None, c') \<Longrightarrow> extends_config c c'"
proof (induction fs arbitrary: c)
  case Nil
  then show ?case by (simp add: extends_config_def)
next
  case (Cons f fs)
  from Cons.prems(2) obtain c1 where c1: "f c = (None, c1)" "Options fs c1 = (None, c')"
    by (auto split: prod.splits option.splits)
  have "extends_config c c1" using std_option_extends [of f c] c1(1) Cons.prems(1) by simp
  moreover have "extends_config c1 c'" using Cons.IH [OF _ c1(2)] Cons.prems(1) by simp
  ultimately show ?case by (rule extends_config_trans)
qed

lemma Defaults_extends: "extends_config (Defaults bg c) c' = extends_config c c'"
  by (simp add: extends_config_def Defaults_def)

text \<open>\<^verbatim>\<open>Defaults\<close> makes a config complete, and the options of the program can then be applied: they keep the config
  complete, so that the second \<^verbatim>\<open>Defaults\<close>, which \<^verbatim>\<open>Instance\<close> calls, changes nothing; and when they all succeed no provider
  configured before them is lost or moved.\<close>

theorem Defaults_Options:
  assumes "\<forall>f \<in> set fs. std_option f" and "Options fs (Defaults bg c) = (err, c')"
  shows "complete_config c' \<and> Defaults bg' c' = c' \<and> (err = None \<longrightarrow> extends_config c c')"
proof -
  have complete: "complete_config c'" using Options_keeps [OF assms(1) Defaults_complete, of bg c] assms(2) by simp
  moreover have "err = None \<longrightarrow> extends_config c c'"
    using Options_extends [OF assms(1), of "Defaults bg c"] assms(2) by (auto simp: Defaults_extends)
  ultimately show ?thesis using Defaults_keeps by blast
qed

section \<open>Examples\<close>

lemma Defaults_Options_witness:
  "\<exists>c'. Options [WithDB ''DB'' (Some 0) '''', WithDir ''FS'' (Some 1)] (Defaults 0 (empty_config :: nat Config)) = (None, c')
     \<and> complete_config c'"
proof -
  let ?fs = "[WithDB ''DB'' (Some 0) '''', WithDir ''FS'' (Some 1)] :: nat option_fun list"
  have std: "\<forall>f \<in> set ?fs. std_option f" by (simp add: std_option.intros)
  obtain c' where c': "Options ?fs (Defaults 0 empty_config) = (None, c')" by (simp add: option_defs)
  from Defaults_Options [OF std c', of 0] c' show ?thesis by blast
qed

end
