(* ===== verification/Providers.thy ===== *)
theory Providers
  imports Config
begin

text \<open>
  The providers as members of a dot: how each is initialised, and its \<^verbatim>\<open>Value\<close> and \<^verbatim>\<open>Cleanup\<close> as functions on the world.
  \<^verbatim>\<open>Config.Instance\<close> keeps pointers to copies of the configurations, so an \<^verbatim>\<open>Init\<close> that stores something in its receiver gives
  a changed configuration here.
\<close>

section \<open>Init\<close>

definition DotDBConfig_Init :: "'d env \<Rightarrow> DotDBConfig \<Rightarrow> 'd world \<Rightarrow> gerror option \<times> DotDBConfig \<times> 'd world" where
  "DotDBConfig_Init env d w =
     (if dbc_DB d \<noteq> None then (None, d, w)
      else case e_sqlOpen env (dbc_Driver d) (dbc_Connstr d) of
        Inl err \<Rightarrow> (Some (Wrapf (''failed to open database with driver name '' @ single_quoted (dbc_Driver d)) err), d, w)
      | Inr db \<Rightarrow>
          (let w1 = w\<lparr>w_pools := Suc (w_pools w)\<rparr> in
           case e_ping env db of
             Some err \<Rightarrow> (Some (Wrapf ''failed to ping database on open'' err), d, w1)
           | None \<Rightarrow> (None, d\<lparr>dbc_DB := Some db\<rparr>, w1)))"

definition DotDirConfig_Init :: "'d env \<Rightarrow> DotDirConfig \<Rightarrow> gerror option \<times> DotDirConfig" where
  "DotDirConfig_Init env p =
     (if dic_FS p \<noteq> None then (None, p)
      else let newfs = e_dirFS env (dic_Path p) in
        case fs_node (e_fs env newfs) ''.'' of
          Inl err \<Rightarrow> (Some (Wrapf (''failed to stat fs current directory '' @ single_quoted (dic_Path p)) err), p)
        | Inr _ \<Rightarrow> (None, p\<lparr>dic_FS := Some newfs\<rparr>))"

text \<open>
  The NATS client and server: starting an in-process server, the default options, connecting with options and perhaps
  through an in-process server, and making a JetStream.
\<close>

record nats =
  na_NewServer :: "string \<Rightarrow> nat result"
  na_default :: string
  na_Connect :: "string \<Rightarrow> nat option \<Rightarrow> nat result"
  na_jetstream :: "nat \<Rightarrow> string list \<Rightarrow> nat result"

definition result_pair :: "'a result \<Rightarrow> 'a option \<times> gerror option" where
  "result_pair r = (case r of Inl e \<Rightarrow> (None, Some e) | Inr a \<Rightarrow> (Some a, None))"

definition set_js :: "nat option \<times> gerror option \<Rightarrow> DotNatsConfig \<Rightarrow> gerror option \<times> DotNatsConfig" where
  "set_js r d = (case r of (js, err) \<Rightarrow> (err, d\<lparr>nc_js := js\<rparr>))"

text \<open>\<^verbatim>\<open>Start\<close>, and the goroutine that waits for the context of the instance to shut the server down.\<close>

definition start_server :: "nat \<Rightarrow> nat \<Rightarrow> 'd world \<Rightarrow> 'd world" where
  "start_server srv c w = w\<lparr>w_servers := w_servers w @ [(srv, ctx_Done w c)]\<rparr>"

definition shutdown_server :: "nat \<times> nat option \<Rightarrow> 'd world \<Rightarrow> 'd world" where
  "shutdown_server s w = w\<lparr>w_servers := remove1 s (w_servers w)\<rparr>"

definition DotNatsConfig_Init :: "nats \<Rightarrow> nat \<Rightarrow> DotNatsConfig \<Rightarrow> 'd world \<Rightarrow> gerror option \<times> DotNatsConfig \<times> 'd world" where
  "DotNatsConfig_Init na c d w =
     (case nc_Conn d of
        Some conn \<Rightarrow>
          (if nc_js d = None
           then (case set_js (result_pair (na_jetstream na conn (case nc_config d of Some cfg \<Rightarrow> nac_js cfg | None \<Rightarrow> []))) d of
                   (err, d') \<Rightarrow> (err, d', w))
           else (None, d, w))
      | None \<Rightarrow>
          (case nc_config d of
             None \<Rightarrow> (Some (ErrMsg ''no nats client and no config provided to initialzie nats client''), d, w)
           | Some cfg \<Rightarrow>
               (let connOpt = (case nac_conn cfg of None \<Rightarrow> na_default na | Some opt \<Rightarrow> opt) in
                case (case nac_server cfg of
                        None \<Rightarrow> Inr (None, d, w)
                      | Some opts \<Rightarrow>
                          (case na_NewServer na opts of
                             Inl err \<Rightarrow> Inl (Wrapf ''failed to start in-process nats server'' err)
                           | Inr srv \<Rightarrow> Inr (Some srv, d\<lparr>nc_server := Some srv\<rparr>, start_server srv c w))) of
                  Inl err \<Rightarrow> (Some err, d\<lparr>nc_server := None\<rparr>, w)
                | Inr (srv, d1, w1) \<Rightarrow>
                    (case na_Connect na connOpt srv of
                       Inl err \<Rightarrow> (Some (Wrapf ''failed to connect to in-process server'' err), d1, w1)
                     | Inr conn \<Rightarrow>
                         (case set_js (result_pair (na_jetstream na conn (nac_js cfg))) (d1\<lparr>nc_Conn := Some conn\<rparr>) of
                            (err, d2) \<Rightarrow> (err, d2, w1))))))"

datatype 'd provider = PDB DotDBConfig | PFlags DotFlagsConfig | PDir DotDirConfig | PNats DotNatsConfig | PCustom "'d custom"

text \<open>The loop over all providers of the config, in its order; it stops at the first error.\<close>

definition config_providers :: "'d Config \<Rightarrow> 'd provider list" where
  "config_providers c = map PDB (Databases c) @ map PFlags (Flags c) @ map PDir (Directories c) @ map PNats (Nats c)
     @ map PCustom (CustomProviders c)"

fun provider_name :: "'d provider \<Rightarrow> string" where
  "provider_name (PDB d) = dbc_Name d"
| "provider_name (PFlags d) = flc_Name d"
| "provider_name (PDir d) = dic_Name d"
| "provider_name (PNats d) = nc_Name d"
| "provider_name (PCustom p) = FieldName (snd p)"

fun provider_Init :: "'d env \<Rightarrow> nats \<Rightarrow> nat \<Rightarrow> 'd provider \<Rightarrow> 'd world \<Rightarrow> gerror option \<times> 'd provider \<times> 'd world" where
  "provider_Init env na c (PDB d) w = (case DotDBConfig_Init env d w of (err, d', w') \<Rightarrow> (err, PDB d', w'))"
| "provider_Init env na c (PFlags d) w = (None, PFlags d, w)"
| "provider_Init env na c (PDir d) w = (case DotDirConfig_Init env d of (err, d') \<Rightarrow> (err, PDir d', w))"
| "provider_Init env na c (PNats d) w = (case DotNatsConfig_Init na c d w of (err, d', w') \<Rightarrow> (err, PNats d', w'))"
| "provider_Init env na c (PCustom p) w = (case fst p (server_ctx w c) w of (err, w') \<Rightarrow> (err, PCustom p, w'))"

fun init_providers ::
  "'d env \<Rightarrow> nats \<Rightarrow> nat \<Rightarrow> 'd provider list \<Rightarrow> 'd world \<Rightarrow> (gerror + 'd provider list) \<times> 'd world" where
  "init_providers env na c [] w = (Inr [], w)"
| "init_providers env na c (p # ps) w =
     (case provider_Init env na c p w of
        (Some err, _, w1) \<Rightarrow> (Inl (Wrapf (''failed to initialize dot field '' @ single_quoted (provider_name p)) err), w1)
      | (None, p', w1) \<Rightarrow>
          (case init_providers env na c ps w1 of
             (Inl e, w2) \<Rightarrow> (Inl e, w2)
           | (Inr ps', w2) \<Rightarrow> (Inr (p' # ps'), w2)))"

section \<open>Value and Cleanup\<close>

definition bad_assertion :: "'a panics" where
  "bad_assertion = Inl ''interface conversion''"

definition dotX :: "('d world, val) dotConfig" where
  "dotX = \<lparr>FieldName = ''X'', Value = (\<lambda>_ w. ((Some VX, None), w)),
     Cleanup = Some (\<lambda>_ err w. Inr (if (case err of Some e \<Rightarrow> is_return e | None \<Rightarrow> False) then None else err, w))\<rparr>"

definition dotReq :: "('d world, val) dotConfig" where
  "dotReq = \<lparr>FieldName = ''Req'', Value = (\<lambda>q w. ((Some (VReq (q_r q)), None), w)), Cleanup = None\<rparr>"

definition resp_Cleanup :: "('d world, val) cleanup_fun" where
  "resp_Cleanup v err w =
     (case v of
        VResp d \<Rightarrow> map_sum id (\<lambda>(err', rw). (err', w\<lparr>w_rw := rw\<rparr>)) (dotResp_Cleanup d err (w_rw w))
      | _ \<Rightarrow> bad_assertion)"

definition dotResp :: "('d world, val) dotConfig" where
  "dotResp = \<lparr>FieldName = ''Resp'', Value = (\<lambda>_ w. ((Some (VResp dotResp_Value), None), w)), Cleanup = Some resp_Cleanup\<rparr>"

definition flush_Cleanup :: "('d world, val) cleanup_fun" where
  "flush_Cleanup v err w =
     (case v of
        VFlush _ _ \<Rightarrow> (case dotFlush_Cleanup err (w_rw w) of (err', rw) \<Rightarrow> Inr (err', w\<lparr>w_rw := rw\<rparr>))
      | _ \<Rightarrow> bad_assertion)"

definition dotFlush :: "('d world, val) dotConfig" where
  "dotFlush = \<lparr>FieldName = ''Flush'',
     Value = (\<lambda>q w. ((case dotFlush_Value q of (v, err) \<Rightarrow> (map_option (\<lambda>(s, r). VFlush s r) v, err)), w)),
     Cleanup = Some flush_Cleanup\<rparr>"

definition db_Value :: "Request \<Rightarrow> 'd world \<Rightarrow> (val option \<times> gerror option) \<times> 'd world" where
  "db_Value q w = ((Some (VDB (length (w_txs w))), None), w\<lparr>w_txs := w_txs w @ [dotDB_Value (r_ctx (q_r q))]\<rparr>)"

definition db_Cleanup :: "'d env \<Rightarrow> nat \<Rightarrow> ('d world, val) cleanup_fun" where
  "db_Cleanup env h v err w =
     (case v of
        VDB p \<Rightarrow>
          (case dotDB_Cleanup (e_sql env h) (w_txs w ! p) err (w_dbs w ! h) of
             (err', c', d') \<Rightarrow> Inr (err', w\<lparr>w_dbs := (w_dbs w)[h := c'], w_txs := (w_txs w)[p := d']\<rparr>))
      | _ \<Rightarrow> bad_assertion)"

definition dir_Value :: "Request \<Rightarrow> 'd world \<Rightarrow> (val option \<times> gerror option) \<times> 'd world" where
  "dir_Value q w = (case dotFS_Value of
     (path, d) \<Rightarrow> ((Some (VDir path (length (w_fss w))), None), w\<lparr>w_fss := w_fss w @ [d]\<rparr>))"

definition dir_Cleanup :: "'d env \<Rightarrow> nat \<Rightarrow> ('d world, val) cleanup_fun" where
  "dir_Cleanup env f v err w =
     (case v of
        VDir _ p \<Rightarrow>
          (case dotFS_Cleanup (e_fs env f) (w_fss w ! p) err (w_handles w) of
             (err', h') \<Rightarrow> Inr (err', w\<lparr>w_handles := h'\<rparr>))
      | _ \<Rightarrow> bad_assertion)"

text \<open>A provider whose \<^verbatim>\<open>Init\<close> succeeded, as a member of the dot.\<close>

fun provider_dot :: "'d env \<Rightarrow> 'd provider \<Rightarrow> ('d world, val) dotConfig" where
  "provider_dot env (PDB d) = \<lparr>FieldName = dbc_Name d, Value = db_Value, Cleanup = Some (db_Cleanup env (the (dbc_DB d)))\<rparr>"
| "provider_dot env (PFlags d) = \<lparr>FieldName = flc_Name d, Value = (\<lambda>_ w. ((Some (VFlags (flc_Values d)), None), w)), Cleanup = None\<rparr>"
| "provider_dot env (PDir d) = \<lparr>FieldName = dic_Name d, Value = dir_Value, Cleanup = Some (dir_Cleanup env (the (dic_FS d)))\<rparr>"
| "provider_dot env (PNats d) = \<lparr>FieldName = nc_Name d, Value = (\<lambda>_ w. ((Some VNats, None), w)), Cleanup = None\<rparr>"
| "provider_dot env (PCustom p) = snd p"

section \<open>The contract of a provider between X and Resp\<close>

text \<open>
  A \<^verbatim>\<open>Cleanup\<close> that keeps an error, leaves the response alone, and neither touches another database nor leaves a
  transaction behind: the laws the order of cleanups relies on.
\<close>

locale inner_provider = error_keeper cleanup for cleanup :: "('d world, val) cleanup_fun" +
  assumes keeps_response: "cleanup v err w = Inr (err', w') \<Longrightarrow> w_rw w' = w_rw w"

locale bystander = inner_provider cleanup for cleanup :: "('d world, val) cleanup_fun" +
  assumes keeps_databases: "cleanup v err w = Inr (err', w') \<Longrightarrow> w_dbs w' = w_dbs w \<and> w_txs w' = w_txs w"
    and keeps_status: "cleanup v (Some e) w = Inr (Some e', w') \<Longrightarrow> errors_As kind_status e' = errors_As kind_status e"

interpretation db_inner: inner_provider "db_Cleanup env h" for env h
  by unfold_locales (auto simp: db_Cleanup_def bad_assertion_def split: val.splits prod.splits dest: dotDB_Cleanup_keeps_error)

interpretation dir_bystander: bystander "dir_Cleanup env f" for env f
  by unfold_locales (auto simp: dir_Cleanup_def dotFS_Cleanup_def bad_assertion_def split: val.splits prod.splits)

interpretation flush_keeps: error_keeper flush_Cleanup
  by unfold_locales (auto simp: flush_Cleanup_def dotFlush_Cleanup_def bad_assertion_def split: val.splits prod.splits if_splits)

text \<open>
  What is asked of a custom provider: its \<^verbatim>\<open>Cleanup\<close> is a bystander that does not panic, and its \<^verbatim>\<open>Value\<close> gives a value of its own and
  leaves the response and the databases alone.
\<close>

definition custom_ok :: "'d custom \<Rightarrow> bool" where
  "custom_ok p \<longleftrightarrow>
     (\<forall>c. Cleanup (snd p) = Some c \<longrightarrow> bystander c \<and> (\<forall>v err w. \<exists>x. c v err w = Inr x))
     \<and> (\<forall>q w. w_rw (snd (Value (snd p) q w)) = w_rw w \<and> w_dbs (snd (Value (snd p) q w)) = w_dbs w
          \<and> w_txs (snd (Value (snd p) q w)) = w_txs w)
     \<and> (\<forall>q w a. fst (fst (Value (snd p) q w)) = Some a \<longrightarrow> (\<exists>n x. a = VCustom n x))"

fun provider_ok :: "'d provider \<Rightarrow> bool" where
  "provider_ok (PCustom p) = custom_ok p"
| "provider_ok _ = True"

text \<open>The databases of the request: the handle and the \<^verbatim>\<open>*DotDB\<close> of each SQL provider.\<close>

fun db_slots :: "'d provider list \<Rightarrow> val list \<Rightarrow> (nat \<times> nat) list" where
  "db_slots (PDB d # ps) (VDB p # as) = (the (dbc_DB d), p) # db_slots ps as"
| "db_slots (_ # ps) (_ # as) = db_slots ps as"
| "db_slots _ _ = []"

text \<open>The one step of \<^verbatim>\<open>cleanup\<close> that a provider takes, if it has a \<^verbatim>\<open>Cleanup\<close>.\<close>

definition provider_step ::
  "'d env \<Rightarrow> 'd provider \<Rightarrow> val \<Rightarrow> gerror option \<Rightarrow> 'd world \<Rightarrow> (gerror option \<times> 'd world) panics" where
  "provider_step env p a err w = (case Cleanup (provider_dot env p) of None \<Rightarrow> Inr (err, w) | Some c \<Rightarrow> c a err w)"

lemma cleanup_all_Cons:
  "cleanup_all (map (provider_dot env) (p # ps)) (a # as) err w =
   (case provider_step env p a err w of Inl x \<Rightarrow> Inl x
    | Inr (err', w') \<Rightarrow> cleanup_all (map (provider_dot env) ps) as err' w')"
  by (simp add: provider_step_def split: option.splits)

text \<open>An error stays an error and keeps the \<^verbatim>\<open>ErrorStatus\<close> it carries, if any.\<close>

definition same_status :: "gerror option \<Rightarrow> gerror option \<Rightarrow> bool" where
  "same_status err err' \<longleftrightarrow>
     (\<forall>e. err = Some e \<longrightarrow> (\<exists>e'. err' = Some e' \<and> errors_As kind_status e' = errors_As kind_status e))"

lemma same_status_trans: "same_status a b \<Longrightarrow> same_status b c \<Longrightarrow> same_status a c"
  unfolding same_status_def by metis

text \<open>
  What the program relies on in a database driver: transactions as \<^verbatim>\<open>database/sql\<close> documents them, and errors of its own that
  are not the program's \<^verbatim>\<open>ErrorStatus\<close>.
\<close>

definition driver_ok :: "'d sqlDB \<Rightarrow> bool" where
  "driver_ok sql \<longleftrightarrow> sql_ok sql \<and> (\<forall>c t e. fst (TxRollback sql c t) = Some e \<longrightarrow> errors_As kind_status e = None)"

lemma dotDB_Cleanup_status:
  assumes "driver_ok sql" and "dotDB_Cleanup sql d err c = (err', c', d')"
  shows "same_status err err'"
proof (cases err)
  case (Some e)
  obtain r where r: "err' = errors_Join [Some e, r]" and none: "\<forall>x. r = Some x \<longrightarrow> errors_As kind_status x = None"
    using assms Some by (auto simp: dotDB_Cleanup_def rollback_def driver_ok_def split: prod.splits option.splits) (metis fst_conv)
  then show ?thesis
    by (cases "errors_As kind_status e"; cases r) (auto simp: same_status_def Some errors_Join_pair kind_status_def)
qed (simp add: same_status_def)

lemma provider_step_other:
  assumes "provider_ok p" and "\<forall>d. p \<noteq> PDB d" and "provider_step env p a err w = Inr (err', w')"
  shows "same_status err err' \<and> w_rw w' = w_rw w \<and> w_dbs w' = w_dbs w \<and> w_txs w' = w_txs w"
proof (cases "Cleanup (provider_dot env p)")
  case None
  with assms(3) show ?thesis by (simp add: provider_step_def same_status_def)
next
  case (Some c)
  have by_c: "bystander c"
  proof (cases p)
    case (PDir x3)
    with Some show ?thesis using dir_bystander.bystander_axioms by auto
  qed (use assms(1,2) Some in \<open>auto simp: custom_ok_def\<close>)
  note inner = bystander.axioms(1) [OF by_c]
  have c: "c a err w = Inr (err', w')" using assms(3) Some by (simp add: provider_step_def)
  have "same_status err err'"
    using error_keeper.keeps_error [OF inner_provider.axioms(1) [OF inner]] bystander.keeps_status [OF by_c] c
    unfolding same_status_def by blast
  with inner_provider.keeps_response [OF inner c] bystander.keeps_databases [OF by_c c] show ?thesis by blast
qed
lemma provider_step_db:
  assumes "driver_ok (e_sql env (the (dbc_DB d)))" and "provider_step env (PDB d) a err w = Inr (err', w')"
  obtains p d' where "a = VDB p" and "w_txs w' = (w_txs w)[p := d']" and "db_tx d' = None" and "w_rw w' = w_rw w"
    and "same_status err err'"
    and "w_dbs w' = (if err' = None then (w_dbs w)[the (dbc_DB d) := view (w_dbs w ! the (dbc_DB d)) (w_txs w ! p)] else w_dbs w)"
proof -
  let ?h = "the (dbc_DB d)"
  obtain p where a: "a = VDB p"
    using assms(2) by (cases a) (auto simp: provider_step_def db_Cleanup_def bad_assertion_def)
  obtain c' d' where c: "dotDB_Cleanup (e_sql env ?h) (w_txs w ! p) err (w_dbs w ! ?h) = (err', c', d')"
    and w': "w' = w\<lparr>w_dbs := (w_dbs w)[?h := c'], w_txs := (w_txs w)[p := d']\<rparr>"
    using assms(2) by (auto simp: provider_step_def db_Cleanup_def a split: prod.splits)
  have sql: "sql_ok (e_sql env ?h)" using assms(1) by (simp add: driver_ok_def)
  note v = dotDB_Cleanup_view [OF sql c]
  have "same_status err err'" by (rule dotDB_Cleanup_status [OF assms(1) c])
  moreover have "w_dbs w' = (if err' = None then (w_dbs w)[?h := view (w_dbs w ! ?h) (w_txs w ! p)] else w_dbs w)"
    using v(2,3) by (auto simp: w')
  ultimately show ?thesis using that [OF a _ v(1)] by (simp add: w')
qed

definition tx_closed :: "'d world \<Rightarrow> nat \<Rightarrow> bool" where
  "tx_closed w p \<longleftrightarrow> p < length (w_txs w) \<and> db_tx (w_txs w ! p) = None"

text \<open>What any provider's step keeps: an error, and then the databases; the response; and closed transactions.\<close>

definition keeps :: "gerror option \<times> 'd world \<Rightarrow> gerror option \<times> 'd world \<Rightarrow> bool" where
  "keeps s s' \<longleftrightarrow> same_status (fst s) (fst s') \<and> (fst s' \<noteq> None \<and> fst s \<noteq> None \<longrightarrow> w_dbs (snd s') = w_dbs (snd s))
     \<and> w_rw (snd s') = w_rw (snd s) \<and> length (w_txs (snd s')) = length (w_txs (snd s))
     \<and> (\<forall>q. tx_closed (snd s) q \<longrightarrow> tx_closed (snd s') q)"

lemma keeps_refl: "keeps s s"
  by (simp add: keeps_def same_status_def)

lemma keeps_trans:
  assumes "keeps a b" and "keeps b c"
  shows "keeps a c"
proof -
  have 1: "same_status (fst a) (fst b)" "same_status (fst b) (fst c)" using assms unfolding keeps_def by metis+
  then have 2: "fst a \<noteq> None \<Longrightarrow> fst b \<noteq> None" "fst b \<noteq> None \<Longrightarrow> fst c \<noteq> None" by (auto simp: same_status_def)
  have "fst c \<noteq> None \<and> fst a \<noteq> None \<longrightarrow> w_dbs (snd c) = w_dbs (snd a)"
    using assms 2 unfolding keeps_def by metis
  moreover have "w_rw (snd c) = w_rw (snd a)" "length (w_txs (snd c)) = length (w_txs (snd a))"
    using assms unfolding keeps_def by metis+
  moreover have "\<forall>q. tx_closed (snd a) q \<longrightarrow> tx_closed (snd c) q" using assms unfolding keeps_def by metis
  ultimately show ?thesis using same_status_trans [OF 1] unfolding keeps_def by (intro conjI)
qed

lemma provider_step_keeps:
  assumes "\<forall>h. driver_ok (e_sql env h)" and "provider_ok p" and "provider_step env p a err w = Inr (err', w')"
  shows "keeps (err, w) (err', w')"
    and "\<And>h q. (h, q) \<in> set (db_slots [p] [a]) \<Longrightarrow> q < length (w_txs w) \<Longrightarrow> tx_closed w' q"
proof -
  have "keeps (err, w) (err', w') \<and> (\<forall>h q. (h, q) \<in> set (db_slots [p] [a]) \<longrightarrow> q < length (w_txs w) \<longrightarrow> tx_closed w' q)"
  proof (cases "\<exists>d. p = PDB d")
    case True
    then obtain d where p: "p = PDB d" by blast
    obtain q d' where s: "a = VDB q" "w_txs w' = (w_txs w)[q := d']" "db_tx d' = None" "w_rw w' = w_rw w"
        "same_status err err'"
        "w_dbs w' = (if err' = None then (w_dbs w)[the (dbc_DB d) := view (w_dbs w ! the (dbc_DB d)) (w_txs w ! q)] else w_dbs w)"
      by (rule provider_step_db [OF assms(1) [rule_format] assms(3) [unfolded p]])
    have "tx_closed w r \<Longrightarrow> tx_closed w' r" for r by (cases "r = q") (simp_all add: tx_closed_def s(2,3))
    moreover have "q < length (w_txs w) \<Longrightarrow> tx_closed w' q" by (simp add: tx_closed_def s(2,3))
    ultimately show ?thesis using s by (simp add: p keeps_def)
  next
    case False
    then have "db_slots [p] [a] = []" by (cases p) auto
    with provider_step_other [OF assms(2) _ assms(3)] False show ?thesis by (simp add: keeps_def tx_closed_def)
  qed
  then show "keeps (err, w) (err', w')"
    and "\<And>h q. (h, q) \<in> set (db_slots [p] [a]) \<Longrightarrow> q < length (w_txs w) \<Longrightarrow> tx_closed w' q" by blast+
qed

lemma db_slots_Cons: "db_slots (p # ps) (a # as) = db_slots [p] [a] @ db_slots ps as"
  by (cases p; cases a) auto

lemma cleanup_all_step:
  assumes "cleanup_all (map (provider_dot env) (p # ps)) (a # as) err w = Inr (err', w')"
  obtains err1 w1 where "provider_step env p a err w = Inr (err1, w1)"
    and "cleanup_all (map (provider_dot env) ps) as err1 w1 = Inr (err', w')"
  using assms unfolding cleanup_all_Cons by (auto split: sum.splits)

lemma cleanup_keeps:
  assumes "\<forall>h. driver_ok (e_sql env h)" and "\<forall>p \<in> set ps. provider_ok p" and "length as = length ps"
    and "cleanup_all (map (provider_dot env) ps) as err w = Inr (err', w')"
  shows "keeps (err, w) (err', w')"
  using assms(2-4)
proof (induction ps arbitrary: as err w)
  case (Cons p ps)
  then obtain a as' where as: "as = a # as'" by (cases as) auto
  obtain err1 w1 where st: "provider_step env p a err w = Inr (err1, w1)"
    and rest: "cleanup_all (map (provider_dot env) ps) as' err1 w1 = Inr (err', w')"
    by (rule cleanup_all_step [OF Cons.prems(3) [unfolded as]])
  have "keeps (err, w) (err1, w1)" by (rule provider_step_keeps [OF assms(1) _ st]) (use Cons.prems(1) in simp)
  moreover have "keeps (err1, w1) (err', w')" by (rule Cons.IH [OF _ _ rest]) (use Cons.prems as in simp_all)
  ultimately show ?case by (rule keeps_trans)
qed (simp add: keeps_refl)

lemma cleanup_closes:
  assumes "\<forall>h. driver_ok (e_sql env h)" and "\<forall>p \<in> set ps. provider_ok p" and "length as = length ps"
    and "cleanup_all (map (provider_dot env) ps) as err w = Inr (err', w')"
    and "(h, q) \<in> set (db_slots ps as)" and "q < length (w_txs w)"
  shows "tx_closed w' q"
  using assms(2-6)
proof (induction ps arbitrary: as err w)
  case (Cons p ps)
  then obtain a as' where as: "as = a # as'" by (cases as) auto
  obtain err1 w1 where st: "provider_step env p a err w = Inr (err1, w1)"
    and rest: "cleanup_all (map (provider_dot env) ps) as' err1 w1 = Inr (err', w')"
    by (rule cleanup_all_step [OF Cons.prems(3) [unfolded as]])
  have ok: "provider_ok p" "\<forall>p \<in> set ps. provider_ok p" "length as' = length ps" using Cons.prems(1,2) as by simp_all
  have "(h, q) \<in> set (db_slots [p] [a]) \<or> (h, q) \<in> set (db_slots ps as')"
    using Cons.prems(4) unfolding as db_slots_Cons [of p ps a as'] set_append by (rule UnE) simp_all
  then show ?case
  proof
    assume "(h, q) \<in> set (db_slots [p] [a])"
    then have "tx_closed w1 q" by (rule provider_step_keeps(2) [OF assms(1) ok(1) st _ Cons.prems(5)])
    with cleanup_keeps [OF assms(1) ok(2,3) rest] show ?thesis by (simp add: keeps_def)
  next
    assume "(h, q) \<in> set (db_slots ps as')"
    moreover have "q < length (w_txs w1)"
      using provider_step_keeps(1) [OF assms(1) ok(1) st] Cons.prems(5) by (simp add: keeps_def)
    ultimately show ?thesis by (rule Cons.IH [OF ok(2,3) rest])
  qed
qed simp

text \<open>When every step succeeds, the contents of each database are those its transaction saw.\<close>

lemma cleanup_commits:
  assumes "\<forall>h. driver_ok (e_sql env h)" and "\<forall>p \<in> set ps. provider_ok p" and "length as = length ps"
    and "cleanup_all (map (provider_dot env) ps) as None w = Inr (None, w')"
    and "distinct (map fst (db_slots ps as))" and "distinct (map snd (db_slots ps as))"
  shows "w_dbs w' = foldl (\<lambda>dbs (h, q). dbs[h := view (w_dbs w ! h) (w_txs w ! q)]) (w_dbs w) (db_slots ps as)"
  using assms(2-6)
proof (induction ps arbitrary: as w)
  case (Cons p ps)
  then obtain a as' where as: "as = a # as'" by (cases as) auto
  obtain err1 w1 where st: "provider_step env p a None w = Inr (err1, w1)"
    and rest: "cleanup_all (map (provider_dot env) ps) as' err1 w1 = Inr (None, w')"
    using Cons.prems(3) unfolding as cleanup_all_Cons by (auto split: sum.splits)
  have ok: "\<forall>p \<in> set ps. provider_ok p" "length as' = length ps" using Cons.prems(1,2) as by simp_all
  have err1: "err1 = None" using cleanup_keeps [OF assms(1) ok rest] by (auto simp: keeps_def same_status_def)
  have d: "distinct (map fst (db_slots ps as'))" "distinct (map snd (db_slots ps as'))"
    using Cons.prems(4,5) unfolding as db_slots_Cons [of p ps a as'] by auto
  have IH: "w_dbs w' = foldl (\<lambda>dbs (h, q). dbs[h := view (w_dbs w1 ! h) (w_txs w1 ! q)]) (w_dbs w1) (db_slots ps as')"
    by (rule Cons.IH [OF ok rest [unfolded err1] d])
  show ?case
  proof (cases "\<exists>d. p = PDB d")
    case True
    then obtain d where p: "p = PDB d" by blast
    let ?h = "the (dbc_DB d)"
    obtain q d' where s: "a = VDB q" "w_txs w1 = (w_txs w)[q := d']"
        "w_dbs w1 = (if err1 = None then (w_dbs w)[?h := view (w_dbs w ! ?h) (w_txs w ! q)] else w_dbs w)"
      by (rule provider_step_db [OF assms(1) [rule_format] st [unfolded p]])
    have fresh: "?h \<notin> fst ` set (db_slots ps as')" "q \<notin> snd ` set (db_slots ps as')"
      using Cons.prems(4,5) by (simp_all add: as p s(1))
    have "foldl (\<lambda>dbs (h, q). dbs[h := view (w_dbs w1 ! h) (w_txs w1 ! q)]) acc xs
        = foldl (\<lambda>dbs (h, q). dbs[h := view (w_dbs w ! h) (w_txs w ! q)]) acc xs"
      if "set xs \<subseteq> set (db_slots ps as')" for acc xs
      using that
    proof (induction xs arbitrary: acc)
      case (Cons x xs)
      obtain h q' where x: "x = (h, q')" by force
      have "h \<noteq> ?h" "q' \<noteq> q" using fresh Cons.prems by (force simp: x)+
      with Cons show ?case by (simp add: x s(2,3) err1)
    qed simp
    then show ?thesis using IH s(3) by (simp add: as p s(1) err1)
  next
    case False
    then have "db_slots (p # ps) (a # as') = db_slots ps as'" by (cases p) auto
    moreover have "w_dbs w1 = w_dbs w \<and> w_txs w1 = w_txs w"
      using provider_step_other [OF _ _ st] Cons.prems(1) False by simp
    ultimately show ?thesis using IH by (simp add: as)
  qed
qed auto

section \<open>The values of the providers\<close>

fun slot_ok :: "'d provider \<Rightarrow> val \<Rightarrow> bool" where
  "slot_ok (PDB d) a = (case a of VDB p \<Rightarrow> True | _ \<Rightarrow> False)"
| "slot_ok (PFlags d) a = (a = VFlags (flc_Values d))"
| "slot_ok (PDir d) a = (case a of VDir path p \<Rightarrow> True | _ \<Rightarrow> False)"
| "slot_ok (PNats d) a = (a = VNats)"
| "slot_ok (PCustom d) a = (case a of VCustom n x \<Rightarrow> True | _ \<Rightarrow> False)"

lemma provider_value:
  assumes "provider_ok p" and "Value (provider_dot env p) q w = ((Some a, err), w')"
  shows "slot_ok p a \<and> w_rw w' = w_rw w \<and> w_dbs w' = w_dbs w \<and> length (w_txs w) \<le> length (w_txs w')
    \<and> map snd (db_slots [p] [a]) = [length (w_txs w)..<length (w_txs w')]"
proof (cases p)
  case (PCustom c)
  then have c: "custom_ok c" "Value (snd c) q w = ((Some a, err), w')" using assms by simp_all
  then have "\<exists>n x. a = VCustom n x" unfolding custom_ok_def by (metis fst_conv)
  moreover have "w_rw w' = w_rw w \<and> w_dbs w' = w_dbs w \<and> w_txs w' = w_txs w"
    using c unfolding custom_ok_def by (metis snd_conv)
  ultimately show ?thesis by (auto simp: PCustom)
qed (use assms(2) in \<open>auto simp: db_Value_def dir_Value_def dotFS_Value_def\<close>)

lemma upt_append: "i \<le> j \<Longrightarrow> j \<le> k \<Longrightarrow> [i..<j] @ [j..<k] = [i..<k]"
  by (metis le_add_diff_inverse upt_add_eq_append)

lemma ask_all_values:
  assumes "\<forall>p \<in> set ps. provider_ok p" and "ask_all type_of ts q (map (provider_dot env) ps) w = Inr (Inr as, w')"
  shows "list_all2 slot_ok ps as \<and> w_rw w' = w_rw w \<and> w_dbs w' = w_dbs w \<and> length (w_txs w) \<le> length (w_txs w')
    \<and> map snd (db_slots ps as) = [length (w_txs w)..<length (w_txs w')]"
  using assms
proof (induction ps arbitrary: ts w as)
  case (Cons p ps)
  obtain a as' w1 where v: "Value (provider_dot env p) q w = ((Some a, None), w1)" and as: "as = a # as'"
    and rest: "ask_all type_of (tl ts) q (map (provider_dot env) ps) w1 = Inr (Inr as', w')"
    using Cons.prems(2) by (auto split: prod.splits option.splits if_splits sum.splits)
  have 1: "slot_ok p a \<and> w_rw w1 = w_rw w \<and> w_dbs w1 = w_dbs w \<and> length (w_txs w) \<le> length (w_txs w1)
    \<and> map snd (db_slots [p] [a]) = [length (w_txs w)..<length (w_txs w1)]"
    by (rule provider_value [OF _ v]) (use Cons.prems(1) in simp)
  have 2: "list_all2 slot_ok ps as' \<and> w_rw w' = w_rw w1 \<and> w_dbs w' = w_dbs w1 \<and> length (w_txs w1) \<le> length (w_txs w')
    \<and> map snd (db_slots ps as') = [length (w_txs w1)..<length (w_txs w')]"
    by (rule Cons.IH [OF _ rest]) (use Cons.prems(1) in simp)
  have "map snd (db_slots (p # ps) (a # as')) = [length (w_txs w)..<length (w_txs w1)] @ [length (w_txs w1)..<length (w_txs w')]"
    using 1 2 unfolding db_slots_Cons [of p ps a as'] by simp
  with 1 2 show ?case by (simp add: as upt_append)
qed auto

lemma provider_step_total: "provider_ok p \<Longrightarrow> slot_ok p a \<Longrightarrow> \<exists>x. provider_step env p a err w = Inr x"
  by (cases p; cases a) (auto simp: provider_step_def db_Cleanup_def dir_Cleanup_def custom_ok_def
      split: prod.splits option.splits)

lemma cleanup_total:
  "\<forall>p \<in> set ps. provider_ok p \<Longrightarrow> list_all2 slot_ok ps as \<Longrightarrow> \<exists>err' w'. cleanup_all (map (provider_dot env) ps) as err w = Inr (err', w')"
proof (induction ps arbitrary: as err w)
  case (Cons p ps)
  then obtain a as' where as: "as = a # as'" "slot_ok p a" "list_all2 slot_ok ps as'" by (auto simp: list_all2_Cons1)
  obtain err1 w1 where st: "provider_step env p a err w = Inr (err1, w1)"
    using provider_step_total [of p a env err w] Cons.prems(1) as(2) by auto
  have "\<exists>err' w'. cleanup_all (map (provider_dot env) ps) as' err1 w1 = Inr (err', w')"
    by (rule Cons.IH) (use Cons.prems as in simp_all)
  then show ?case unfolding as(1) cleanup_all_Cons st by simp
qed auto

end
