(* ===== verification/Go_Float.thy ===== *)
theory Go_Float
  imports Go_Strings
begin

text \<open>
  Go's \<^verbatim>\<open>float64\<close>, as far as the program computes with it: subtraction, absolute value and
  comparison. A finite value is \<open>Fin m e\<close>, standing for \<open>m * 2 ^ e\<close>; the zeros are not told apart,
  which no comparison can do either. Subtraction is exact and then rounded to 53 bits, half to even,
  with gradual underflow at \<open>2 ^ -1074\<close> and overflow to infinity at \<open>2 ^ 1024\<close> (IEEE 754 binary64).
\<close>

datatype f64 = NaN | PInf | NInf | Fin int int

function nbits :: "int \<Rightarrow> int" where
  "nbits n = (if n \<le> 0 then 0 else 1 + nbits (drop_bit 1 n))"
  by pat_completeness auto
termination
  by (relation "measure nat") (auto simp: drop_bit_eq_div)

declare nbits.simps [simp del]

text \<open>Drop \<open>k\<close> low bits of a magnitude, rounding half to even.\<close>

definition round_shift :: "nat \<Rightarrow> int \<Rightarrow> int" where
  "round_shift k n = (let q = drop_bit k n; r = take_bit k n; half = push_bit (k - 1) 1 in
     if k \<noteq> 0 \<and> (half < r \<or> (r = half \<and> odd q)) then q + 1 else q)"

definition round64 :: "int \<Rightarrow> int \<Rightarrow> f64" where
  "round64 m e =
     (if m = 0 then Fin 0 0
      else let n = \<bar>m\<bar>; k = max 0 (max (nbits n - 53) (- 1074 - e));
               n' = round_shift (nat k) n; e' = e + k in
           if 1024 < nbits n' + e' then (if m < 0 then NInf else PInf)
           else Fin (sgn m * n') e')"

text \<open>Two finite values over one exponent: \<open>push_bit k m\<close> is \<open>m * 2 ^ k\<close>.\<close>

definition aligned :: "(int \<Rightarrow> int \<Rightarrow> int \<Rightarrow> 'a) \<Rightarrow> int \<Rightarrow> int \<Rightarrow> int \<Rightarrow> int \<Rightarrow> 'a" where
  "aligned f m1 e1 m2 e2 = (let e = min e1 e2 in
     f (push_bit (nat (e1 - e)) m1) (push_bit (nat (e2 - e)) m2) e)"

instantiation f64 :: "{minus, ord, abs}"
begin

fun minus_f64 :: "f64 \<Rightarrow> f64 \<Rightarrow> f64" where
  "NaN - y = NaN"
| "x - NaN = NaN"
| "PInf - PInf = NaN"
| "NInf - NInf = NaN"
| "PInf - y = PInf"
| "NInf - y = NInf"
| "Fin m e - PInf = NInf"
| "Fin m e - NInf = PInf"
| "Fin m1 e1 - Fin m2 e2 = aligned (\<lambda>a b e. round64 (a - b) e) m1 e1 m2 e2"

fun less_f64 :: "f64 \<Rightarrow> f64 \<Rightarrow> bool" where
  "NaN < y \<longleftrightarrow> False"
| "x < NaN \<longleftrightarrow> False"
| "PInf < y \<longleftrightarrow> False"
| "x < NInf \<longleftrightarrow> False"
| "NInf < y \<longleftrightarrow> True"
| "Fin m e < PInf \<longleftrightarrow> True"
| "Fin m1 e1 < Fin m2 e2 \<longleftrightarrow> aligned (\<lambda>a b e. a < b) m1 e1 m2 e2"

fun less_eq_f64 :: "f64 \<Rightarrow> f64 \<Rightarrow> bool" where
  "NaN \<le> y \<longleftrightarrow> False"
| "x \<le> NaN \<longleftrightarrow> False"
| "NInf \<le> y \<longleftrightarrow> True"
| "x \<le> PInf \<longleftrightarrow> True"
| "PInf \<le> y \<longleftrightarrow> False"
| "Fin m e \<le> NInf \<longleftrightarrow> False"
| "Fin m1 e1 \<le> Fin m2 e2 \<longleftrightarrow> aligned (\<lambda>a b e. a \<le> b) m1 e1 m2 e2"

fun abs_f64 :: "f64 \<Rightarrow> f64" where
  "\<bar>NaN\<bar> = NaN"
| "\<bar>PInf\<bar> = PInf"
| "\<bar>NInf\<bar> = PInf"
| "\<bar>Fin m e\<bar> = Fin \<bar>m\<bar> e"

instance ..

end

text \<open>The constants \<^verbatim>\<open>0.0\<close>, \<^verbatim>\<open>1.0\<close> and \<^verbatim>\<open>0.1\<close>: the last is the binary64 nearest to one tenth.\<close>

definition f_zero :: f64 where "f_zero = Fin 0 0"
definition f_one :: f64 where "f_one = Fin 1 0"
definition f_tenth :: f64 where "f_tenth = Fin 3602879701896397 (- 55)"

fun finite64 :: "f64 \<Rightarrow> bool" where
  "finite64 (Fin m e) = True"
| "finite64 x = False"

section \<open>Facts about differences\<close>

text \<open>Rounding is symmetric, so the two differences of a pair are opposite.\<close>

fun neg64 :: "f64 \<Rightarrow> f64" where
  "neg64 NaN = NaN"
| "neg64 PInf = NInf"
| "neg64 NInf = PInf"
| "neg64 (Fin m e) = Fin (- m) e"

lemma round64_neg: "round64 (- m) e = neg64 (round64 m e)"
  by (auto simp: round64_def Let_def sgn_if)

lemma minus_neg64: "x - y = neg64 (y - (x :: f64))"
proof (cases x; cases y)
  fix m1 e1 m2 e2 assume xy: "x = Fin m1 e1" "y = Fin m2 e2"
  show ?thesis
    using round64_neg [of "push_bit (nat (e2 - min e1 e2)) m2 - push_bit (nat (e1 - min e1 e2)) m1" "min e1 e2"]
    by (simp add: xy aligned_def Let_def min.commute)
qed auto

lemma abs_neg64 [simp]: "\<bar>neg64 x\<bar> = \<bar>x\<bar>"
  by (cases x) auto

lemma minus_self: "finite64 x \<Longrightarrow> x - x = f_zero"
  by (cases x) (auto simp: aligned_def round64_def f_zero_def)

lemma f_zero_le_tenth: "\<bar>f_zero\<bar> \<le> f_tenth"
  by (simp add: f_zero_def f_tenth_def aligned_def)

lemma not_tenth_less_zero: "\<not> f_tenth < f_zero"
  by (simp add: f_zero_def f_tenth_def aligned_def)

lemma tenth_less_one: "f_tenth < f_one - f_zero"
  by code_simp

text \<open>A difference above one tenth excludes a distance of at most one tenth, whichever way the
  difference is taken.\<close>

lemma tenth_less_Fin:
  "f_tenth < Fin m e \<longleftrightarrow> 3602879701896397 * 2 ^ nat (- 55 - min (- 55) e) < m * 2 ^ nat (e - min (- 55) e)"
  by (simp add: f_tenth_def aligned_def Let_def push_bit_eq_mult)

lemma Fin_le_tenth:
  "Fin m e \<le> f_tenth \<longleftrightarrow> m * 2 ^ nat (e - min (- 55) e) \<le> 3602879701896397 * 2 ^ nat (- 55 - min (- 55) e)"
  by (simp add: f_tenth_def aligned_def Let_def min.commute push_bit_eq_mult)

lemma tenth_less_Fin_pos: "f_tenth < Fin m e \<Longrightarrow> 0 < m"
proof -
  assume "f_tenth < Fin m e"
  then have "0 < m * 2 ^ nat (e - min (- 55) e)"
    unfolding tenth_less_Fin by (rule order_less_trans [rotated]) simp
  then show ?thesis by (simp add: zero_less_mult_iff)
qed

lemma above_tenth:
  assumes "f_tenth < x"
  shows "\<not> \<bar>x\<bar> \<le> f_tenth" and "\<not> f_tenth < neg64 x"
proof -
  have fin: "0 < m" if "x = Fin m e" for m e using assms that tenth_less_Fin_pos by simp
  show "\<not> \<bar>x\<bar> \<le> f_tenth"
  proof (cases x)
    case (Fin m e)
    with assms fin show ?thesis by (simp add: tenth_less_Fin Fin_le_tenth)
  qed (use assms in \<open>auto simp: f_tenth_def\<close>)
  show "\<not> f_tenth < neg64 x"
  proof (cases x)
    case (Fin m e)
    then show ?thesis using fin [OF Fin] tenth_less_Fin_pos [of "- m" e] by auto
  qed (use assms in \<open>auto simp: f_tenth_def\<close>)
qed

section \<open>Decimal notation\<close>

text \<open>
  \<^verbatim>\<open>strconv.ParseFloat(s, 64)\<close> on the notation that HTTP quality values use: decimal digits with at
  most one point. The models take \<^verbatim>\<open>ParseFloat\<close> as an argument; this is the function the concrete
  examples pass.
\<close>

text \<open>The binary64 nearest to \<open>num / den\<close>: at least 64 bits of the quotient and a sticky bit.\<close>

definition round_ratio :: "int \<Rightarrow> int \<Rightarrow> f64" where
  "round_ratio num den = (let s = max 0 (64 + nbits den - nbits num); n = push_bit (nat s) num in
     round64 (2 * (n div den) + (if n mod den = 0 then 0 else 1)) (- s - 1))"

definition ParseDecimal :: "string \<Rightarrow> f64 option" where
  "ParseDecimal s = (case Split s (CHR ''.'') of
     [a] \<Rightarrow> (if a = '''' then None else map_option (\<lambda>n. round_ratio n 1) (digits_value 0 a))
   | [a, b] \<Rightarrow> (if a = '''' \<and> b = '''' then None
       else map_option (\<lambda>n. round_ratio n (10 ^ length b)) (digits_value 0 (a @ b)))
   | _ \<Rightarrow> None)"

end
