(* ===== verification/Negotiate.thy ===== *)
theory Negotiate
  imports Go_Errors Go_Float
begin

text \<open>
  Content negotiation for static files: \<^verbatim>\<open>encodingInfo\<close> (\<^verbatim>\<open>build.go\<close>) and \<^verbatim>\<open>negiotiateEncoding\<close>
  (\<^verbatim>\<open>handlers.go\<close>), which chooses one of the stored encodings of a file from the request's
  \<^verbatim>\<open>Accept-Encoding\<close> headers. \<^verbatim>\<open>strconv.ParseFloat\<close> is the argument \<open>pf\<close> (\<open>None\<close> is a syntax or range
  error); the facts below hold for every such function.
\<close>

record encodingInfo =
  ei_encoding :: string
  ei_path :: string
  ei_size :: int
  ei_modtime :: int

definition is_identity :: "encodingInfo \<Rightarrow> bool" where
  "is_identity e \<longleftrightarrow> ei_encoding e = ''identity''"

section \<open>The loops of negiotiateEncoding\<close>

text \<open>The q value of one requested encoding: the first \<^verbatim>\<open>q=\<close> parameter that parses, 1.0 if none does.\<close>

fun q_value :: "(string \<Rightarrow> f64 option) \<Rightarrow> string list \<Rightarrow> f64" where
  "q_value pf [] = f_one"
| "q_value pf (p # ps) =
     (let part = TrimSpace p in
      if HasPrefix part ''q='' then
        (case pf (TrimSpace (TrimPrefix part ''q='')) of
           Some q \<Rightarrow> q
         | None \<Rightarrow> q_value pf ps)
      else q_value pf ps)"

text \<open>The state of the outer loops: \<^verbatim>\<open>maxq\<close> and \<^verbatim>\<open>maxqIdx\<close>.\<close>

definition prefer_encoding :: "f64 \<times> nat \<Rightarrow> f64 \<times> nat \<Rightarrow> f64 \<times> nat" where
  "prefer_encoding st r =
     (if f_tenth < fst r - fst st \<or> (\<bar>fst r - fst st\<bar> \<le> f_tenth \<and> snd r < snd st) then r else st)"

definition consider_encoding ::
  "(string \<Rightarrow> f64 option) \<Rightarrow> encodingInfo list \<Rightarrow> f64 \<times> nat \<Rightarrow> string \<Rightarrow> f64 \<times> nat" where
  "consider_encoding pf encodings st item =
     (let requestedEncoding = TrimSpace item in
      if requestedEncoding = '''' then st
      else let parts = Split requestedEncoding (CHR '';''); encpart = TrimSpace (hd parts) in
           case find_index (\<lambda>e. ei_encoding e = encpart) encodings of
             None \<Rightarrow> st
           | Some i \<Rightarrow> prefer_encoding st (q_value pf (tl parts), i))"

definition consider_header ::
  "(string \<Rightarrow> f64 option) \<Rightarrow> encodingInfo list \<Rightarrow> f64 \<times> nat \<Rightarrow> string \<Rightarrow> f64 \<times> nat" where
  "consider_header pf encodings st hdr =
     (let header = TrimSpace hdr in
      if header = '''' then st
      else foldl (consider_encoding pf encodings) st (Split header (CHR '','')))"

definition identity_missing :: gerror where
  "identity_missing = ErrMsg ''identity encoding missing''"

definition default_index :: "encodingInfo list \<Rightarrow> nat" where
  "default_index encodings = (case find_index is_identity encodings of
     Some i \<Rightarrow> i | None \<Rightarrow> length encodings - 1)"

definition negiotiateEncoding ::
  "(string \<Rightarrow> f64 option) \<Rightarrow> string list \<Rightarrow> encodingInfo list \<Rightarrow> encodingInfo option \<times> gerror option" where
  "negiotiateEncoding pf acceptHeaders encodings =
     (if length encodings = 0 then
        (None, Some (ErrMsg ''impossible condition, fileInfo contains no encodings''))
      else if length encodings = 1 then
        (Some (encodings ! 0), if is_identity (encodings ! 0) then None else Some identity_missing)
      else
        let err = (if find_index is_identity encodings = None then Some identity_missing else None);
            st = foldl (consider_header pf encodings) (f_zero, default_index encodings) acceptHeaders
        in (Some (encodings ! snd st), err))"

section \<open>A reference definition\<close>

text \<open>
  What the nested loops see: the stored encodings the client asks for, each with its q value and its
  index, in the order of the headers. Everything the client asks for that is not stored is left out.
\<close>

definition request_of ::
  "(string \<Rightarrow> f64 option) \<Rightarrow> encodingInfo list \<Rightarrow> string \<Rightarrow> (f64 \<times> nat) list" where
  "request_of pf encodings item =
     (let r = TrimSpace item; parts = Split r (CHR '';'') in
      case find_index (\<lambda>e. ei_encoding e = TrimSpace (hd parts)) encodings of
        Some i \<Rightarrow> (if r = '''' then [] else [(q_value pf (tl parts), i)])
      | None \<Rightarrow> [])"

definition requests ::
  "(string \<Rightarrow> f64 option) \<Rightarrow> string list \<Rightarrow> encodingInfo list \<Rightarrow> (f64 \<times> nat) list" where
  "requests pf headers encodings =
     concat (map (\<lambda>h. concat (map (request_of pf encodings) (Split (TrimSpace h) (CHR '','')))) headers)"

definition negotiated_index ::
  "(string \<Rightarrow> f64 option) \<Rightarrow> string list \<Rightarrow> encodingInfo list \<Rightarrow> nat" where
  "negotiated_index pf headers encodings =
     snd (foldl prefer_encoding (f_zero, default_index encodings) (requests pf headers encodings))"

lemma consider_encoding_requests:
  "consider_encoding pf encodings st item = foldl prefer_encoding st (request_of pf encodings item)"
  by (simp add: consider_encoding_def request_of_def Let_def split: option.splits)

lemma foldl_concat_map: "foldl f s (concat (map g xs)) = foldl (\<lambda>s x. foldl f s (g x)) s xs"
  by (induction xs arbitrary: s) auto

lemma consider_header_requests:
  "consider_header pf encodings st h =
   foldl prefer_encoding st (concat (map (request_of pf encodings) (Split (TrimSpace h) (CHR '',''))))"
proof -
  have "foldl (consider_encoding pf encodings) = foldl (\<lambda>s x. foldl prefer_encoding s (request_of pf encodings x))"
    by (simp add: consider_encoding_requests [abs_def] fun_eq_iff)
  moreover have "request_of pf encodings '''' = []"
    by (simp add: request_of_def Let_def split: option.split)
  ultimately show ?thesis
    by (simp add: consider_header_def Let_def foldl_concat_map)
qed

lemma outer_loop_requests:
  "foldl (consider_header pf encodings) st headers =
   foldl prefer_encoding st (requests pf headers encodings)"
  unfolding requests_def foldl_concat_map [of prefer_encoding]
  by (simp add: consider_header_requests [abs_def] foldl_concat_map)

lemma request_of_index: "(q, i) \<in> set (request_of pf encodings item) \<Longrightarrow> i < length encodings"
  by (auto simp: request_of_def Let_def split: option.splits if_splits dest: find_index_Some [OF sym])

lemma requests_index: "(q, i) \<in> set (requests pf headers encodings) \<Longrightarrow> i < length encodings"
  by (auto simp: requests_def dest: request_of_index)

lemma default_index_less: "encodings \<noteq> [] \<Longrightarrow> default_index encodings < length encodings"
  by (auto simp: default_index_def split: option.splits dest: find_index_Some)

text \<open>The loops only ever select the start index or the index of a request.\<close>

lemma prefer_encoding_cases: "prefer_encoding st r = st \<or> prefer_encoding st r = r"
  by (simp add: prefer_encoding_def)

lemma foldl_prefer_mem: "foldl prefer_encoding st rs = st \<or> foldl prefer_encoding st rs \<in> set rs"
proof (induction rs arbitrary: st)
  case (Cons r rs)
  from Cons.IH [of "prefer_encoding st r"] prefer_encoding_cases [of st r] show ?case by auto
qed simp

lemma negotiated_index_cases:
  "negotiated_index pf headers encodings = default_index encodings
   \<or> (\<exists>q. (q, negotiated_index pf headers encodings) \<in> set (requests pf headers encodings))"
  using foldl_prefer_mem [of "(f_zero, default_index encodings)" "requests pf headers encodings"]
  by (auto simp: negotiated_index_def) (metis prod.collapse)

lemma negotiated_index_less:
  "encodings \<noteq> [] \<Longrightarrow> negotiated_index pf headers encodings < length encodings"
  using negotiated_index_cases [of pf headers encodings] default_index_less requests_index by metis

lemma negotiated_nonempty:
  "encodings \<noteq> [] \<Longrightarrow>
   fst (negiotiateEncoding pf headers encodings) = Some (encodings ! negotiated_index pf headers encodings)"
proof (cases "length encodings = 1")
  case True
  then have "encodings \<noteq> []" by auto
  from negotiated_index_less [OF this, of pf headers] True have "negotiated_index pf headers encodings = 0"
    by simp
  with True show ?thesis by (simp add: negiotiateEncoding_def)
next
  case False
  assume "encodings \<noteq> []"
  with False show ?thesis
    by (simp add: negiotiateEncoding_def Let_def outer_loop_requests negotiated_index_def)
qed

section \<open>What the negotiation guarantees\<close>

text \<open>C27. \<^verbatim>\<open>negiotiateEncoding\<close> answers nil only for a file without encodings; otherwise its answer is one
  of the file's encodings (the index it ends with is in range), whatever the headers hold. It reports
  an error exactly when the file has no identity encoding.\<close>

theorem negiotiateEncoding_total:
  "(case fst (negiotiateEncoding pf headers encodings) of
      None \<Rightarrow> encodings = []
    | Some e \<Rightarrow> e \<in> set encodings)
   \<and> (snd (negiotiateEncoding pf headers encodings) = None \<longleftrightarrow> (\<exists>e \<in> set encodings. is_identity e))"
proof (cases "encodings = []")
  case True
  then show ?thesis by (simp add: negiotiateEncoding_def)
next
  case False
  have "encodings ! negotiated_index pf headers encodings \<in> set encodings"
    using negotiated_index_less [OF False] by (rule nth_mem)
  moreover have "snd (negiotiateEncoding pf headers encodings) = None \<longleftrightarrow> (\<exists>e \<in> set encodings. is_identity e)"
  proof (cases "length encodings = 1")
    case True
    then obtain e where "encodings = [e]" by (auto simp: length_Suc_conv)
    then show ?thesis by (simp add: negiotiateEncoding_def)
  next
    case len: False
    then show ?thesis
      using False find_index_None_iff [of is_identity encodings]
      by (auto simp: negiotiateEncoding_def Let_def)
  qed
  ultimately show ?thesis using negotiated_nonempty [OF False] by simp
qed


text \<open>The encodings named by an \<^verbatim>\<open>Accept-Encoding\<close> header line.\<close>

definition named_encodings :: "string \<Rightarrow> string set" where
  "named_encodings h =
     (\<lambda>item. TrimSpace (hd (Split (TrimSpace item) (CHR '';'')))) ` set (Split (TrimSpace h) (CHR '',''))"

lemma request_of_name:
  "(q, i) \<in> set (request_of pf encodings item) \<Longrightarrow>
   ei_encoding (encodings ! i) = TrimSpace (hd (Split (TrimSpace item) (CHR '';'')))"
  by (auto simp: request_of_def Let_def split: option.splits if_splits dest: find_index_Some [OF sym])

text \<open>A file is only served in an encoding the client named, or as identity: an encoding other than
  identity that the request does not name is never chosen.\<close>

lemma negiotiateEncoding_named:
  assumes "\<exists>d \<in> set encodings. is_identity d"
    and "fst (negiotiateEncoding pf headers encodings) = Some e"
  shows "is_identity e \<or> (\<exists>h \<in> set headers. ei_encoding e \<in> named_encodings h)"
proof -
  from assms(1) have ne: "encodings \<noteq> []" by auto
  let ?i = "negotiated_index pf headers encodings"
  from assms(2) have e: "e = encodings ! ?i" using negotiated_nonempty [OF ne] by simp
  from negotiated_index_cases [of pf headers encodings] show ?thesis
  proof
    assume i: "?i = default_index encodings"
    obtain j where "find_index is_identity encodings = Some j"
      using assms(1) find_index_ex by metis
    then have "default_index encodings = j" and "is_identity (encodings ! j)"
      using find_index_Some by (auto simp: default_index_def)
    with e i show ?thesis by simp
  next
    assume "\<exists>q. (q, ?i) \<in> set (requests pf headers encodings)"
    then obtain q h item where "h \<in> set headers" and "item \<in> set (Split (TrimSpace h) (CHR '',''))"
      and "(q, ?i) \<in> set (request_of pf encodings item)"
      by (auto simp: requests_def)
    with e request_of_name show ?thesis by (auto simp: named_encodings_def)
  qed
qed

text \<open>With equal q values the pass keeps the smallest index it has seen.\<close>

lemma prefer_same_q:
  assumes "finite64 v" shows "prefer_encoding (v, i) (v, j) = (v, min i j)"
  using minus_self [OF assms] f_zero_le_tenth not_tenth_less_zero
  by (auto simp: prefer_encoding_def)

lemma foldl_prefer_same_q:
  assumes "finite64 v" and "\<And>r. r \<in> set rs \<Longrightarrow> fst r = v"
  shows "foldl prefer_encoding (v, i) rs = (v, Min (insert i (snd ` set rs)))"
  using assms(2)
proof (induction rs arbitrary: i)
  case (Cons r rs)
  obtain j where r: "r = (v, j)" using Cons.prems [of r] by (cases r) auto
  have "foldl prefer_encoding (v, i) (r # rs) = foldl prefer_encoding (v, min i j) rs"
    by (simp add: r prefer_same_q [OF assms(1)])
  also have "\<dots> = (v, Min (insert (min i j) (snd ` set rs)))"
    by (rule Cons.IH) (simp add: Cons.prems)
  also have "Min (insert (min i j) (snd ` set rs)) = Min (insert i (insert j (snd ` set rs)))"
    by (cases "set rs = {}") (simp_all add: min.assoc)
  finally show ?case by (simp add: r)
qed simp

text \<open>When the client gives every stored encoding it names the same weight (the usual header has no
  q values at all, so that weight is 1.0), and that weight is more than 0.1, the file is served in the
  smallest of the named encodings: the encodings are kept sorted by size and the lowest index wins.\<close>

lemma negiotiateEncoding_smallest:
  assumes "sorted (map ei_size encodings)"
    and "requests pf headers encodings \<noteq> []"
    and "\<And>q i. (q, i) \<in> set (requests pf headers encodings) \<Longrightarrow> q = v"
    and "finite64 v" and "f_tenth < v - f_zero"
  shows "\<exists>e i. fst (negiotiateEncoding pf headers encodings) = Some e \<and> e = encodings ! i
     \<and> (v, i) \<in> set (requests pf headers encodings)
     \<and> (\<forall>(q, j) \<in> set (requests pf headers encodings). ei_size e \<le> ei_size (encodings ! j))"
proof -
  let ?rs = "requests pf headers encodings"
  obtain q0 i0 rs where rs: "?rs = (q0, i0) # rs" using assms(2) by (metis list.exhaust surj_pair)
  have v: "fst r = v" if "r \<in> set ?rs" for r using assms(3) that by (cases r) auto
  have q0: "q0 = v" using v [of "(q0, i0)"] rs by simp
  let ?m = "Min (snd ` set ?rs)"
  have "prefer_encoding (f_zero, default_index encodings) (v, i0) = (v, i0)"
    using assms(5) by (simp add: prefer_encoding_def)
  then have "foldl prefer_encoding (f_zero, default_index encodings) ?rs = (v, Min (insert i0 (snd ` set rs)))"
    using foldl_prefer_same_q [OF assms(4), of rs i0] v by (simp add: rs q0)
  then have m: "negotiated_index pf headers encodings = ?m" by (simp add: negotiated_index_def rs)
  have "?m \<in> snd ` set ?rs" using assms(2) by (intro Min_in) auto
  then have mem: "(v, ?m) \<in> set ?rs" using v by force
  have ne: "encodings \<noteq> []" using requests_index [OF mem] by auto
  have "ei_size (encodings ! ?m) \<le> ei_size (encodings ! j)" if "(q, j) \<in> set ?rs" for q j
  proof -
    have "?m \<le> j" using that by (intro Min_le) force+
    moreover have "j < length encodings" by (rule requests_index [OF that])
    ultimately show ?thesis
      using sorted_nth_mono [OF assms(1), of ?m j] by simp
  qed
  with mem m negotiated_nonempty [OF ne, of pf headers] show ?thesis by fastforce
qed

text \<open>A strong preference wins wherever it stands in the headers: an encoding whose q value is more
  than 0.1 above 0 and above the q value of every other request is the one that is served.\<close>

theorem negiotiateEncoding_strong_preference:
  assumes "requests pf headers encodings = xs @ (q, i) # ys"
    and "f_tenth < q - f_zero"
    and "\<And>q' j. (q', j) \<in> set (xs @ ys) \<Longrightarrow> f_tenth < q - q'"
  shows "fst (negiotiateEncoding pf headers encodings) = Some (encodings ! i)"
proof -
  have before: "f_tenth < q - fst (foldl prefer_encoding (f_zero, default_index encodings) xs)"
    using foldl_prefer_mem [of "(f_zero, default_index encodings)" xs] assms(2,3)
    by (metis Un_iff fst_conv prod.collapse set_append)
  have after: "foldl prefer_encoding (q, i) zs = (q, i)"
    if "\<And>q' j. (q', j) \<in> set zs \<Longrightarrow> f_tenth < q - q'" for zs
    using that
  proof (induction zs)
    case (Cons z zs)
    have z: "f_tenth < q - fst z" using Cons.prems [of "fst z" "snd z"] by simp
    have "prefer_encoding (q, i) z = (q, i)"
      using above_tenth [OF z] minus_neg64 [of "fst z" q] by (simp add: prefer_encoding_def)
    moreover have "foldl prefer_encoding (q, i) zs = (q, i)"
      by (rule Cons.IH, rule Cons.prems, rule list.set_intros(2))
    ultimately show ?case by simp
  qed simp
  have "snd (foldl prefer_encoding (f_zero, default_index encodings) (xs @ (q, i) # ys)) = i"
  proof -
    have "foldl prefer_encoding (q, i) ys = (q, i)"
      by (rule after, rule assms(3), unfold set_append, erule UnI2)
    with before show ?thesis by (simp add: prefer_encoding_def)
  qed
  moreover have "encodings \<noteq> []" using requests_index [of q i pf headers encodings] assms(1) by auto
  ultimately show ?thesis
    using negotiated_nonempty [of encodings pf headers] assms(1) by (simp add: negotiated_index_def)
qed

text \<open>C37. A client that refuses an encoding (q = 0 means "not acceptable" in RFC 9110, section 12.4.2) is
  served that encoding when it is smaller than the identity file: q = 0 is within 0.1 of the start
  value 0.0 and the encoding is stored earlier.\<close>

theorem negiotiateEncoding_serves_refused:
  assumes "requests pf headers encodings = [(f_zero, i)]" and "i < default_index encodings"
  shows "fst (negiotiateEncoding pf headers encodings) = Some (encodings ! i)"
proof -
  have "encodings \<noteq> []" using requests_index [of f_zero i pf headers encodings] assms(1) by auto
  moreover have "negotiated_index pf headers encodings = i"
    using assms minus_self [of f_zero] f_zero_le_tenth
    by (simp add: negotiated_index_def prefer_encoding_def f_zero_def)
  ultimately show ?thesis by (simp add: negotiated_nonempty)
qed

section \<open>Examples\<close>

text \<open>The three encodings of the repository's test asset \<^verbatim>\<open>assets/reset.css\<close>, smallest first.\<close>

definition css_encodings :: "encodingInfo list" where
  "css_encodings =
    [\<lparr>ei_encoding = ''br'', ei_path = ''assets/reset.css.br'', ei_size = 928, ei_modtime = 3\<rparr>,
     \<lparr>ei_encoding = ''gzip'', ei_path = ''assets/reset.css.gz'', ei_size = 1161, ei_modtime = 2\<rparr>,
     \<lparr>ei_encoding = ''identity'', ei_path = ''assets/reset.css'', ei_size = 2769, ei_modtime = 1\<rparr>]"

lemma negiotiateEncoding_named_witness:
  "ei_encoding (css_encodings ! 1) \<in> named_encodings ''gzip''"
proof -
  have "\<exists>d \<in> set css_encodings. is_identity d" by code_simp
  moreover have "fst (negiotiateEncoding ParseDecimal [''gzip''] css_encodings) = Some (css_encodings ! 1)"
    by code_simp
  ultimately have "is_identity (css_encodings ! 1) \<or> (\<exists>h \<in> set [''gzip'']. ei_encoding (css_encodings ! 1) \<in> named_encodings h)"
    by (rule negiotiateEncoding_named)
  moreover have "\<not> is_identity (css_encodings ! 1)" by code_simp
  ultimately show ?thesis by simp
qed

lemma css_requests: "requests ParseDecimal [''gzip, br''] css_encodings = [(f_one, 1), (f_one, 0)]"
  by code_simp

lemma negiotiateEncoding_smallest_witness:
  "\<exists>e i. fst (negiotiateEncoding ParseDecimal [''gzip, br''] css_encodings) = Some e \<and> e = css_encodings ! i
     \<and> (f_one, i) \<in> set (requests ParseDecimal [''gzip, br''] css_encodings)
     \<and> (\<forall>(q, j) \<in> set (requests ParseDecimal [''gzip, br''] css_encodings).
          ei_size e \<le> ei_size (css_encodings ! j))"
proof (rule negiotiateEncoding_smallest)
  show "sorted (map ei_size css_encodings)" by code_simp
  show "finite64 f_one" by code_simp
  show "f_tenth < f_one - f_zero" by (rule tenth_less_one)
qed (auto simp: css_requests)

lemma negiotiateEncoding_strong_preference_witness:
  "fst (negiotiateEncoding ParseDecimal [''gzip;q=0.5, br;q=0.39''] css_encodings) = Some (css_encodings ! 1)"
proof -
  let ?half = "Fin 4503599627370496 (- 53)" and ?other = "Fin 7025615418697974 (- 54)"
  have r: "requests ParseDecimal [''gzip;q=0.5, br;q=0.39''] css_encodings = [(?half, 1), (?other, 0)]"
    by code_simp
  have z: "f_tenth < ?half - f_zero" by code_simp
  have d: "f_tenth < ?half - ?other" by code_simp
  show ?thesis
    by (rule negiotiateEncoding_strong_preference [where xs = "[]" and q = ?half and ys = "[(?other, 0)]"])
      (use r z d in \<open>auto simp del: minus_f64.simps less_f64.simps\<close>)
qed

lemma negiotiateEncoding_serves_refused_witness:
  "fst (negiotiateEncoding ParseDecimal [''gzip;q=0''] css_encodings) = Some (css_encodings ! 1)"
proof (rule negiotiateEncoding_serves_refused)
  show "requests ParseDecimal [''gzip;q=0''] css_encodings = [(f_zero, 1)]" by code_simp
  show "1 < default_index css_encodings" by code_simp
qed

end
