(* ===== verification/Static_File.thy ===== *)
theory Static_File
  imports Negotiate Go_ServeContent Dot_FS
begin

text \<open>
  Static files: \<^verbatim>\<open>fileInfo\<close> (\<^verbatim>\<open>build.go\<close>) and the handler that serves one, \<^verbatim>\<open>staticFileHandler\<close> (\<^verbatim>\<open>handlers.go\<close>). The
  arguments \<open>pf\<close> and \<open>env\<close> are \<^verbatim>\<open>strconv.ParseFloat\<close> and what \<^verbatim>\<open>http.ServeContent\<close> leaves open; \<open>fs\<close> is the file system
  the templates were loaded from, at the time of the request. Log messages are left out, and with them the
  comparison of modification times that only logs.
\<close>

record fileInfo =
  fi_identityPath :: string
  fi_hash :: string
  fi_contentType :: string
  fi_encodings :: "encodingInfo list"

definition add_header :: "string \<Rightarrow> string \<Rightarrow> respWriter \<Rightarrow> respWriter" where
  "add_header k v w = w\<lparr>rw_header := Header_Add (rw_header w) k v\<rparr>"

definition quoted :: "string \<Rightarrow> string" where
  "quoted s = quote # s @ [quote]"

definition static_headers :: "fileInfo \<Rightarrow> encodingInfo \<Rightarrow> string \<Rightarrow> respWriter \<Rightarrow> respWriter" where
  "static_headers fileinfo encoding queryhash w =
     (let w = add_header ''Etag'' (quoted (fi_hash fileinfo)) w;
          w = add_header ''Content-Type'' (fi_contentType fileinfo) w;
          w = add_header ''Content-Encoding'' (ei_encoding encoding) w;
          w = add_header ''Vary'' ''Accept-Encoding'' w
      in if queryhash \<noteq> '''' then set_header ''Cache-Control'' ''public, max-age=31536000, immutable'' w
         else w)"

definition node_contents :: "fsnode \<Rightarrow> string" where
  "node_contents n = (case n of RegFile s \<Rightarrow> s | Directory _ \<Rightarrow> '''')"

definition staticFileHandler ::
  "(string \<Rightarrow> f64 option) \<Rightarrow> serveEnv \<Rightarrow> fsys \<Rightarrow> fileInfo \<Rightarrow> request \<Rightarrow> respWriter \<Rightarrow> handles
   \<Rightarrow> respWriter panics \<times> handles" where
  "staticFileHandler pf env fs fileinfo r w h =
     (let urlpath = Clean (r_path r) in
      if urlpath \<noteq> fi_identityPath fileinfo then (http_NotFound w, h)
      else
        let queryhash = query_Get r ''hash'' in
        if queryhash \<noteq> '''' \<and> queryhash \<noteq> fi_hash fileinfo then (http_NotFound w, h)
        else case fst (negiotiateEncoding pf (Header_Values (r_header r) ''Accept-Encoding'') (fi_encodings fileinfo)) of
          None \<Rightarrow> (http_Error ''internal server error'' 500 w, h)
        | Some encoding \<Rightarrow>
            (case fs_Open fs (ei_path encoding) h of
               (Inl e, h1) \<Rightarrow> (http_Error ''internal server error'' 500 w, h1)
             | (Inr (f, n), h1) \<Rightarrow>
                 (http_ServeContent env r (ei_path encoding) (ei_modtime encoding) (node_contents n)
                    (static_headers fileinfo encoding queryhash w),
                  snd (file_Close fs f h1))))"

section \<open>Headers of the response\<close>

lemma canonical_keys [simp]:
  "CanonicalHeaderKey ''Etag'' = ''Etag''"
  "CanonicalHeaderKey ''Content-Type'' = ''Content-Type''"
  "CanonicalHeaderKey ''Content-Encoding'' = ''Content-Encoding''"
  "CanonicalHeaderKey ''Content-Length'' = ''Content-Length''"
  "CanonicalHeaderKey ''Vary'' = ''Vary''"
  "CanonicalHeaderKey ''Cache-Control'' = ''Cache-Control''"
  "CanonicalHeaderKey ''Last-Modified'' = ''Last-Modified''"
  "CanonicalHeaderKey ''Accept-Ranges'' = ''Accept-Ranges''"
  by code_simp+

text \<open>A request without conditions and ranges.\<close>

definition plain_request :: "request \<Rightarrow> bool" where
  "plain_request r \<longleftrightarrow> r_method r = ''GET''
     \<and> (\<forall>k \<in> set [''If-Match'', ''If-Unmodified-Since'', ''If-None-Match'', ''If-Modified-Since'', ''Range''].
          Header_Get (r_header r) k = '''')"

lemma checkPreconditions_plain: "plain_request r \<Longrightarrow> checkPreconditions env r modtime w = Inr ''''"
  by (simp add: plain_request_def checkPreconditions_def checkIfMatch_def checkIfUnmodifiedSince_def
      checkIfNoneMatch_def checkIfModifiedSince_def Let_def)

lemma parseRange_none [simp]: "parseRange '''' sz = Inr []"
  by (simp add: parseRange_def)

lemma http_ServeContent_plain:
  assumes "plain_request r" and "untouched w" and "rw_header w ''Content-Type'' = Some (t # ts)"
    and "Header_Get (rw_header w) ''Content-Encoding'' \<noteq> ''''"
    and "rw_header w ''Content-Length'' = None"
  shows "\<exists>w'. http_ServeContent env r name modtime content w = Inr w' \<and> rw_body w' = content
     \<and> rw_sent w' = Some (200, rw_header (set_header ''Accept-Ranges'' ''bytes''
         (if isZeroTime modtime then w else set_header ''Last-Modified'' (se_formatTime env modtime) w)))"
proof -
  define w1 where "w1 = (if isZeroTime modtime then w else set_header ''Last-Modified'' (se_formatTime env modtime) w)"
  have w1: "rw_sent w1 = None" "rw_limit w1 = None" "rw_written w1 = 0" "rw_body w1 = ''''"
    "rw_header w1 ''Content-Type'' = Some (t # ts)" "Header_Get (rw_header w1) ''Content-Encoding'' \<noteq> ''''"
    "rw_header w1 ''Content-Length'' = None"
    using assms by (auto simp: w1_def untouched_def set_header_def header_defs)
  define w2 where "w2 = set_header ''Accept-Ranges'' ''bytes'' w1"
  have w2: "rw_sent w2 = None" "rw_written w2 = 0" "rw_body w2 = ''''"
    "Header_Get (rw_header w2) ''Content-Encoding'' \<noteq> ''''"
    "Header_Get (rw_header w2) ''Content-Length'' = ''''"
    using w1 by (auto simp: w2_def set_header_def header_defs)
  have "ParseInt '''' = None" by (simp add: ParseInt_def)
  then have "declared_length (rw_header w2) = None" by (simp add: declared_length_def w2)
  then have wh: "WriteHeader 200 w2 = Inr (w2\<lparr>rw_sent := Some (200, rw_header w2), rw_limit := None,
      rw_header := Header_Del (rw_header w2) ''Content-Length''\<rparr>)"
    using w2 by (simp add: WriteHeader_final)
  have "http_ServeContent env r name modtime content w = send_content env r t [] content w1"
    unfolding http_ServeContent_def w1_def [symmetric] using assms(1) w1
    by (simp add: Let_def checkPreconditions_plain)
  also have "\<dots> = Inr (Write content (w2\<lparr>rw_sent := Some (200, rw_header w2), rw_limit := None,
      rw_header := Header_Del (rw_header w2) ''Content-Length''\<rparr>))"
    using wh w2 assms(1) by (simp add: send_content_def Let_def w2_def [symmetric] plain_request_def)
  finally show ?thesis
    using w2 by (simp add: Write_def Let_def decide_ok_sent bodyAllowedForStatus_def in_range_def w2_def w1_def)
qed

lemma static_headers_facts:
  fixes fi enc q w
  defines "w' \<equiv> static_headers fi enc q w"
  shows "untouched w' = untouched w"
    and "Header_Values (rw_header w') ''Etag'' = Header_Values (rw_header w) ''Etag'' @ [quoted (fi_hash fi)]"
    and "Header_Values (rw_header w') ''Content-Type'' = Header_Values (rw_header w) ''Content-Type'' @ [fi_contentType fi]"
    and "Header_Values (rw_header w') ''Content-Encoding'' = Header_Values (rw_header w) ''Content-Encoding'' @ [ei_encoding enc]"
    and "Header_Values (rw_header w') ''Vary'' = Header_Values (rw_header w) ''Vary'' @ [''Accept-Encoding'']"
    and "rw_header w' ''Cache-Control'' =
       (if q = '''' then rw_header w ''Cache-Control'' else Some [''public, max-age=31536000, immutable''])"
    and "rw_header w' ''Content-Length'' = rw_header w ''Content-Length''"
  by (simp_all add: w'_def static_headers_def add_header_def set_header_def header_defs Let_def)
section \<open>What the handler guarantees\<close>

lemma staticFileHandler_plain:
  assumes "Clean (r_path r) = fi_identityPath fi"
    and "query_Get r ''hash'' = '''' \<or> query_Get r ''hash'' = fi_hash fi"
    and "fst (negiotiateEncoding pf (Header_Values (r_header r) ''Accept-Encoding'') (fi_encodings fi)) = Some enc"
    and "fs_node fs (ei_path enc) = Inr (RegFile s)"
    and "plain_request r" and "ei_encoding enc \<noteq> ''''" and "handles_wf h"
  shows "\<exists>w' h'. staticFileHandler pf env fs fi r new_response h = (Inr w', h')
     \<and> final_status w' = 200 \<and> rw_body w' = s
     \<and> Header_Values (final_header w') ''Content-Encoding'' = [ei_encoding enc]
     \<and> Header_Values (final_header w') ''Etag'' = [quoted (fi_hash fi)]
     \<and> Header_Values (final_header w') ''Content-Type'' = [fi_contentType fi]
     \<and> Header_Values (final_header w') ''Vary'' = [''Accept-Encoding'']
     \<and> Header_Values (final_header w') ''Cache-Control'' =
         (if query_Get r ''hash'' = '''' then [] else [''public, max-age=31536000, immutable''])
     \<and> h_open h' = h_open h"
proof -
  let ?q = "query_Get r ''hash''"
  let ?w = "static_headers fi enc ?q new_response"
  note sh = static_headers_facts [of fi enc ?q new_response]
  have empty: "Header_Values (rw_header new_response) k = []" "rw_header new_response k = None" for k
    by (simp_all add: new_response_def Header_Values_def)
  have u: "untouched ?w" using sh(1) by simp
  obtain t ts where ct: "rw_header ?w ''Content-Type'' = Some (t # ts)"
    using sh(3) empty by (auto simp: Header_Values_def split: option.splits)
  have ce: "Header_Get (rw_header ?w) ''Content-Encoding'' \<noteq> ''''"
    using sh(4) empty assms(6) by (simp add: Header_Get_def)
  have cl: "rw_header ?w ''Content-Length'' = None" using sh(7) empty by simp
  obtain w' where w': "http_ServeContent env r (ei_path enc) (ei_modtime enc) s ?w = Inr w'" "rw_body w' = s"
    "rw_sent w' = Some (200, rw_header (set_header ''Accept-Ranges'' ''bytes''
         (if isZeroTime (ei_modtime enc) then ?w else set_header ''Last-Modified'' (se_formatTime env (ei_modtime enc)) ?w)))"
    using http_ServeContent_plain [OF assms(5) u ct ce cl] by blast
  let ?h1 = "h\<lparr>h_next := Suc (h_next h), h_open := h_next h # h_open h\<rparr>"
  have o: "fs_Open fs (ei_path enc) h = (Inr (h_next h, RegFile s), ?h1)"
    using assms(4) by (simp add: fs_Open_def)
  have "staticFileHandler pf env fs fi r new_response h = (Inr w', snd (file_Close fs (h_next h) ?h1))"
    using assms(1-3) w'(1) o by (auto simp: staticFileHandler_def node_contents_def Let_def)
  moreover have "Header_Values (final_header w') k = Header_Values (rw_header ?w) k"
    if "k \<in> {''Content-Encoding'', ''Etag'', ''Content-Type'', ''Vary'', ''Cache-Control''}" for k
    using that w'(3) by (auto simp: final_header_def set_header_def header_defs)
  moreover have "Header_Values (rw_header ?w) ''Cache-Control'' =
      (if ?q = '''' then [] else [''public, max-age=31536000, immutable''])"
    using sh(6) empty by (simp add: Header_Values_def)
  ultimately show ?thesis
    using w' sh empty open_close [OF assms(7) o] by (simp add: final_status_def)
qed

text \<open>C20. A plain \<^verbatim>\<open>GET\<close> for a static file, with no \<^verbatim>\<open>hash\<close> parameter or the right one, is answered with status 200
  and exactly the bytes of the file of the negotiated encoding. The headers name that encoding, the
  file's hash as entity tag, its content type, and \<^verbatim>\<open>Vary\<close>; the response is marked immutable exactly when the
  request named the hash. The file is closed again.\<close>

theorem staticFileHandler_serves:
  assumes "Clean (r_path r) = fi_identityPath fi"
    and "query_Get r ''hash'' = '''' \<or> query_Get r ''hash'' = fi_hash fi"
    and "fst (negiotiateEncoding pf (Header_Values (r_header r) ''Accept-Encoding'') (fi_encodings fi)) = Some enc"
    and "fs_node fs (ei_path enc) = Inr (RegFile s)"
    and "plain_request r" and "ei_encoding enc \<noteq> ''''" and "handles_wf h"
  shows "\<exists>w' h'. staticFileHandler pf env fs fi r new_response h = (Inr w', h')
     \<and> final_status w' = 200 \<and> rw_body w' = s
     \<and> Header_Values (final_header w') ''Content-Encoding'' = [ei_encoding enc]
     \<and> Header_Values (final_header w') ''Etag'' = [quoted (fi_hash fi)]
     \<and> Header_Values (final_header w') ''Content-Type'' = [fi_contentType fi]
     \<and> Header_Values (final_header w') ''Vary'' = [''Accept-Encoding'']
     \<and> Header_Values (final_header w') ''Cache-Control'' =
         (if query_Get r ''hash'' = '''' then [] else [''public, max-age=31536000, immutable''])
     \<and> h_open h' = h_open h"
  by (rule staticFileHandler_plain [OF assms])

text \<open>C21. A request that names a hash other than the file's is answered \<^verbatim>\<open>404\<close>, whatever else it says, and no file
  is opened: a client that asks for one version of a file never gets another.\<close>

theorem staticFileHandler_wrong_hash:
  assumes "query_Get r ''hash'' \<noteq> ''''" and "query_Get r ''hash'' \<noteq> fi_hash fi" and "untouched w"
  shows "\<exists>w'. staticFileHandler pf env fs fi r w h = (Inr w', h) \<and> final_status w' = 404
     \<and> rw_body w' = ''404 page not found'' @ [CHR 0x0A]"
proof -
  have "staticFileHandler pf env fs fi r w h = (http_NotFound w, h)"
    using assms(1,2) by (simp add: staticFileHandler_def Let_def)
  moreover obtain w' where "http_NotFound w = Inr w'" "final_status w' = 404"
    "rw_body w' = ''404 page not found'' @ [CHR 0x0A]"
    using http_Error_untouched [OF assms(3), of 404 "''404 page not found''"]
    by (auto simp: http_NotFound_def bodyAllowedForStatus_def in_range_def)
  ultimately show ?thesis by simp
qed

text \<open>The bytes that may stand between the quotation marks of an entity tag.\<close>

definition etag_byte :: "char \<Rightarrow> bool" where
  "etag_byte c \<longleftrightarrow> c \<noteq> quote \<and> (let n = byte_val c in n = 0x21 \<or> in_range 0x23 0x7E n \<or> 0x80 \<le> n)"

lemma etag_tail_quoted: "list_all etag_byte s \<Longrightarrow> etag_tail (s @ [quote]) = Some (s @ [quote])"
  by (induction s) (auto simp: etag_byte_def Let_def)

lemma TrimString_quoted: "TrimString (quoted s) = quoted s"
proof -
  have "\<not> ascii_space quote" by code_simp
  then show ?thesis by (simp add: TrimString_def quoted_def)
qed

lemma scanETag_quoted: "list_all etag_byte s \<Longrightarrow> scanETag (quoted s) = (quoted s, '''')"
  using etag_tail_quoted [of s]
  by (simp add: scanETag_def TrimString_quoted Let_def HasPrefix_def) (simp add: quoted_def)

lemma checkIfNoneMatch_quoted:
  assumes "Header_Get (r_header r) ''If-None-Match'' = quoted s" and "list_all etag_byte s"
    and "Header_Get (rw_header w) ''Etag'' = quoted s"
  shows "checkIfNoneMatch r w = condFalse"
proof -
  have "etag_list_matches (Suc n) (\<lambda>t. etagWeakMatch t (quoted s)) (quoted s)" for n
    using scanETag_quoted [OF assms(2)] TrimString_quoted [of s]
    by (simp add: etagWeakMatch_def) (simp add: quoted_def)
  with assms(1,3) show ?thesis by (simp add: checkIfNoneMatch_def quoted_def Let_def)
qed

text \<open>C22. A client that revalidates its copy with the entity tag it got is answered \<^verbatim>\<open>304\<close> with an empty body,
  whichever encoding the request negotiates.\<close>

theorem staticFileHandler_not_modified:
  assumes "Clean (r_path r) = fi_identityPath fi"
    and "query_Get r ''hash'' = '''' \<or> query_Get r ''hash'' = fi_hash fi"
    and "fst (negiotiateEncoding pf (Header_Values (r_header r) ''Accept-Encoding'') (fi_encodings fi)) = Some enc"
    and "fs_node fs (ei_path enc) = Inr (RegFile s)"
    and "Header_Get (r_header r) ''If-None-Match'' = quoted (fi_hash fi)" and "list_all etag_byte (fi_hash fi)"
    and "r_method r = ''GET''" and "Header_Get (r_header r) ''If-Match'' = ''''"
    and "Header_Get (r_header r) ''If-Unmodified-Since'' = ''''"
  shows "\<exists>w' h'. staticFileHandler pf env fs fi r new_response h = (Inr w', h')
     \<and> final_status w' = 304 \<and> rw_body w' = ''''
     \<and> Header_Get (final_header w') ''Etag'' = quoted (fi_hash fi)"
proof -
  let ?w = "static_headers fi enc (query_Get r ''hash'') new_response"
  define w1 where "w1 = (if isZeroTime (ei_modtime enc) then ?w
     else set_header ''Last-Modified'' (se_formatTime env (ei_modtime enc)) ?w)"
  note sh = static_headers_facts [of fi enc "query_Get r ''hash''" new_response]
  have et: "Header_Get (rw_header ?w) ''Etag'' = quoted (fi_hash fi)"
    using sh(2) by (simp add: Header_Get_def new_response_def Header_Values_def)
  have w1: "Header_Get (rw_header w1) ''Etag'' = quoted (fi_hash fi)" "rw_sent w1 = None" "rw_body w1 = ''''"
    using et sh(1) by (auto simp: w1_def set_header_def header_defs untouched_def new_response_def)
  have pre: "checkPreconditions env r (ei_modtime enc) w1 = Inl (writeNotModified w1)"
    using assms(5-9) checkIfNoneMatch_quoted [OF assms(5,6) w1(1)]
    by (simp add: checkPreconditions_def checkIfMatch_def checkIfUnmodifiedSince_def Let_def is_get_or_head_def)
  obtain w' where w': "writeNotModified w1 = Inr w'" "final_status w' = 304" "rw_body w' = ''''"
    "Header_Get (final_header w') ''Etag'' = quoted (fi_hash fi)"
    using w1 by (auto simp: writeNotModified_def Let_def WriteHeader_final final_status_def final_header_def header_defs)
  have "http_ServeContent env r (ei_path enc) (ei_modtime enc) s ?w = Inr w'"
    unfolding http_ServeContent_def Let_def w1_def [symmetric] using pre w'(1) by simp
  then show ?thesis
    using assms(1-4) w' by (auto simp: staticFileHandler_def fs_Open_def node_contents_def Let_def)
qed

section \<open>Examples\<close>

definition css_file :: fileInfo where
  "css_file = \<lparr>fi_identityPath = ''/assets/reset.css'', fi_hash = ''sha384-Ab_1'',
     fi_contentType = ''text/css; charset=utf-8'', fi_encodings = css_encodings\<rparr>"

definition css_fs :: fsys where
  "css_fs = \<lparr>fs_node = (\<lambda>p. if p = ''assets/reset.css.gz'' then Inr (RegFile ''zipped'')
       else if p = ''assets/reset.css'' then Inr (RegFile ''plain'') else Inl (ErrMsg ''no file'')),
     fs_closeErr = (\<lambda>_. None)\<rparr>"

definition css_request :: "(string \<times> string) list \<Rightarrow> header \<Rightarrow> request" where
  "css_request query hdr = (get_request ''/assets/reset.css'')\<lparr>r_query := query, r_header := hdr\<rparr>"

definition plain_env :: serveEnv where
  "plain_env = \<lparr>se_parseTime = (\<lambda>_. None), se_formatTime = Itoa, se_guessType = (\<lambda>_ _. ''text/plain''),
     se_multipart = (\<lambda>_ _ _. '''')\<rparr>"

lemma staticFileHandler_serves_witness:
  "\<exists>w' h'. staticFileHandler ParseDecimal plain_env css_fs css_file
      (css_request [(''hash'', ''sha384-Ab_1'')] [''Accept-Encoding'' \<mapsto> [''gzip'']]) new_response no_handles = (Inr w', h')
     \<and> final_status w' = 200 \<and> rw_body w' = ''zipped''
     \<and> Header_Values (final_header w') ''Content-Encoding'' = [''gzip'']
     \<and> Header_Values (final_header w') ''Cache-Control'' = [''public, max-age=31536000, immutable'']"
proof -
  let ?r = "css_request [(''hash'', ''sha384-Ab_1'')] [''Accept-Encoding'' \<mapsto> [''gzip'']]"
  have a: "Clean (r_path ?r) = fi_identityPath css_file" by code_simp
  have b: "query_Get ?r ''hash'' = '''' \<or> query_Get ?r ''hash'' = fi_hash css_file" by code_simp
  have c: "fst (negiotiateEncoding ParseDecimal (Header_Values (r_header ?r) ''Accept-Encoding'')
     (fi_encodings css_file)) = Some (css_encodings ! 1)" by code_simp
  have d: "fs_node css_fs (ei_path (css_encodings ! 1)) = Inr (RegFile ''zipped'')" by code_simp
  have e: "plain_request ?r" by code_simp
  have f: "ei_encoding (css_encodings ! 1) \<noteq> ''''" by code_simp
  have "ei_encoding (css_encodings ! 1) = ''gzip''" and "query_Get ?r ''hash'' \<noteq> ''''" by code_simp+
  with staticFileHandler_serves [OF a b c d e f handles_wf_none, of plain_env] show ?thesis
    by (elim exE conjE) (intro exI conjI, assumption+, simp_all)
qed

lemma staticFileHandler_wrong_hash_witness:
  "\<exists>w'. staticFileHandler ParseDecimal plain_env css_fs css_file (css_request [(''hash'', ''old'')] Map.empty)
     new_response no_handles = (Inr w', no_handles) \<and> final_status w' = 404"
proof -
  let ?r = "css_request [(''hash'', ''old'')] Map.empty"
  have "query_Get ?r ''hash'' \<noteq> ''''" and "query_Get ?r ''hash'' \<noteq> fi_hash css_file" by code_simp+
  from staticFileHandler_wrong_hash [OF this untouched_new] show ?thesis by blast
qed

lemma staticFileHandler_not_modified_witness:
  "\<exists>w' h'. staticFileHandler ParseDecimal plain_env css_fs css_file
      (css_request [] [''If-None-Match'' \<mapsto> [quoted ''sha384-Ab_1'']]) new_response no_handles = (Inr w', h')
     \<and> final_status w' = 304 \<and> rw_body w' = ''''"
proof -
  let ?r = "css_request [] [''If-None-Match'' \<mapsto> [quoted ''sha384-Ab_1'']]"
  have a: "Clean (r_path ?r) = fi_identityPath css_file" by code_simp
  have b: "query_Get ?r ''hash'' = '''' \<or> query_Get ?r ''hash'' = fi_hash css_file" by code_simp
  have c: "fst (negiotiateEncoding ParseDecimal (Header_Values (r_header ?r) ''Accept-Encoding'')
     (fi_encodings css_file)) = Some (css_encodings ! 2)" by code_simp
  have d: "fs_node css_fs (ei_path (css_encodings ! 2)) = Inr (RegFile ''plain'')" by code_simp
  have e: "Header_Get (r_header ?r) ''If-None-Match'' = quoted (fi_hash css_file)" by code_simp
  have f: "list_all etag_byte (fi_hash css_file)" by code_simp
  have g: "r_method ?r = ''GET''" by code_simp
  have i: "Header_Get (r_header ?r) ''If-Match'' = ''''" by code_simp
  have j: "Header_Get (r_header ?r) ''If-Unmodified-Since'' = ''''" by code_simp
  from staticFileHandler_not_modified [OF a b c d e f g i j, of plain_env no_handles] show ?thesis by blast
qed

end
