(* ===== verification/Go_ServeMux.thy ===== *)
theory Go_ServeMux
  imports Go_Http Go_Path
begin

text \<open>
  Go's \<^verbatim>\<open>http.ServeMux\<close> (as of Go 1.22): the syntax of patterns, the relation between two patterns, which decides
  whether the second may be registered, and how a request finds its handler. The tree the mux keeps is the
  list of its patterns here, searched in the order in which the tree is.
\<close>

section \<open>Patterns\<close>

record segment =
  sg_s :: string
  sg_wild :: bool
  sg_multi :: bool

record mux_pattern =
  pt_method :: string
  pt_host :: string
  pt_segs :: "segment list"

abbreviation lit_seg :: "string \<Rightarrow> segment" where
  "lit_seg s \<equiv> \<lparr>sg_s = s, sg_wild = False, sg_multi = False\<rparr>"

abbreviation wild_seg :: "string \<Rightarrow> bool \<Rightarrow> segment" where
  "wild_seg s multi \<equiv> \<lparr>sg_s = s, sg_wild = True, sg_multi = multi\<rparr>"

text \<open>\<^verbatim>\<open>url.PathUnescape\<close>; a path with a bad escape is left as it is.\<close>

definition hex_val :: "char \<Rightarrow> int option" where
  "hex_val c = (let n = byte_val c in
     if in_range 48 57 n then Some (n - 48) else if in_range 97 102 n then Some (n - 87)
     else if in_range 65 70 n then Some (n - 55) else None)"

fun unescape :: "string \<Rightarrow> string option" where
  "unescape [] = Some []"
| "unescape (c # cs) =
     (if c = CHR ''%'' then
        (case cs of
           a # b # rest \<Rightarrow>
             (case (hex_val a, hex_val b) of
                (Some x, Some y) \<Rightarrow> map_option ((#) (char_of (16 * x + y))) (unescape rest)
              | _ \<Rightarrow> None)
         | _ \<Rightarrow> None)
      else map_option ((#) c) (unescape cs))"

definition pathUnescape :: "string \<Rightarrow> string" where
  "pathUnescape s = (case unescape s of Some t \<Rightarrow> t | None \<Rightarrow> s)"

definition cleanPath :: "string \<Rightarrow> string" where
  "cleanPath p0 =
     (if p0 = '''' then ''/''
      else let p = (if hd p0 = slash then p0 else slash # p0); np = Clean p in
        if last p = slash \<and> np \<noteq> ''/'' then np @ [slash] else np)"

text \<open>One segment of a pattern; \<open>is_last\<close> says that nothing follows it, \<open>seen\<close> holds the wildcard names used so far.\<close>

definition parse_segment :: "unicode \<Rightarrow> bool \<Rightarrow> string list \<Rightarrow> string \<Rightarrow> string + segment" where
  "parse_segment uni is_last seen seg =
     (if CHR ''{'' \<notin> set seg then Inr (lit_seg (pathUnescape seg))
      else if hd seg \<noteq> CHR ''{'' then Inl ''bad wildcard segment (must start with '{')''
      else if last seg \<noteq> CHR ''}'' then Inl ''bad wildcard segment (must end with '}')''
      else
        let name0 = butlast (tl seg) in
        if name0 = ''$'' then (if is_last then Inr (lit_seg ''/'') else Inl ''{$} not at end'')
        else
          let multi = HasSuffix name0 ''...''; name = TrimSuffix name0 ''...'' in
          if multi \<and> \<not> is_last then Inl ''{...} wildcard not at end''
          else if name = '''' then Inl ''empty wildcard''
          else if \<not> is_ident uni name then Inl ''bad wildcard name''
          else if name \<in> set seen then Inl ''duplicate wildcard name''
          else Inr (wild_seg name multi))"

fun parse_segments :: "unicode \<Rightarrow> string list \<Rightarrow> string list \<Rightarrow> string + segment list" where
  "parse_segments uni seen [] = Inr []"
| "parse_segments uni seen (seg # segs) =
     (if seg = '''' \<and> segs = [] then Inr [wild_seg '''' True]
      else case parse_segment uni (segs = []) seen seg of
        Inl e \<Rightarrow> Inl e
      | Inr s \<Rightarrow>
          map_sum id ((#) s) (parse_segments uni (if sg_wild s then sg_s s # seen else seen) segs))"

definition blank :: "char \<Rightarrow> bool" where
  "blank c \<longleftrightarrow> byte_val c = 32 \<or> byte_val c = 9"

definition parsePattern :: "unicode \<Rightarrow> string \<Rightarrow> string + mux_pattern" where
  "parsePattern uni s =
     (if s = '''' then Inl ''empty pattern''
      else
        let found = list_ex blank s;
            method = (if found then takeWhile (\<lambda>c. \<not> blank c) s else '''');
            rest = (if found then dropWhile blank (tl (dropWhile (\<lambda>c. \<not> blank c) s)) else s) in
        if method \<noteq> '''' \<and> \<not> list_all token_byte method then Inl ''invalid method''
        else if slash \<notin> set rest then Inl ''host/path missing /''
        else
          let host = takeWhile (\<lambda>c. c \<noteq> slash) rest; path = dropWhile (\<lambda>c. c \<noteq> slash) rest in
          if CHR ''{'' \<in> set host then Inl ''host contains '{' (missing initial '/'?)''
          else if method \<noteq> '''' \<and> method \<noteq> ''CONNECT'' \<and> path \<noteq> cleanPath path
          then Inl ''non-CONNECT pattern with unclean path can never match''
          else map_sum id (\<lambda>segs. \<lparr>pt_method = method, pt_host = host, pt_segs = segs\<rparr>)
                 (parse_segments uni [] (Split (tl path) slash)))"

section \<open>How two patterns are related\<close>

datatype relationship = equivalent | moreGeneral | moreSpecific | disjoint | overlaps

fun combineRelationships :: "relationship \<Rightarrow> relationship \<Rightarrow> relationship" where
  "combineRelationships equivalent r = r"
| "combineRelationships disjoint r = disjoint"
| "combineRelationships overlaps r = (if r = disjoint then disjoint else overlaps)"
| "combineRelationships moreGeneral r =
     (if r = equivalent then moreGeneral else if r = moreSpecific then overlaps else r)"
| "combineRelationships moreSpecific r =
     (if r = equivalent then moreSpecific else if r = moreGeneral then overlaps else r)"

definition compareMethods :: "string \<Rightarrow> string \<Rightarrow> relationship" where
  "compareMethods m1 m2 =
     (if m1 = m2 then equivalent
      else if m1 = '''' then moreGeneral
      else if m2 = '''' then moreSpecific
      else if m1 = ''GET'' \<and> m2 = ''HEAD'' then moreGeneral
      else if m2 = ''GET'' \<and> m1 = ''HEAD'' then moreSpecific
      else disjoint)"

definition compareSegments :: "segment \<Rightarrow> segment \<Rightarrow> relationship" where
  "compareSegments s1 s2 =
     (if sg_multi s1 \<and> sg_multi s2 then equivalent
      else if sg_multi s1 then moreGeneral
      else if sg_multi s2 then moreSpecific
      else if sg_wild s1 \<and> sg_wild s2 then equivalent
      else if sg_wild s1 then (if sg_s s2 = ''/'' then disjoint else moreGeneral)
      else if sg_wild s2 then (if sg_s s1 = ''/'' then disjoint else moreSpecific)
      else if sg_s s1 = sg_s s2 then equivalent
      else disjoint)"

definition ends_multi :: "segment list \<Rightarrow> bool" where
  "ends_multi ss \<longleftrightarrow> ss \<noteq> [] \<and> sg_multi (last ss)"

text \<open>The loop over the segments; \<open>m1\<close> and \<open>m2\<close> say whether the whole patterns end in a multi wildcard.\<close>

fun compare_loop :: "bool \<Rightarrow> bool \<Rightarrow> relationship \<Rightarrow> segment list \<Rightarrow> segment list \<Rightarrow> relationship" where
  "compare_loop m1 m2 rel (s1 # ss1) (s2 # ss2) =
     (let rel' = combineRelationships rel (compareSegments s1 s2) in
      if rel' = disjoint then disjoint else compare_loop m1 m2 rel' ss1 ss2)"
| "compare_loop m1 m2 rel [] [] = rel"
| "compare_loop m1 m2 rel [] (s2 # ss2) = (if m1 then combineRelationships rel moreGeneral else disjoint)"
| "compare_loop m1 m2 rel (s1 # ss1) [] = (if m2 then combineRelationships rel moreSpecific else disjoint)"

definition comparePaths :: "segment list \<Rightarrow> segment list \<Rightarrow> relationship" where
  "comparePaths ss1 ss2 =
     (if length ss1 \<noteq> length ss2 \<and> \<not> ends_multi ss1 \<and> \<not> ends_multi ss2 then disjoint
      else compare_loop (ends_multi ss1) (ends_multi ss2) equivalent ss1 ss2)"

definition comparePathsAndMethods :: "mux_pattern \<Rightarrow> mux_pattern \<Rightarrow> relationship" where
  "comparePathsAndMethods p1 p2 =
     (let mrel = compareMethods (pt_method p1) (pt_method p2) in
      if mrel = disjoint then disjoint
      else combineRelationships mrel (comparePaths (pt_segs p1) (pt_segs p2)))"

definition conflictsWith :: "mux_pattern \<Rightarrow> mux_pattern \<Rightarrow> bool" where
  "conflictsWith p1 p2 \<longleftrightarrow> pt_host p1 = pt_host p2
     \<and> (let rel = comparePathsAndMethods p1 p2 in rel = equivalent \<or> rel = overlaps)"

section \<open>Registration\<close>

type_synonym 'h mux = "(mux_pattern \<times> 'h) list"

text \<open>\<^verbatim>\<open>HandleFunc\<close> panics on a pattern that does not parse or that conflicts with a registered one.\<close>

definition HandleFunc :: "unicode \<Rightarrow> string \<Rightarrow> 'h \<Rightarrow> 'h mux \<Rightarrow> 'h mux panics" where
  "HandleFunc uni pat h mux =
     (case parsePattern uni pat of
        Inl e \<Rightarrow> Inl (''parsing '' @ pat @ '': '' @ e)
      | Inr p \<Rightarrow>
          (if list_ex (\<lambda>(q, _). conflictsWith p q) mux then Inl (''pattern '' @ pat @ '' conflicts'')
           else Inr (mux @ [(p, h)])))"

section \<open>Matching\<close>

text \<open>The segments of a request path; a final slash is a segment of its own.\<close>

fun path_segments :: "string list \<Rightarrow> string list" where
  "path_segments [] = []"
| "path_segments [seg] = (if seg = '''' then [''/''] else [pathUnescape seg])"
| "path_segments (seg # segs) = pathUnescape seg # path_segments segs"

type_synonym 'a choices = "(segment list \<times> 'a) list"

fun after_literal :: "string \<Rightarrow> 'a choices \<Rightarrow> 'a choices" where
  "after_literal seg [] = []"
| "after_literal seg (([], a) # ps) = after_literal seg ps"
| "after_literal seg ((s # ss, a) # ps) =
     (if \<not> sg_wild s \<and> sg_s s = seg then (ss, a) # after_literal seg ps else after_literal seg ps)"

fun after_wild :: "'a choices \<Rightarrow> 'a choices" where
  "after_wild [] = []"
| "after_wild (([], a) # ps) = after_wild ps"
| "after_wild ((s # ss, a) # ps) =
     (if sg_wild s \<and> \<not> sg_multi s then (ss, a) # after_wild ps else after_wild ps)"

fun first_multi :: "'a choices \<Rightarrow> 'a option" where
  "first_multi [] = None"
| "first_multi (([], a) # ps) = first_multi ps"
| "first_multi ((s # ss, a) # ps) = (if sg_multi s then Some a else first_multi ps)"

fun first_leaf :: "'a choices \<Rightarrow> 'a option" where
  "first_leaf [] = None"
| "first_leaf (([], a) # ps) = Some a"
| "first_leaf ((s # ss, a) # ps) = first_leaf ps"

text \<open>A literal first, then a single wildcard (which does not match a final slash), then a multi wildcard.\<close>

fun match_path :: "'a choices \<Rightarrow> string list \<Rightarrow> 'a option" where
  "match_path ps [] = first_leaf ps"
| "match_path ps (seg # segs) =
     (case match_path (after_literal seg ps) segs of
        Some a \<Rightarrow> Some a
      | None \<Rightarrow>
          (case (if seg \<noteq> ''/'' then match_path (after_wild ps) segs else None) of
             Some a \<Rightarrow> Some a
           | None \<Rightarrow> first_multi ps))"

definition choices_for :: "string \<Rightarrow> string \<Rightarrow> 'h mux \<Rightarrow> (mux_pattern \<times> 'h) choices" where
  "choices_for host method mux =
     map (\<lambda>(p, h). (pt_segs p, (p, h))) (filter (\<lambda>(p, h). pt_host p = host \<and> pt_method p = method) mux)"

fun or_else :: "'a option \<Rightarrow> 'a option \<Rightarrow> 'a option" where
  "or_else (Some a) b = Some a"
| "or_else None b = b"

definition match_method_path :: "string \<Rightarrow> string \<Rightarrow> string \<Rightarrow> 'h mux \<Rightarrow> (mux_pattern \<times> 'h) option" where
  "match_method_path host method path mux =
     (let segs = path_segments (Split (tl path) slash); m = (\<lambda>me. match_path (choices_for host me mux) segs) in
      or_else (m method) (or_else (if method = ''HEAD'' then m ''GET'' else None) (m '''')))"

definition mux_match :: "string \<Rightarrow> string \<Rightarrow> string \<Rightarrow> 'h mux \<Rightarrow> (mux_pattern \<times> 'h) option" where
  "mux_match host method path mux =
     or_else (if host = '''' then None else match_method_path host method path mux)
       (match_method_path '''' method path mux)"

definition exactMatch :: "(mux_pattern \<times> 'h) option \<Rightarrow> string \<Rightarrow> bool" where
  "exactMatch n path = (case n of
     None \<Rightarrow> False
   | Some (p, _) \<Rightarrow>
       \<not> ends_multi (pt_segs p)
       \<or> (\<not> (path \<noteq> '''' \<and> last path \<noteq> slash)
          \<and> length (pt_segs p) = length (filter (\<lambda>c. c = slash) path)))"

datatype 'h mux_answer = Found mux_pattern 'h | Redirect string | MethodNotAllowed | NotFoundAnswer

text \<open>The handler for a request other than \<^verbatim>\<open>CONNECT\<close>: redirections to the path with a final slash and to the
  cleaned path come first.\<close>

definition findHandler :: "'h mux \<Rightarrow> request \<Rightarrow> 'h mux_answer" where
  "findHandler mux r =
     (let escaped = r_escaped r; path = cleanPath escaped;
          n = mux_match (r_host r) (r_method r) path mux;
          slashed = path @ [slash] in
      if \<not> exactMatch n path \<and> \<not> HasSuffix path ''/''
         \<and> exactMatch (mux_match (r_host r) (r_method r) slashed mux) slashed
      then Redirect (cleanPath (r_path r) @ [slash])
      else if path \<noteq> escaped then Redirect path
      else case n of
        Some (p, h) \<Rightarrow> Found p h
      | None \<Rightarrow>
          (if list_ex (\<lambda>(p, _). mux_match (r_host r) (pt_method p) path mux \<noteq> None) mux
           then MethodNotAllowed else NotFoundAnswer))"

section \<open>What registration guarantees\<close>

lemma compareSegments_refl [simp]: "compareSegments s s = equivalent"
  by (simp add: compareSegments_def)

lemma compare_loop_refl [simp]: "compare_loop m1 m2 equivalent ss ss = equivalent"
  by (induction ss) auto

lemma conflictsWith_refl [simp]: "conflictsWith p p"
  by (simp add: conflictsWith_def comparePathsAndMethods_def compareMethods_def comparePaths_def)

text \<open>The route \<open>pat\<close> is registered with the handler \<open>h\<close>.\<close>

definition mux_holds :: "unicode \<Rightarrow> 'h mux \<Rightarrow> string \<Rightarrow> 'h \<Rightarrow> bool" where
  "mux_holds uni mux pat h \<longleftrightarrow> (\<exists>p. parsePattern uni pat = Inr p \<and> (p, h) \<in> set mux)"

text \<open>No pattern conflicts with one registered before it.\<close>

definition mux_ok :: "'h mux \<Rightarrow> bool" where
  "mux_ok mux \<longleftrightarrow> sorted_wrt (\<lambda>(q, _) (p, _). \<not> conflictsWith p q) mux"

lemma HandleFunc_Inr:
  assumes "HandleFunc uni pat h mux = Inr mux'"
  shows "\<exists>p. parsePattern uni pat = Inr p \<and> mux' = mux @ [(p, h)] \<and> (\<forall>(q, _) \<in> set mux. \<not> conflictsWith p q)"
  using assms by (auto simp: HandleFunc_def list_ex_iff split: sum.splits if_splits)

lemma HandleFunc_ok: "mux_ok mux \<Longrightarrow> HandleFunc uni pat h mux = Inr mux' \<Longrightarrow> mux_ok mux'"
  by (auto simp: mux_ok_def sorted_wrt_append dest!: HandleFunc_Inr)

text \<open>
  What the builder relies on: a registered route stays registered, and registering a route a second time
  panics.
\<close>

locale router =
  fixes register :: "string \<Rightarrow> 'h \<Rightarrow> 'm \<Rightarrow> 'm panics"
    and holds :: "'m \<Rightarrow> string \<Rightarrow> 'h \<Rightarrow> bool"
  assumes register_holds: "register pat h m = Inr m' \<Longrightarrow> holds m' pat h"
    and register_keeps: "register pat h m = Inr m' \<Longrightarrow> holds m pat' h' \<Longrightarrow> holds m' pat' h'"
    and register_twice: "holds m pat h' \<Longrightarrow> \<exists>p. register pat h m = Inl p"
begin

lemma register_new: "register pat h m = Inr m' \<Longrightarrow> \<not> holds m pat h'"
  using register_twice [of m pat h' h] by auto

lemma register_all:
  assumes "fold_err (\<lambda>m (pat, h). register pat h m) m rs = Inr m'"
  shows "distinct (map fst rs) \<and> (\<forall>(pat, h) \<in> set rs. holds m' pat h \<and> (\<forall>h'. \<not> holds m pat h'))
     \<and> (\<forall>pat h. holds m pat h \<longrightarrow> holds m' pat h)"
  using assms
proof (induction rs arbitrary: m)
  case (Cons r rs)
  obtain pat h where r: "r = (pat, h)" by force
  with Cons.prems obtain m1 where m1: "register pat h m = Inr m1"
    and rest: "fold_err (\<lambda>m (pat, h). register pat h m) m1 rs = Inr m'"
    by (auto split: sum.splits)
  note IH = Cons.IH [OF rest]
  have "\<not> holds m pat h'" for h' by (rule register_new [OF m1])
  moreover have "holds m1 pat h" by (rule register_holds [OF m1])
  moreover have "holds m pat' h' \<Longrightarrow> holds m1 pat' h'" for pat' h' by (rule register_keeps [OF m1])
  ultimately show ?case using IH unfolding r by fastforce
qed simp

end

interpretation servemux: router "HandleFunc uni" "mux_holds uni" for uni
proof
  fix pat h m m' pat' h'
  assume "HandleFunc uni pat h m = Inr m'"
  then show "mux_holds uni m' pat h" and "mux_holds uni m pat' h' \<Longrightarrow> mux_holds uni m' pat' h'"
    by (auto simp: mux_holds_def dest!: HandleFunc_Inr)
next
  fix m pat h h'
  assume "mux_holds uni m pat h'"
  then obtain p where "parsePattern uni pat = Inr p" and "(p, h') \<in> set m" by (auto simp: mux_holds_def)
  then show "\<exists>p. HandleFunc uni pat h m = Inl p"
    by (auto simp: HandleFunc_def list_ex_iff intro!: bexI [of _ "(p, h')"])
qed
section \<open>Requests for literal paths\<close>

text \<open>Every segment of the pattern is the literal at the same place of the path.\<close>

definition literal_match :: "segment list \<Rightarrow> string list \<Rightarrow> bool" where
  "literal_match ss segs \<longleftrightarrow> list_all2 (\<lambda>s seg. \<not> sg_wild s \<and> \<not> sg_multi s \<and> sg_s s = seg) ss segs"

definition segs_ok :: "segment list \<Rightarrow> bool" where
  "segs_ok ss \<longleftrightarrow> (\<forall>s \<in> set ss. sg_multi s \<longrightarrow> sg_wild s)"

lemma first_leaf_mem: "([], a) \<in> set ps \<Longrightarrow> \<exists>a'. first_leaf ps = Some a' \<and> ([], a') \<in> set ps"
  by (induction ps rule: first_leaf.induct) auto

lemma after_literal_mem:
  "(ss, a) \<in> set (after_literal seg ps) \<longleftrightarrow> (\<exists>s. (s # ss, a) \<in> set ps \<and> \<not> sg_wild s \<and> sg_s s = seg)"
  by (induction seg ps rule: after_literal.induct) auto

lemma match_path_literal:
  assumes "(ss, a) \<in> set ps" and "literal_match ss segs" and "\<forall>(ss, a) \<in> set ps. segs_ok ss"
  shows "\<exists>ss' a'. match_path ps segs = Some a' \<and> (ss', a') \<in> set ps \<and> literal_match ss' segs"
  using assms
proof (induction segs arbitrary: ps ss)
  case Nil
  then have "([], a) \<in> set ps" by (simp add: literal_match_def)
  from first_leaf_mem [OF this] show ?case by (auto simp: literal_match_def)
next
  case (Cons seg segs)
  from Cons.prems(2) obtain s ss1 where ss: "ss = s # ss1" and s: "\<not> sg_wild s" "sg_s s = seg"
    and m: "literal_match ss1 segs"
    by (auto simp: literal_match_def list_all2_Cons2)
  have mem: "(ss1, a) \<in> set (after_literal seg ps)"
    using Cons.prems(1) ss s by (auto simp: after_literal_mem)
  have ok: "\<forall>(ss, a) \<in> set (after_literal seg ps). segs_ok ss"
    using Cons.prems(3) by (fastforce simp: after_literal_mem segs_ok_def)
  obtain ss' a' where r: "match_path (after_literal seg ps) segs = Some a'"
    "(ss', a') \<in> set (after_literal seg ps)" "literal_match ss' segs"
    using Cons.IH [OF mem m ok] by blast
  then obtain s' where s': "(s' # ss', a') \<in> set ps" "\<not> sg_wild s'" "sg_s s' = seg"
    by (auto simp: after_literal_mem)
  then have "\<not> sg_multi s'" using Cons.prems(3) by (fastforce simp: segs_ok_def)
  with s' r show ?case by (intro exI [of _ "s' # ss'"] exI [of _ a']) (simp add: literal_match_def)
qed

lemma literal_match_equivalent:
  "literal_match ss1 segs \<Longrightarrow> literal_match ss2 segs \<Longrightarrow> compare_loop m1 m2 equivalent ss1 ss2 = equivalent"
proof (induction segs arbitrary: ss1 ss2)
  case (Cons seg segs)
  then obtain s1 t1 s2 t2 where "ss1 = s1 # t1" "ss2 = s2 # t2" and l: "literal_match t1 segs" "literal_match t2 segs"
    and s: "\<not> sg_wild s1" "\<not> sg_wild s2" "\<not> sg_multi s1" "\<not> sg_multi s2" "sg_s s1 = sg_s s2"
    by (auto simp: literal_match_def list_all2_Cons2)
  moreover have "compareSegments s1 s2 = equivalent" using s by (simp add: compareSegments_def)
  ultimately show ?case using Cons.IH [OF l] by simp
qed (simp add: literal_match_def)

lemma literal_match_conflict:
  assumes "literal_match (pt_segs p) segs" and "literal_match (pt_segs q) segs"
    and "pt_method p = pt_method q" and "pt_host p = pt_host q"
  shows "conflictsWith p q"
proof -
  have "length (pt_segs p) = length (pt_segs q)"
    using list_all2_lengthD [OF assms(1) [unfolded literal_match_def]]
      list_all2_lengthD [OF assms(2) [unfolded literal_match_def]] by simp
  with assms show ?thesis
    by (simp add: conflictsWith_def comparePathsAndMethods_def compareMethods_def comparePaths_def
        literal_match_equivalent)
qed

lemma literal_not_multi: "literal_match ss segs \<Longrightarrow> \<not> ends_multi ss"
proof
  assume l: "literal_match ss segs" and e: "ends_multi ss"
  then have "last ss \<in> set ss" by (simp add: ends_multi_def)
  with l have "\<not> sg_multi (last ss)" unfolding literal_match_def
    by (metis (mono_tags, lifting) in_set_conv_nth list_all2_conv_all_nth)
  with e show False by (simp add: ends_multi_def)
qed

lemma mux_ok_distinct:
  assumes "mux_ok mux" and "(p, h) \<in> set mux" and "(q, k) \<in> set mux" and "conflictsWith p q" and "conflictsWith q p"
  shows "(p, h) = (q, k)"
proof (rule ccontr)
  assume ne: "(p, h) \<noteq> (q, k)"
  obtain i j where ij: "i < length mux" "mux ! i = (p, h)" "j < length mux" "mux ! j = (q, k)"
    using assms(2,3) by (metis in_set_conv_nth)
  with ne have "i < j \<or> j < i" by (metis linorder_neqE_nat)
  then show False
  proof
    assume "i < j"
    with sorted_wrt_nth_less [OF assms(1) [unfolded mux_ok_def]] ij assms(5) show False by fastforce
  next
    assume "j < i"
    with sorted_wrt_nth_less [OF assms(1) [unfolded mux_ok_def]] ij assms(4) show False by fastforce
  qed
qed

text \<open>Every pattern that parses is well formed.\<close>

lemma parse_segments_ok: "parse_segments uni seen segs = Inr ss \<Longrightarrow> segs_ok ss"
proof (induction uni seen segs arbitrary: ss rule: parse_segments.induct)
  case (2 uni seen seg segs)
  show ?case
  proof (cases "seg = '''' \<and> segs = []")
    case True
    with 2 show ?thesis by (auto simp: segs_ok_def)
  next
    case False
    with 2 obtain s ss' where "parse_segment uni (segs = []) seen seg = Inr s" and "segs_ok ss'" and "ss = s # ss'"
      by (auto split: sum.splits)
    moreover from this have "sg_multi s \<longrightarrow> sg_wild s"
      by (auto simp: parse_segment_def Let_def split: if_splits)
    ultimately show ?thesis by (simp add: segs_ok_def)
  qed
qed (simp add: segs_ok_def)

lemma parsePattern_ok: "parsePattern uni pat = Inr p \<Longrightarrow> segs_ok (pt_segs p)"
  by (auto simp: parsePattern_def Let_def split: if_splits dest: parse_segments_ok)
text \<open>A path that can be the name of a file: rooted, clean, not the root itself, and without wildcards.\<close>

definition literal_path :: "string \<Rightarrow> bool" where
  "literal_path key \<longleftrightarrow> key \<noteq> '''' \<and> hd key = slash \<and> Clean key = key \<and> key \<noteq> ''/'' \<and> CHR ''{'' \<notin> set key"

lemma literal_path_elems:
  assumes "literal_path key"
  obtains es where "key = slash # Join es slash" and "es \<noteq> []" and "\<forall>e \<in> set es. plain_elem e"
    and "Split (tl key) slash = es"
proof -
  have p: "key = slash # tl key" using assms unfolding literal_path_def by (metis list.collapse)
  define es where "es = clean_elems True (tl key)"
  have "Clean key = slash # Join es slash" using Clean_rooted [of "tl key"] p by (simp add: es_def)
  then have key: "key = slash # Join es slash" using assms by (simp add: literal_path_def)
  moreover have ne: "es \<noteq> []" using assms key by (auto simp: literal_path_def)
  moreover have pl: "\<forall>e \<in> set es. plain_elem e" unfolding es_def by (rule Clean_rooted_elems)
  moreover have "Split (tl key) slash = es"
    unfolding key using ne pl by (simp, intro Split_Join) (auto simp: plain_elem_def)
  ultimately show ?thesis by (rule that)
qed

lemma last_Join: "es \<noteq> [] \<Longrightarrow> last es \<noteq> [] \<Longrightarrow> last (Join es c) = last (last es)"
  by (induction es c rule: Join.induct) (auto simp: last_append Join_eq_Nil)

lemma cleanPath_literal: "literal_path key \<Longrightarrow> cleanPath key = key \<and> last key \<noteq> slash"
proof -
  assume l: "literal_path key"
  obtain es where es: "key = slash # Join es slash" "es \<noteq> []" "\<forall>e \<in> set es. plain_elem e"
    by (rule literal_path_elems [OF l])
  have p: "last es \<noteq> []" "slash \<notin> set (last es)" using es(2,3) by (simp_all add: plain_elem_def)
  have "es \<noteq> [[]]" using p by auto
  then have ne: "Join es slash \<noteq> []" using es(2) by (simp add: Join_eq_Nil)
  have "last key = last (last es)" using last_Join [OF es(2) p(1), of slash] ne by (simp add: es(1))
  moreover have "last (last es) \<in> set (last es)" using p by simp
  ultimately have "last key \<noteq> slash" using p(2) by metis
  with l show ?thesis by (simp add: cleanPath_def literal_path_def)
qed

lemma path_segments_plain:
  "es \<noteq> [] \<Longrightarrow> \<forall>e \<in> set es. e \<noteq> [] \<Longrightarrow> path_segments es = map pathUnescape es"
  by (induction es rule: path_segments.induct) auto

lemma parse_segments_literal:
  "\<forall>e \<in> set es. e \<noteq> [] \<and> CHR ''{'' \<notin> set e \<Longrightarrow>
   parse_segments uni seen es = Inr (map (\<lambda>e. lit_seg (pathUnescape e)) es)"
  by (induction es) (auto simp: parse_segment_def)

lemma set_elem_Join: "e \<in> set es \<Longrightarrow> set e \<subseteq> set (Join es c)"
  by (induction es c rule: Join.induct) auto

lemma parsePattern_literal:
  assumes "literal_path key"
  shows "parsePattern uni (''GET '' @ key) =
     Inr \<lparr>pt_method = ''GET'', pt_host = '''', pt_segs = map (\<lambda>e. lit_seg (pathUnescape e)) (Split (tl key) slash)\<rparr>"
proof -
  obtain es where es: "key = slash # Join es slash" "es \<noteq> []" "\<forall>e \<in> set es. plain_elem e" "Split (tl key) slash = es"
    by (rule literal_path_elems [OF assms])
  have b: "blank (CHR '' '')" "\<not> blank slash" "\<not> blank (CHR ''G'')" "\<not> blank (CHR ''E'')" "\<not> blank (CHR ''T'')"
    "list_all token_byte ''GET''"
    by code_simp+
  have brace: "CHR ''{'' \<notin> set (Join es slash)" using assms es by (simp add: literal_path_def)
  have segs: "parse_segments uni [] es = Inr (map (\<lambda>e. lit_seg (pathUnescape e)) es)"
    by (rule parse_segments_literal) (use es brace set_elem_Join [of _ es slash] in \<open>auto simp: plain_elem_def\<close>)
  have cp: "cleanPath (slash # Join es slash) = slash # Join es slash"
    using cleanPath_literal [OF assms] es(1) by simp
  have f: "list_ex blank (''GET '' @ key) = True" "takeWhile (\<lambda>c. \<not> blank c) (''GET '' @ key) = ''GET''"
    "dropWhile blank (tl (dropWhile (\<lambda>c. \<not> blank c) (''GET '' @ key))) = key"
    using b by (simp_all add: es(1))
  have g: "takeWhile (\<lambda>c. c \<noteq> slash) key = ''''" "dropWhile (\<lambda>c. c \<noteq> slash) key = key" "slash \<in> set key"
    by (simp_all add: es(1))
  show ?thesis
    unfolding parsePattern_def Let_def f if_True g es(4) segs using b(6) g(3) cp es(1) by simp
qed

lemma findHandler_literal:
  assumes "mux_ok mux" and "\<forall>(q, _) \<in> set mux. segs_ok (pt_segs q) \<and> pt_host q = ''''"
    and "literal_path key" and "mux_holds uni mux (''GET '' @ key) h"
    and "r_method r = ''GET''" and "r_escaped r = key"
  shows "\<exists>p. findHandler mux r = Found p h"
proof -
  obtain es where es: "key = slash # Join es slash" "es \<noteq> []" "\<forall>e \<in> set es. plain_elem e" "Split (tl key) slash = es"
    by (rule literal_path_elems [OF assms(3)])
  let ?segs = "map pathUnescape es" and ?lits = "map (\<lambda>e. lit_seg (pathUnescape e)) es"
  have "path_segments es = ?segs" by (rule path_segments_plain) (use es in \<open>auto simp: plain_elem_def\<close>)
  then have ps: "path_segments (Split (tl key) slash) = ?segs" by (simp add: es(4))
  define p where "p = \<lparr>pt_method = ''GET'', pt_host = '''', pt_segs = ?lits\<rparr>"
  have mem: "(p, h) \<in> set mux"
    using assms(4) parsePattern_literal [OF assms(3), of uni] es(4) by (auto simp: mux_holds_def p_def)
  have lm: "literal_match ?lits ?segs"
    by (simp add: literal_match_def list_all2_map1 list_all2_map2 list.rel_refl)
  let ?ch = "choices_for '''' ''GET'' mux"
  have c1: "(?lits, (p, h)) \<in> set ?ch" using mem by (force simp: choices_for_def p_def)
  have c2: "\<forall>(ss, a) \<in> set ?ch. segs_ok ss" using assms(2) by (auto simp: choices_for_def)
  obtain ss' a' where r: "match_path ?ch ?segs = Some a'" "(ss', a') \<in> set ?ch" "literal_match ss' ?segs"
    using match_path_literal [OF c1 lm c2] by (elim exE conjE) (rule that)
  obtain q k where a': "a' = (q, k)" by force
  with r(2) have q: "(q, k) \<in> set mux" "pt_host q = ''''" "pt_method q = ''GET''" "pt_segs q = ss'"
    by (auto simp: choices_for_def)
  have "conflictsWith p q" "conflictsWith q p"
    using literal_match_conflict [of p ?segs q] literal_match_conflict [of q ?segs p] lm r(3) q by (simp_all add: p_def)
  from mux_ok_distinct [OF assms(1) mem q(1) this] have qk: "q = p" "k = h" by simp_all
  have m0: "match_method_path '''' ''GET'' key mux = Some (p, h)"
    using r(1) a' qk by (simp add: match_method_path_def Let_def ps)
  have none: "filter (\<lambda>(p, h). pt_host p = hst \<and> pt_method p = me) mux = []" if "hst \<noteq> ''''" for hst me
    using assms(2) that by (fastforce simp: filter_empty_conv)
  have empty: "match_path [] segs = None" for segs by (induction segs) auto
  have mh: "match_method_path hst ''GET'' key mux = None" if "hst \<noteq> ''''" for hst
    using none [OF that] by (simp add: match_method_path_def choices_for_def empty)
  have mm: "mux_match (r_host r) ''GET'' key mux = Some (p, h)" using m0 mh by (simp add: mux_match_def)
  have "exactMatch (Some (p, h)) key" using literal_not_multi [OF lm] by (simp add: exactMatch_def p_def)
  then show ?thesis
    using mm assms(5,6) cleanPath_literal [OF assms(3)] by (simp add: findHandler_def Let_def)
qed

end
