(* ===== verification/Build.thy ===== *)
theory Build
  imports Static_File Go_ServeMux "HOL-Library.AList"
begin

text \<open>
  Building an instance (\<^verbatim>\<open>build.go\<close>): \<^verbatim>\<open>addStaticFileHandler\<close> and \<^verbatim>\<open>addTemplateHandler\<close>, called for every file of the
  templates directory. \<^verbatim>\<open>*fileInfo\<close> pointers are indices into a heap, because the handler of a file and the map
  \<^verbatim>\<open>files\<close> share one \<^verbatim>\<open>fileInfo\<close> that a compressed file found later changes. \<open>'p\<close> is the type of parsed templates.
\<close>

section \<open>The state of the builder\<close>

datatype 'p handler = HStatic nat | HBuffer 'p | HFlush 'p

record InstanceStats =
  Routes :: int
  TemplateFiles :: int
  TemplateDefinitions :: int
  TemplateInitializers :: int
  StaticFiles :: int
  StaticFilesAlternateEncodings :: int

record 'p builder =
  b_heap :: "fileInfo list"
  b_files :: "(string \<times> nat) list"
  b_mux :: "'p handler mux"
  b_routes :: "(string \<times> 'p handler) list"
  b_templates :: "(string \<times> 'p) list"
  b_stats :: InstanceStats

definition new_builder :: "'p builder" where
  "new_builder = \<lparr>b_heap = [], b_files = [], b_mux = [], b_routes = [], b_templates = [],
     b_stats = \<lparr>Routes = 0, TemplateFiles = 0, TemplateDefinitions = 0, TemplateInitializers = 0,
       StaticFiles = 0, StaticFilesAlternateEncodings = 0\<rparr>\<rparr>"

text \<open>\<^verbatim>\<open>catch\<close> turns a panic of the function into an error.\<close>

definition catch :: "string \<Rightarrow> 'a panics \<Rightarrow> 'a result" where
  "catch description fn = map_sum (\<lambda>r. ErrMsg (''failed to '' @ description @ '': '' @ r)) id fn"

definition add_route :: "unicode \<Rightarrow> string \<Rightarrow> 'p handler \<Rightarrow> 'p builder \<Rightarrow> 'p builder result" where
  "add_route uni pat h b =
     (case catch (''add handler to servemux '' @ single_quoted pat) (HandleFunc uni pat h (b_mux b)) of
        Inl e \<Rightarrow> Inl e
      | Inr mux \<Rightarrow> Inr (b\<lparr>b_mux := mux, b_routes := b_routes b @ [(pat, h)],
          b_stats := (b_stats b)\<lparr>Routes := Routes (b_stats b) + 1\<rparr>\<rparr>))"

section \<open>Hashes\<close>

text \<open>\<^verbatim>\<open>base64.URLEncoding.EncodeToString\<close>.\<close>

definition b64_char :: "int \<Rightarrow> char" where
  "b64_char n = ''ABCDEFGHIJKLMNOPQRSTUVWXYZabcdefghijklmnopqrstuvwxyz0123456789-_'' ! nat n"

fun base64url :: "string \<Rightarrow> string" where
  "base64url [] = []"
| "base64url [a] = (let n = byte_val a * 16 in [b64_char (n div 64), b64_char (n mod 64), CHR ''='', CHR ''=''])"
| "base64url [a, b] = (let n = (byte_val a * 256 + byte_val b) * 4 in
     [b64_char (n div 4096), b64_char (n div 64 mod 64), b64_char (n mod 64), CHR ''=''])"
| "base64url (a # b # c # rest) = (let n = byte_val a * 65536 + byte_val b * 256 + byte_val c in
     b64_char (n div 262144) # b64_char (n div 4096 mod 64) # b64_char (n div 64 mod 64) # b64_char (n mod 64)
       # base64url rest)"

text \<open>
  Code outside the repository: SHA-384, the decompressors (the first error is the constructor's, the second
  the reader's), and \<^verbatim>\<open>http.DetectContentType\<close>.
\<close>

record codecs =
  cd_sha384 :: "string \<Rightarrow> string"
  cd_gzip :: "string \<Rightarrow> string result result"
  cd_zstd :: "string \<Rightarrow> string result result"
  cd_brotli :: "string \<Rightarrow> string result"
  cd_detect :: "string \<Rightarrow> string"

definition sri :: "codecs \<Rightarrow> string \<Rightarrow> string" where
  "sri cd content = ''sha384-'' @ base64url (cd_sha384 cd content)"

section \<open>Static files\<close>

definition extensionContentTypes :: "string \<Rightarrow> string option" where
  "extensionContentTypes ext =
     (if ext = ''.css'' then Some ''text/css; charset=utf-8''
      else if ext = ''.js'' then Some ''text/javascript; charset=utf-8''
      else if ext = ''.csv'' then Some ''text/csv''
      else None)"

text \<open>The reader and the encoding for a file with this extension, when the file without it exists.\<close>

definition encoded_reader :: "codecs \<Rightarrow> string \<Rightarrow> string \<Rightarrow> string result result \<times> string" where
  "encoded_reader cd ext content =
     (if ext = ''.gz'' then (cd_gzip cd content, ''gzip'')
      else if ext = ''.zst'' then (cd_zstd cd content, ''zstd'')
      else if ext = ''.br'' then (Inr (cd_brotli cd content), ''br'')
      else (Inr (Inr content), ''identity''))"

text \<open>
  The two ways \<^verbatim>\<open>addStaticFileHandler\<close> ends. An identity file gets the hash, the path, the content type and a
  single encoding, and a route; a compressed one is added to the encodings of its identity file.
\<close>

definition add_identity ::
  "codecs \<Rightarrow> unicode \<Rightarrow> string \<Rightarrow> string \<Rightarrow> int \<Rightarrow> string \<Rightarrow> string \<Rightarrow> nat \<Rightarrow> 'p builder \<Rightarrow> 'p builder result" where
  "add_identity cd uni path content modtime identityPath digest addr b =
     (let ext = Ext path;
          ctype = (case extensionContentTypes ext of Some t \<Rightarrow> t | None \<Rightarrow> cd_detect cd (take 512 content));
          enc = \<lparr>ei_encoding = ''identity'', ei_path = path, ei_size = int (length content), ei_modtime = modtime\<rparr>;
          file = \<lparr>fi_identityPath = identityPath, fi_hash = digest, fi_contentType = ctype, fi_encodings = [enc]\<rparr>;
          b1 = b\<lparr>b_heap := (b_heap b)[addr := file]\<rparr> in
      case add_route uni (''GET '' @ identityPath) (HStatic addr) b1 of
        Inl e \<Rightarrow> Inl e
      | Inr b2 \<Rightarrow> Inr (b2\<lparr>b_files := AList.update identityPath addr (b_files b2),
          b_stats := (b_stats b2)\<lparr>StaticFiles := StaticFiles (b_stats b2) + 1\<rparr>\<rparr>))"

definition add_encoding ::
  "string \<Rightarrow> string \<Rightarrow> int \<Rightarrow> string \<Rightarrow> string \<Rightarrow> nat \<Rightarrow> 'p builder \<Rightarrow> 'p builder result" where
  "add_encoding path content modtime encoding digest addr b =
     (let file = b_heap b ! addr;
          enc = \<lparr>ei_encoding = encoding, ei_path = path, ei_size = int (length content), ei_modtime = modtime\<rparr> in
      if fi_hash file \<noteq> digest then
        Inl (ErrMsg (''encoded file contents did not match original file '' @ single_quoted path
          @ '': expected '' @ fi_hash file @ '', got '' @ digest))
      else Inr (b\<lparr>b_heap := (b_heap b)[addr :=
             file\<lparr>fi_encodings := sort_key ei_size (fi_encodings file @ [enc])\<rparr>],
           b_stats := (b_stats b)\<lparr>StaticFilesAlternateEncodings :=
             StaticFilesAlternateEncodings (b_stats b) + 1\<rparr>\<rparr>))"

text \<open>\<open>openf\<close> is \<^verbatim>\<open>TemplatesFS.Open\<close> with \<^verbatim>\<open>Stat\<close>: the contents of a file and its modification time.\<close>

definition addStaticFileHandler ::
  "codecs \<Rightarrow> unicode \<Rightarrow> (string \<Rightarrow> (string \<times> int) result) \<Rightarrow> string \<Rightarrow> 'p builder \<Rightarrow> 'p builder result" where
  "addStaticFileHandler cd uni openf path b =
     (case openf path of
        Inl e \<Rightarrow> Inl (Wrapf (''failed to open static file '' @ single_quoted path) e)
      | Inr (content, modtime) \<Rightarrow>
          (let ext = Ext path; trimmed = TrimSuffix (Clean (slash # path)) ext in
           case map_of (b_files b) trimmed of
             None \<Rightarrow>
               add_identity cd uni path content modtime (Clean (slash # path)) (sri cd content) (length (b_heap b))
                 (b\<lparr>b_heap := b_heap b @ [\<lparr>fi_identityPath = '''', fi_hash = '''', fi_contentType = '''', fi_encodings = []\<rparr>]\<rparr>)
           | Some addr \<Rightarrow>
               (case encoded_reader cd ext content of
                  (Inl e, _) \<Rightarrow> Inl (Wrapf (''failed to create decompressor for file '' @ path) e)
                | (Inr (Inl e), _) \<Rightarrow> Inl (Wrapf ''failed to hash file'' e)
                | (Inr (Inr decoded), encoding) \<Rightarrow>
                    (if encoding = ''identity''
                     then add_identity cd uni path content modtime trimmed (sri cd decoded) addr b
                     else add_encoding path content modtime encoding (sri cd decoded) addr b))))"

section \<open>Templates\<close>

text \<open>\<^verbatim>\<open>routeMatcher\<close>: a method of the list, a blank, and anything but newlines.\<close>

definition route_methods :: "string list" where
  "route_methods = [''GET'', ''POST'', ''PUT'', ''PATCH'', ''DELETE'', ''SSE'']"

definition routeMatcher :: "string \<Rightarrow> (string \<times> string) option" where
  "routeMatcher name =
     (case find (\<lambda>m. HasPrefix name (m @ '' '')) route_methods of
        None \<Rightarrow> None
      | Some m \<Rightarrow> (let rest = drop (length m + 1) name in if CHR 0x0A \<in> set rest then None else Some (m, rest)))"

text \<open>The path a template file handles.\<close>

definition template_route :: "string \<Rightarrow> string \<Rightarrow> string" where
  "template_route extension path =
     (let routePath = TrimSuffix path extension; base = Base routePath;
          routePath = (if base = ''index'' then Dir routePath @ ''/''
                       else if base = ''index{$}'' then Dir routePath @ ''/{$}'' else routePath)
      in Clean routePath)"

definition hidden :: "string \<Rightarrow> bool" where
  "hidden path \<longleftrightarrow> (let file = snd (path_Split path) in file \<noteq> '''' \<and> hd file = CHR ''.'')"

text \<open>The pattern and the handler for one template definition, if it is to be routed.\<close>

definition template_pattern :: "string \<Rightarrow> string \<Rightarrow> string \<Rightarrow> 'p \<Rightarrow> (string \<times> 'p handler) option" where
  "template_pattern extension path name tmpl =
     (if name = path then
        (if hidden path then None else Some (''GET '' @ template_route extension path, HBuffer tmpl))
      else case routeMatcher name of
        Some (method, p) \<Rightarrow>
          (if method = ''SSE'' then Some (''GET '' @ p, HFlush tmpl) else Some (method @ '' '' @ p, HBuffer tmpl))
      | None \<Rightarrow> None)"

definition add_definition ::
  "unicode \<Rightarrow> string \<Rightarrow> string \<Rightarrow> 'p builder \<Rightarrow> string \<times> 'p \<Rightarrow> 'p builder result" where
  "add_definition uni extension path b nt =
     (case nt of (name, tmpl) \<Rightarrow>
        let b1 = b\<lparr>b_templates := AList.update name tmpl (b_templates b),
              b_stats := (b_stats b)\<lparr>TemplateDefinitions := TemplateDefinitions (b_stats b) + 1\<rparr>\<rparr> in
        case template_pattern extension path name tmpl of
          None \<Rightarrow> Inr b1
        | Some (pat, h) \<Rightarrow> add_route uni pat h b1)"

text \<open>
  \<open>minify\<close> is nil when templates are not minified; \<open>parse\<close> is \<^verbatim>\<open>text/template/parse.Parse\<close> with the delimiters and the
  functions of the instance: a map from names to trees, iterated in any order.
\<close>

definition addTemplateHandler ::
  "unicode \<Rightarrow> string \<Rightarrow> (string \<Rightarrow> string result) option \<Rightarrow> (string \<Rightarrow> string \<Rightarrow> (string \<times> 'p) list result)
   \<Rightarrow> (string \<Rightarrow> (string \<times> int) result) \<Rightarrow> string \<Rightarrow> 'p builder \<Rightarrow> 'p builder result" where
  "addTemplateHandler uni extension minify parse openf path0 b =
     (case openf path0 of
        Inl e \<Rightarrow> Inl (Opaquef (''could not read template file '' @ single_quoted path0) e)
      | Inr (content0, _) \<Rightarrow>
          (case (case minify of None \<Rightarrow> Inr content0 | Some m \<Rightarrow> m content0) of
             Inl e \<Rightarrow> Inl (Opaquef (''could not minify template file '' @ single_quoted path0) e)
           | Inr content \<Rightarrow>
               (let path = Clean (slash # path0) in
                case parse path content of
                  Inl e \<Rightarrow> Inl (Opaquef (''could not parse template file '' @ single_quoted path) e)
                | Inr newtemplates \<Rightarrow>
                    fold_err (add_definition uni extension path)
                      (b\<lparr>b_stats := (b_stats b)\<lparr>TemplateFiles := TemplateFiles (b_stats b) + 1\<rparr>\<rparr>) newtemplates)))"

section \<open>The invariant of the builder\<close>

text \<open>The contents a stored encoding stands for.\<close>

definition decoded :: "codecs \<Rightarrow> string \<Rightarrow> string \<Rightarrow> string option" where
  "decoded cd encoding content =
     (case (if encoding = ''identity'' then Inr (Inr content) else if encoding = ''gzip'' then cd_gzip cd content
            else if encoding = ''zstd'' then cd_zstd cd content
            else if encoding = ''br'' then Inr (cd_brotli cd content) else Inl (ErrMsg ''unknown encoding'')) of
        Inr (Inr plain) \<Rightarrow> Some plain
      | _ \<Rightarrow> None)"

text \<open>An encoding describes a file that exists, and that file decodes to contents with the given hash.\<close>

definition encoding_ok ::
  "codecs \<Rightarrow> (string \<Rightarrow> (string \<times> int) result) \<Rightarrow> string \<Rightarrow> encodingInfo \<Rightarrow> bool" where
  "encoding_ok cd openf digest e \<longleftrightarrow>
     (\<exists>content plain. openf (ei_path e) = Inr (content, ei_modtime e) \<and> ei_size e = int (length content)
        \<and> decoded cd (ei_encoding e) content = Some plain \<and> digest = sri cd plain)"

definition file_ok ::
  "codecs \<Rightarrow> (string \<Rightarrow> (string \<times> int) result) \<Rightarrow> string \<Rightarrow> fileInfo \<Rightarrow> bool" where
  "file_ok cd openf key f \<longleftrightarrow>
     fi_identityPath f = key
     \<and> sorted (map ei_size (fi_encodings f))
     \<and> length (filter is_identity (fi_encodings f)) = 1
     \<and> (\<forall>e \<in> set (fi_encodings f). encoding_ok cd openf (fi_hash f) e)"

definition files_ok ::
  "unicode \<Rightarrow> codecs \<Rightarrow> (string \<Rightarrow> (string \<times> int) result) \<Rightarrow> 'p builder \<Rightarrow> bool" where
  "files_ok uni cd openf b \<longleftrightarrow>
     distinct (map fst (b_files b)) \<and> map snd (b_files b) = [0..<length (b_heap b)]
     \<and> (\<forall>(key, addr) \<in> set (b_files b).
          file_ok cd openf key (b_heap b ! addr) \<and> mux_holds uni (b_mux b) (''GET '' @ key) (HStatic addr))"

definition routes_ok :: "unicode \<Rightarrow> 'p builder \<Rightarrow> bool" where
  "routes_ok uni b \<longleftrightarrow> mux_ok (b_mux b) \<and> length (b_routes b) = length (b_mux b)
     \<and> (\<forall>i < length (b_routes b). parsePattern uni (fst (b_routes b ! i)) = Inr (fst (b_mux b ! i))
          \<and> snd (b_routes b ! i) = snd (b_mux b ! i))"

definition stats_ok :: "'p builder \<Rightarrow> bool" where
  "stats_ok b \<longleftrightarrow> Routes (b_stats b) = int (length (b_routes b))
     \<and> StaticFiles (b_stats b) = int (length (b_files b))
     \<and> StaticFilesAlternateEncodings (b_stats b) = (\<Sum>f\<leftarrow>b_heap b. int (length (fi_encodings f)) - 1)"

definition build_inv ::
  "unicode \<Rightarrow> codecs \<Rightarrow> (string \<Rightarrow> (string \<times> int) result) \<Rightarrow> 'p builder \<Rightarrow> bool" where
  "build_inv uni cd openf b \<longleftrightarrow> files_ok uni cd openf b \<and> routes_ok uni b \<and> stats_ok b"

lemma build_inv_new: "build_inv uni cd openf new_builder"
  by (simp add: build_inv_def files_ok_def routes_ok_def stats_ok_def mux_ok_def new_builder_def)

section \<open>Operations keep the invariant\<close>

lemma add_route_Inr:
  assumes "add_route uni pat h b = Inr b'"
  shows "\<exists>mux. HandleFunc uni pat h (b_mux b) = Inr mux
     \<and> b' = b\<lparr>b_mux := mux, b_routes := b_routes b @ [(pat, h)],
          b_stats := (b_stats b)\<lparr>Routes := Routes (b_stats b) + 1\<rparr>\<rparr>"
  using assms by (auto simp: add_route_def catch_def split: sum.splits)

lemma add_route_routes_ok:
  assumes "add_route uni pat h b = Inr b'" and "routes_ok uni b"
  shows "routes_ok uni b'"
proof -
  obtain mux where m: "HandleFunc uni pat h (b_mux b) = Inr mux"
    and b': "b_mux b' = mux" "b_routes b' = b_routes b @ [(pat, h)]"
    using add_route_Inr [OF assms(1)] by auto
  from HandleFunc_Inr [OF m] obtain p where p: "parsePattern uni pat = Inr p" "mux = b_mux b @ [(p, h)]" by blast
  have "mux_ok mux" using HandleFunc_ok [OF _ m] assms(2) by (simp add: routes_ok_def)
  with assms(2) p b' show ?thesis by (auto simp: routes_ok_def nth_append less_Suc_eq)
qed

lemma add_route_files_ok:
  assumes "add_route uni pat h b = Inr b'" and "files_ok uni cd openf b"
  shows "files_ok uni cd openf b'"
proof -
  obtain mux where m: "HandleFunc uni pat h (b_mux b) = Inr mux"
    and b': "b_mux b' = mux" "b_files b' = b_files b" "b_heap b' = b_heap b"
    using add_route_Inr [OF assms(1)] by auto
  from assms(2) servemux.register_keeps [OF m] show ?thesis
    unfolding files_ok_def b' by fast
qed

lemma add_route_inv:
  assumes "add_route uni pat h b = Inr b'" and "build_inv uni cd openf b"
  shows "build_inv uni cd openf b'"
proof -
  have "stats_ok b'" using add_route_Inr [OF assms(1)] assms(2) by (auto simp: build_inv_def stats_ok_def)
  with assms add_route_files_ok add_route_routes_ok show ?thesis unfolding build_inv_def by blast
qed

lemma build_inv_templates:
  "build_inv uni cd openf b \<Longrightarrow> build_inv uni cd openf (b\<lparr>b_templates := ts,
     b_stats := (b_stats b)\<lparr>TemplateDefinitions := n\<rparr>\<rparr>)"
  "build_inv uni cd openf b \<Longrightarrow> build_inv uni cd openf (b\<lparr>b_stats := (b_stats b)\<lparr>TemplateFiles := n\<rparr>\<rparr>)"
  by (simp_all add: build_inv_def files_ok_def routes_ok_def stats_ok_def)

lemma add_definition_inv:
  "add_definition uni ext path b nt = Inr b' \<Longrightarrow> build_inv uni cd openf b \<Longrightarrow> build_inv uni cd openf b'"
  by (auto simp: add_definition_def Let_def split: prod.splits option.splits
      dest: add_route_inv intro: build_inv_templates)

lemma addTemplateHandler_inv:
  assumes "addTemplateHandler uni ext minify parse openf' path b = Inr b'" and "build_inv uni cd openf b"
  shows "build_inv uni cd openf b'"
proof -
  obtain p ts where f: "fold_err (add_definition uni ext p)
      (b\<lparr>b_stats := (b_stats b)\<lparr>TemplateFiles := TemplateFiles (b_stats b) + 1\<rparr>\<rparr>) ts = Inr b'"
    using assms(1) by (auto simp: addTemplateHandler_def Let_def split: sum.splits prod.splits)
  show ?thesis
  proof (rule fold_err_invariant [OF f])
    show "build_inv uni cd openf (b\<lparr>b_stats := (b_stats b)\<lparr>TemplateFiles := TemplateFiles (b_stats b) + 1\<rparr>\<rparr>)"
      by (rule build_inv_templates(2) [OF assms(2)])
  qed (rule add_definition_inv)
qed
subsection \<open>Static files\<close>

lemma update_new: "k \<notin> fst ` set al \<Longrightarrow> AList.update k v al = al @ [(k, v)]"
  by (induction al) auto

lemma files_ok_addr:
  assumes "files_ok uni cd openf b" and "(key, a) \<in> set (b_files b)"
  shows "a < length (b_heap b)"
proof -
  have "a \<in> set (map snd (b_files b))" using assms(2) by force
  also have "map snd (b_files b) = [0..<length (b_heap b)]" using assms(1) by (simp add: files_ok_def)
  finally show ?thesis by simp
qed

text \<open>A route for the path of a known file is refused, so a second identity file under the same path is an error.\<close>

lemma add_identity_twice:
  assumes "files_ok uni cd openf b" and "(key, a) \<in> set (b_files b)"
  shows "\<exists>e. add_identity cd uni path content modtime key digest addr b = Inl e"
proof -
  have "mux_holds uni (b_mux b) (''GET '' @ key) (HStatic a)" using assms by (auto simp: files_ok_def)
  from servemux.register_twice [OF this] obtain p where "HandleFunc uni (''GET '' @ key) (HStatic addr) (b_mux b) = Inl p"
    by blast
  then show ?thesis by (simp add: add_identity_def Let_def add_route_def catch_def)
qed

lemma files_ok_key:
  assumes "files_ok uni cd openf b" and "HandleFunc uni (''GET '' @ key) h (b_mux b) = Inr mux"
  shows "key \<notin> fst ` set (b_files b)"
proof
  assume "key \<in> fst ` set (b_files b)"
  then obtain a where "(key, a) \<in> set (b_files b)" by auto
  with assms(1) have "mux_holds uni (b_mux b) (''GET '' @ key) (HStatic a)" by (auto simp: files_ok_def)
  with servemux.register_new [OF assms(2)] show False by blast
qed

lemma files_ok_extend:
  assumes fok: "files_ok uni cd openf b" and m: "HandleFunc uni (''GET '' @ key) (HStatic (length (b_heap b))) (b_mux b) = Inr (b_mux b')"
    and files: "b_files b' = b_files b @ [(key, length (b_heap b))]" and heap: "b_heap b' = b_heap b @ [f]" and f: "file_ok cd openf key f"
  shows "files_ok uni cd openf b'"
proof -
  have "file_ok cd openf k (b_heap b' ! a) \<and> mux_holds uni (b_mux b') (''GET '' @ k) (HStatic a)"
    if "(k, a) \<in> set (b_files b')" for k a
  proof (cases "(k, a) \<in> set (b_files b)")
    case True
    with fok have "file_ok cd openf k (b_heap b ! a)" "mux_holds uni (b_mux b) (''GET '' @ k) (HStatic a)"
      by (auto simp: files_ok_def)
    with files_ok_addr [OF fok True] servemux.register_keeps [OF m] show ?thesis by (simp add: heap nth_append)
  next
    case False
    with that have "k = key" "a = length (b_heap b)" by (simp_all add: files)
    with f servemux.register_holds [OF m] show ?thesis by (simp add: heap)
  qed
  then have "\<forall>(k, a) \<in> set (b_files b'). file_ok cd openf k (b_heap b' ! a)
      \<and> mux_holds uni (b_mux b') (''GET '' @ k) (HStatic a)" by blast
  moreover have "distinct (map fst (b_files b')) \<and> map snd (b_files b') = [0..<length (b_heap b')]"
    using fok files_ok_key [OF fok m] by (simp add: files_ok_def files heap)
  ultimately show ?thesis unfolding files_ok_def by blast
qed

lemma add_identity_new:
  assumes inv: "build_inv uni cd openf b" and op: "openf path = Inr (content, modtime)"
    and add: "add_identity cd uni path content modtime key (sri cd content) (length (b_heap b))
       (b\<lparr>b_heap := b_heap b @ [f0]\<rparr>) = Inr b'"
  shows "build_inv uni cd openf b'"
    and "\<exists>f. b_files b' = b_files b @ [(key, length (b_heap b))] \<and> b_heap b' = b_heap b @ [f]"
proof -
  let ?n = "length (b_heap b)"
  define ctype where "ctype = (case extensionContentTypes (Ext path) of Some t \<Rightarrow> t | None \<Rightarrow> cd_detect cd (take 512 content))"
  define enc where "enc = \<lparr>ei_encoding = ''identity'', ei_path = path, ei_size = int (length content), ei_modtime = modtime\<rparr>"
  define f where "f = \<lparr>fi_identityPath = key, fi_hash = sri cd content, fi_contentType = ctype, fi_encodings = [enc]\<rparr>"
  define b1 where "b1 = b\<lparr>b_heap := b_heap b @ [f]\<rparr>"

  from add obtain b2 where r: "add_route uni (''GET '' @ key) (HStatic ?n) b1 = Inr b2"
    and b': "b' = b2\<lparr>b_files := AList.update key ?n (b_files b2),
        b_stats := (b_stats b2)\<lparr>StaticFiles := StaticFiles (b_stats b2) + 1\<rparr>\<rparr>"
    by (auto simp: add_identity_def Let_def b1_def f_def [symmetric] enc_def [symmetric] ctype_def [symmetric] split: sum.splits)
  from add_route_Inr [OF r] obtain mux where m: "HandleFunc uni (''GET '' @ key) (HStatic ?n) (b_mux b) = Inr mux"
    and b2: "b2 = b1\<lparr>b_mux := mux, b_routes := b_routes b1 @ [(''GET '' @ key, HStatic ?n)],
          b_stats := (b_stats b1)\<lparr>Routes := Routes (b_stats b1) + 1\<rparr>\<rparr>"
    by (auto simp: b1_def)
  have fok: "files_ok uni cd openf b" and rok: "routes_ok uni b" and sok: "stats_ok b"
    using inv by (simp_all add: build_inv_def)
  note new = files_ok_key [OF fok m]
  have files: "b_files b' = b_files b @ [(key, ?n)]" using new by (simp add: b' b2 b1_def update_new)
  have heap: "b_heap b' = b_heap b @ [f]" by (simp add: b' b2 b1_def)
  have mux: "b_mux b' = mux" by (simp add: b' b2)
  have f: "file_ok cd openf key f"
    using op by (simp add: file_ok_def f_def enc_def is_identity_def encoding_ok_def decoded_def)
  have "files_ok uni cd openf b'" by (rule files_ok_extend [OF fok m [folded mux] files heap f])
  moreover have "routes_ok uni b'"
    using add_route_routes_ok [OF r] rok by (simp add: routes_ok_def b1_def b')
  moreover have "stats_ok b'"
    using sok by (simp add: stats_ok_def files heap) (simp add: b' b2 b1_def f_def)
  ultimately show "build_inv uni cd openf b'" by (simp add: build_inv_def)
  show "\<exists>f. b_files b' = b_files b @ [(key, ?n)] \<and> b_heap b' = b_heap b @ [f]" using files heap by blast
qed

lemma sum_list_update_int:
  "k < length xs \<Longrightarrow> sum_list (xs[k := x]) = sum_list xs + x - (xs ! k :: int)"
  by (induction xs arbitrary: k) (auto split: nat.split)

lemma length_filter_sort_key [simp]: "length (filter P (sort_key f xs)) = length (filter P xs)"
  by (simp add: filter_sort)

lemma add_encoding_inv:
  assumes inv: "build_inv uni cd openf b" and mem: "(key, addr) \<in> set (b_files b)"
    and op: "openf path = Inr (content, modtime)" and enc: "encoding \<noteq> ''identity''"
    and dec: "decoded cd encoding content = Some plain"
    and add: "add_encoding path content modtime encoding (sri cd plain) addr b = Inr b'"
  shows "build_inv uni cd openf b'" and "b_files b' = b_files b" and "length (b_heap b') = length (b_heap b)"
proof -
  let ?f = "b_heap b ! addr"
  define e where "e = \<lparr>ei_encoding = encoding, ei_path = path, ei_size = int (length content), ei_modtime = modtime\<rparr>"
  define f where "f = ?f\<lparr>fi_encodings := sort_key ei_size (fi_encodings ?f @ [e])\<rparr>"
  from add have hash: "fi_hash ?f = sri cd plain"
    and b': "b' = b\<lparr>b_heap := (b_heap b)[addr := f],
      b_stats := (b_stats b)\<lparr>StaticFilesAlternateEncodings := StaticFilesAlternateEncodings (b_stats b) + 1\<rparr>\<rparr>"
    by (auto simp: add_encoding_def Let_def e_def f_def split: if_splits)
  have fok: "files_ok uni cd openf b" and rok: "routes_ok uni b" and sok: "stats_ok b"
    using inv by (simp_all add: build_inv_def)
  have fk: "file_ok cd openf key ?f" using fok mem by (auto simp: files_ok_def)
  have "encoding_ok cd openf (fi_hash ?f) e"
    using op dec hash by (simp add: encoding_ok_def e_def)
  with fk enc have fok': "file_ok cd openf key f"
    by (auto simp: file_ok_def f_def e_def is_identity_def)
  have addr: "addr < length (b_heap b)" by (rule files_ok_addr [OF fok mem])
  have uniq: "k = key" if "(k, addr) \<in> set (b_files b)" for k
  proof -
    have "distinct (map snd (b_files b))" using fok by (simp add: files_ok_def)
    with that mem show ?thesis by (metis distinct_map inj_onD prod.inject snd_conv)
  qed
  have "files_ok uni cd openf b'"
    using fok fok' addr uniq unfolding files_ok_def b' by (auto simp: nth_list_update)
  moreover have "routes_ok uni b'" using rok by (simp add: routes_ok_def b')
  moreover have "(\<Sum>g\<leftarrow>(b_heap b)[addr := f]. int (length (fi_encodings g)) - 1)
     = (\<Sum>g\<leftarrow>b_heap b. int (length (fi_encodings g)) - 1) + 1"
  proof -
    let ?w = "\<lambda>g. int (length (fi_encodings g)) - 1"
    have "(map ?w (b_heap b))[addr := ?w f] = map ?w ((b_heap b)[addr := f])" by (simp add: map_update)
    moreover have "sum_list ((map ?w (b_heap b))[addr := ?w f]) = sum_list (map ?w (b_heap b)) + ?w f - ?w ?f"
      using sum_list_update_int [of addr "map ?w (b_heap b)" "?w f"] addr by simp
    moreover have "?w f = ?w ?f + 1" by (simp add: f_def)
    ultimately show ?thesis by simp
  qed
  then have "stats_ok b'" using sok by (simp add: stats_ok_def b')
  ultimately show "build_inv uni cd openf b'" by (simp add: build_inv_def)
  show "b_files b' = b_files b" "length (b_heap b') = length (b_heap b)" by (simp_all add: b')
qed

lemma encoded_reader_decoded:
  assumes "encoded_reader cd ext content = (Inr (Inr plain), encoding)" and "encoding \<noteq> ''identity''"
  shows "decoded cd encoding content = Some plain"
  using assms by (auto simp: encoded_reader_def decoded_def split: if_splits)

lemma encoded_reader_identity:
  assumes "encoded_reader cd ext content = (r, ''identity'')"
  shows "r = Inr (Inr content) \<and> ext \<notin> {''.gz'', ''.zst'', ''.br''}"
  using assms by (auto simp: encoded_reader_def split: if_splits)

text \<open>The three ways a call can succeed: with a known path it is a compressed variant, otherwise a new file.\<close>

lemma addStaticFileHandler_cases:
  assumes inv: "build_inv uni cd openf b" and add: "addStaticFileHandler cd uni openf path b = Inr b'"
  obtains (new) content modtime f0 where "openf path = Inr (content, modtime)"
      "add_identity cd uni path content modtime (Clean (slash # path)) (sri cd content) (length (b_heap b))
         (b\<lparr>b_heap := b_heap b @ [f0]\<rparr>) = Inr b'"
  | (variant) content modtime addr plain encoding where "openf path = Inr (content, modtime)"
      "(TrimSuffix (Clean (slash # path)) (Ext path), addr) \<in> set (b_files b)"
      "encoding \<noteq> ''identity''" "decoded cd encoding content = Some plain"
      "encoded_reader cd (Ext path) content = (Inr (Inr plain), encoding)"
      "add_encoding path content modtime encoding (sri cd plain) addr b = Inr b'"
proof -
  let ?key = "TrimSuffix (Clean (slash # path)) (Ext path)"
  from add obtain content modtime where op: "openf path = Inr (content, modtime)"
    by (auto simp: addStaticFileHandler_def split: sum.splits prod.splits)
  show ?thesis
  proof (cases "map_of (b_files b) ?key")
    case None
    with add op show ?thesis by (intro new [OF op]) (simp add: addStaticFileHandler_def Let_def)
  next
    case (Some addr)
    then have mem: "(?key, addr) \<in> set (b_files b)" by (rule map_of_SomeD)
    from Some add op obtain plain encoding where er: "encoded_reader cd (Ext path) content = (Inr (Inr plain), encoding)"
      and rest: "(if encoding = ''identity'' then add_identity cd uni path content modtime ?key (sri cd plain) addr b
         else add_encoding path content modtime encoding (sri cd plain) addr b) = Inr b'"
      by (auto simp: addStaticFileHandler_def Let_def split: prod.splits sum.splits)
    have "encoding \<noteq> ''identity''"
    proof
      assume "encoding = ''identity''"
      with rest add_identity_twice [OF _ mem, of uni cd openf path content modtime "sri cd plain" addr] inv show False
        by (auto simp: build_inv_def)
    qed
    with rest op mem er encoded_reader_decoded [OF er] show ?thesis by (intro variant) simp_all
  qed
qed

lemma addStaticFileHandler_inv:
  assumes "build_inv uni cd openf b" and "addStaticFileHandler cd uni openf path b = Inr b'"
  shows "build_inv uni cd openf b'"
  using assms
proof (cases rule: addStaticFileHandler_cases)
  case (new content modtime f0)
  from add_identity_new(1) [OF assms(1) new] show ?thesis .
next
  case (variant content modtime addr plain encoding)
  from add_encoding_inv(1) [OF assms(1) variant(2,1,3,4,6)] show ?thesis .
qed

text \<open>C36. Two static files whose names differ only by an extension that is not a compression (\<^verbatim>\<open>app.js\<close> and
  \<^verbatim>\<open>app.js.map\<close>, \<^verbatim>\<open>README\<close> and \<^verbatim>\<open>README.md\<close>) cannot be loaded together: the second is taken for another identity file
  of the first, whose route exists already, and building the instance fails.\<close>

theorem sibling_extension_fails:
  assumes "build_inv uni cd openf b" and "map_of (b_files b) key = Some addr"
    and "openf path = Inr (content, modtime)"
    and "TrimSuffix (Clean (slash # path)) (Ext path) = key" and "Ext path \<notin> {''.gz'', ''.zst'', ''.br''}"
  shows "\<exists>e. addStaticFileHandler cd uni openf path b = Inl e"
proof -
  have "files_ok uni cd openf b" using assms(1) by (simp add: build_inv_def)
  from add_identity_twice [OF this map_of_SomeD [OF assms(2)], of path content modtime "sri cd content" addr]
  obtain e where "add_identity cd uni path content modtime key (sri cd content) addr b = Inl e" by blast
  then show ?thesis using assms(2-5) by (simp add: addStaticFileHandler_def encoded_reader_def Let_def)
qed
section \<open>The paths of templates\<close>

text \<open>A rooted path from its elements: the root for none.\<close>

definition rooted_path :: "string list \<Rightarrow> string" where
  "rooted_path es = slash # Join es slash"

lemma foldl_clean_plain:
  "\<forall>e \<in> set xs. plain_elem e \<or> e = [] \<Longrightarrow>
   foldl (clean_step True) st xs = rev (filter (\<lambda>e. e \<noteq> []) xs) @ st"
proof (induction xs arbitrary: st)
  case (Cons x xs)
  then show ?case by (cases "x = []") (auto simp: plain_elem_def)
qed simp

lemma Clean_pieces:
  assumes "\<forall>e \<in> set xs. plain_elem e \<or> e = []" and "xs \<noteq> []"
  shows "Clean (rooted_path xs) = rooted_path (filter (\<lambda>e. e \<noteq> []) xs)"
proof -
  have "slash \<notin> set e" if "e \<in> set xs" for e
    using bspec [OF assms(1) that] by (auto simp: plain_elem_def)
  then have "Split (Join xs slash) slash = xs" by (rule Split_Join [OF assms(2)])
  then have "clean_elems True (Join xs slash) = filter (\<lambda>e. e \<noteq> []) xs"
    using foldl_clean_plain [OF assms(1), of "[]"] by (simp add: clean_elems_def)
  then show ?thesis by (simp add: rooted_path_def Clean_rooted)
qed

lemma plain_filter: "\<forall>e \<in> set es. plain_elem e \<Longrightarrow> filter (\<lambda>e. e \<noteq> []) es = es"
  by (induction es) (auto simp: plain_elem_def)

lemma rooted_path_snoc: "rooted_path (es @ [n]) = rooted_path (es @ [[]]) @ n"
  by (cases "es = []") (simp_all add: rooted_path_def Join_append)

lemma rooted_path_slash: "\<exists>a. rooted_path (es @ [[]]) = a @ [slash]"
  by (cases "es = []") (simp_all add: rooted_path_def Join_append)

lemma path_Split_rooted:
  assumes "slash \<notin> set n"
  shows "path_Split (rooted_path (es @ [n])) = (rooted_path (es @ [[]]), n)"
proof -
  obtain a where a: "rooted_path (es @ [[]]) = a @ [slash]" using rooted_path_slash by blast
  have "after_last slash (rooted_path (es @ [n])) = n"
    using after_last_append [OF assms, of a] by (simp add: rooted_path_snoc [of es n] a)
  then show ?thesis by (simp add: path_Split_def Let_def rooted_path_snoc [of es n])
qed

lemma Base_rooted:
  assumes "slash \<notin> set n" and "n \<noteq> []"
  shows "Base (rooted_path (es @ [n])) = n"
proof -
  obtain a where a: "rooted_path (es @ [[]]) = a @ [slash]" using rooted_path_slash by blast
  have p: "rooted_path (es @ [n]) = a @ slash # n" by (simp add: rooted_path_snoc [of es n] a)
  have "last n \<noteq> slash" using assms by (metis last_in_set)
  then have "dropWhile (\<lambda>x. x = slash) (rev (a @ slash # n)) = rev (a @ slash # n)"
    using assms(2) by (cases n rule: rev_cases) auto
  then show ?thesis using after_last_append [OF assms(1), of a] assms(2) by (simp add: Base_def p Let_def)
qed

text \<open>C26. The route of a template file: the extension is stripped; a file named \<^verbatim>\<open>index\<close> answers for its directory and
  one named \<^verbatim>\<open>index{$}\<close> for exactly that directory with a final slash; every other file for its own path. The result
  is a clean rooted path.\<close>

theorem template_route_path:
  assumes "\<forall>e \<in> set es. plain_elem e" and "plain_elem n" and "slash \<notin> set ext"
  shows "template_route ext (rooted_path (es @ [n @ ext])) =
     (if n = ''index'' then rooted_path es
      else if n = ''index{$}'' then rooted_path (es @ [''{$}''])
      else rooted_path (es @ [n]))"
proof -
  have n: "slash \<notin> set n" "n \<noteq> []" using assms(2) by (simp_all add: plain_elem_def)
  have "rooted_path (es @ [n @ ext]) = rooted_path (es @ [n]) @ ext"
    by (simp add: rooted_path_snoc [of es "n @ ext"] rooted_path_snoc [of es n])
  then have trim: "TrimSuffix (rooted_path (es @ [n @ ext])) ext = rooted_path (es @ [n])" by simp
  have base: "Base (rooted_path (es @ [n])) = n" by (rule Base_rooted [OF n])
  have fe: "filter (\<lambda>e. e \<noteq> []) es = es" by (rule plain_filter [OF assms(1)])
  have "Clean (rooted_path (es @ [[]])) = rooted_path es"
    using Clean_pieces [of "es @ [[]]"] assms(1) fe by auto
  then have dir: "Dir (rooted_path (es @ [n])) = rooted_path es"
    by (simp add: Dir_def path_Split_rooted [OF n(1)])
  have append: "rooted_path es @ slash # x = rooted_path ((if es = [] then [[]] else es) @ [x])" for x
    by (cases "es = []") (simp_all add: rooted_path_def Join_append)
  have clean: "Clean (rooted_path ((if es = [] then [[]] else es) @ [x])) = rooted_path (es @ filter (\<lambda>e. e \<noteq> []) [x])"
    if "plain_elem x \<or> x = []" for x
    using Clean_pieces [of "(if es = [] then [[]] else es) @ [x]"] assms(1) fe that by auto
  have idx: "Clean (rooted_path es @ ''/'') = rooted_path es" using append [of "[]"] clean [of "[]"] by simp
  have dollar: "plain_elem ''{$}''" by (simp add: plain_elem_def)
  have idx2: "Clean (rooted_path es @ ''/{$}'') = rooted_path (es @ [''{$}''])"
    using append [of "''{$}''"] clean [of "''{$}''"] dollar by simp
  have other: "Clean (rooted_path (es @ [n])) = rooted_path (es @ [n])"
    using Clean_pieces [of "es @ [n]"] assms(1,2) n fe by auto
  show ?thesis unfolding template_route_def Let_def trim base dir using idx idx2 other by simp
qed

section \<open>What adding a template file does\<close>

lemma fold_add_definition:
  assumes "fold_err (add_definition uni ext path) b ts = Inr b'"
  shows "b_routes b' = b_routes b @ List.map_filter (\<lambda>(name, t). template_pattern ext path name t) ts
     \<and> map_of (b_templates b') = map_of (b_templates b) ++ map_of (rev ts)
     \<and> TemplateDefinitions (b_stats b') = TemplateDefinitions (b_stats b) + int (length ts)
     \<and> TemplateFiles (b_stats b') = TemplateFiles (b_stats b)
     \<and> b_files b' = b_files b \<and> b_heap b' = b_heap b"
  using assms
proof (induction ts arbitrary: b)
  case (Cons nt ts)
  obtain name t where nt: "nt = (name, t)" by force
  with Cons.prems obtain b1 where d: "add_definition uni ext path b (name, t) = Inr b1"
    and rest: "fold_err (add_definition uni ext path) b1 ts = Inr b'"
    by (auto split: sum.splits)
  have "b_routes b1 = b_routes b @ (case template_pattern ext path name t of None \<Rightarrow> [] | Some r \<Rightarrow> [r])
     \<and> map_of (b_templates b1) = (map_of (b_templates b))(name \<mapsto> t)
     \<and> TemplateDefinitions (b_stats b1) = TemplateDefinitions (b_stats b) + 1
     \<and> TemplateFiles (b_stats b1) = TemplateFiles (b_stats b)
     \<and> b_files b1 = b_files b \<and> b_heap b1 = b_heap b"
    using d by (auto simp: add_definition_def Let_def update_conv' split: option.splits dest!: add_route_Inr)
  with Cons.IH [OF rest] show ?case
    by (auto simp: nt List.map_filter_def map_add_def fun_eq_iff split: option.splits)
qed (simp add: List.map_filter_def)


section \<open>Examples\<close>

text \<open>A hash that keeps everything, and decompressors that drop a first byte.\<close>

definition toy_codecs :: codecs where
  "toy_codecs = \<lparr>cd_sha384 = (\<lambda>s. s), cd_gzip = (\<lambda>s. Inr (Inr (tl s))), cd_zstd = (\<lambda>s. Inl (ErrMsg ''bad magic'')),
     cd_brotli = (\<lambda>s. Inr (tl s)), cd_detect = (\<lambda>_. ''text/plain'')\<rparr>"

definition toy_open :: "string \<Rightarrow> (string \<times> int) result" where
  "toy_open p = (if p = ''app.js'' then Inr (''code'', 5) else if p = ''app.js.gz'' then Inr (''zcode'', 6)
     else if p = ''app.js.map'' then Inr (''map'', 7) else if p = ''sub/index.html'' then Inr (''page'', 8)
     else Inl (ErrMsg ''no file''))"

definition toy_parse :: "string \<Rightarrow> string \<Rightarrow> (string \<times> string) list result" where
  "toy_parse path content = Inr [(path, content), (''POST /form'', ''form''), (''helper'', ''x'')]"

definition toy_built :: "string builder" where
  "toy_built = (case addStaticFileHandler toy_codecs ascii_only toy_open ''app.js'' new_builder of Inr b \<Rightarrow> b | Inl _ \<Rightarrow> new_builder)"

lemma toy_built_ok: "addStaticFileHandler toy_codecs ascii_only toy_open ''app.js'' new_builder = Inr toy_built"
  by code_simp

lemma toy_built_inv: "build_inv ascii_only toy_codecs toy_open toy_built"
  by (rule addStaticFileHandler_inv [OF build_inv_new toy_built_ok])

lemma sibling_extension_fails_witness:
  "\<exists>e. addStaticFileHandler toy_codecs ascii_only toy_open ''app.js.map'' toy_built = Inl e"
proof (rule sibling_extension_fails [OF toy_built_inv])
  show "map_of (b_files toy_built) ''/app.js'' = Some 0" by code_simp
  show "toy_open ''app.js.map'' = Inr (''map'', 7)" by code_simp
  show "TrimSuffix (Clean (slash # ''app.js.map'')) (Ext ''app.js.map'') = ''/app.js''" by code_simp
  show "Ext ''app.js.map'' \<notin> {''.gz'', ''.zst'', ''.br''}" by code_simp
qed

lemma template_route_path_witness:
  "template_route ''.html'' ''/sub/index.html'' = ''/sub'' \<and> template_route ''.html'' ''/index{$}.html'' = ''/{$}''"
  using template_route_path [of "[''sub'']" "''index''" "''.html''"] template_route_path [of "[]" "''index{$}''" "''.html''"]
  by (simp add: plain_elem_def rooted_path_def)


end
