(* ===== verification/Load.thy ===== *)
theory Load
  imports Build "HOL-Library.Char_ord" "HOL-Library.List_Lexorder"
begin

text \<open>
  Loading the templates directory: the call of \<^verbatim>\<open>fs.WalkDir\<close> in \<^verbatim>\<open>Config.Instance\<close> (\<^verbatim>\<open>instance.go\<close>). The directory is a
  tree; a directory lists its entries as \<^verbatim>\<open>fs.ReadDir\<close> does, sorted by name. A file or a directory may be unreadable.
\<close>

datatype tree =
    TFile string int
  | TUnreadable gerror
  | TDir "(string \<times> tree) list"
  | TUnlistable gerror

text \<open>
  \<^verbatim>\<open>fs.WalkDir\<close>: the calls of its callback that are not for a directory, in order; the error is that of listing a
  directory.
\<close>

fun walk :: "string \<Rightarrow> tree \<Rightarrow> (string \<times> gerror option) list" where
  "walk p (TFile contents modtime) = [(p, None)]"
| "walk p (TUnreadable e) = [(p, None)]"
| "walk p (TUnlistable e) = [(p, Some e)]"
| "walk p (TDir es) = concat (map (\<lambda>(n, t). walk (path_Join [p, n]) t) es)"

text \<open>Opening a path below the root of the tree.\<close>

fun tree_lookup :: "string list \<Rightarrow> tree \<Rightarrow> tree option" where
  "tree_lookup [] t = Some t"
| "tree_lookup (n # ns) t = (case t of
     TDir es \<Rightarrow> (case map_of es n of None \<Rightarrow> None | Some t' \<Rightarrow> tree_lookup ns t')
   | _ \<Rightarrow> None)"

definition tree_open :: "tree \<Rightarrow> string \<Rightarrow> (string \<times> int) result" where
  "tree_open t p = (case tree_lookup (Split p slash) t of
     Some (TFile contents modtime) \<Rightarrow> Inr (contents, modtime)
   | Some (TUnreadable e) \<Rightarrow> Inl (PathError ''open'' p e)
   | _ \<Rightarrow> Inl (PathError ''open'' p (ErrMsg ''file does not exist'')))"

text \<open>What the instance is built with, apart from the files.\<close>

record 'p loader =
  ld_uni :: unicode
  ld_codecs :: codecs
  ld_extension :: string
  ld_minify :: "(string \<Rightarrow> string result) option"
  ld_parse :: "string \<Rightarrow> string \<Rightarrow> (string \<times> 'p) list result"

definition load_visit ::
  "'p loader \<Rightarrow> (string \<Rightarrow> (string \<times> int) result) \<Rightarrow> 'p builder \<Rightarrow> string \<times> gerror option \<Rightarrow> 'p builder result" where
  "load_visit ld openf b visit =
     (case visit of
        (path, Some e) \<Rightarrow> Inl e
      | (path, None) \<Rightarrow>
          (if HasSuffix path (ld_extension ld)
           then addTemplateHandler (ld_uni ld) (ld_extension ld) (ld_minify ld) (ld_parse ld) openf path b
           else addStaticFileHandler (ld_codecs ld) (ld_uni ld) openf path b))"

definition load_files :: "'p loader \<Rightarrow> tree \<Rightarrow> 'p builder result" where
  "load_files ld t =
     map_sum (Wrapf ''error scanning files'') id (fold_err (load_visit ld (tree_open t)) new_builder (walk ''.'' t))"

section \<open>Nothing is lost\<close>

text \<open>The file at \<open>p\<close> is one of the stored encodings, under its own path or as a variant of the path without extension.\<close>

definition stored :: "'p builder \<Rightarrow> string \<Rightarrow> bool" where
  "stored b p \<longleftrightarrow> (\<exists>(key, addr) \<in> set (b_files b). \<exists>e \<in> set (fi_encodings (b_heap b ! addr)). ei_path e = p
     \<and> (if is_identity e then Clean (slash # p) = key
        else Ext p \<in> {''.gz'', ''.zst'', ''.br''} \<and> Clean (slash # p) = key @ Ext p))"

text \<open>The path of a file: names separated by single slashes.\<close>

definition plain_path :: "string \<Rightarrow> bool" where
  "plain_path p \<longleftrightarrow> (\<exists>es. es \<noteq> [] \<and> (\<forall>e \<in> set es. plain_elem e) \<and> p = Join es slash)"

lemma Clean_plain_path: "plain_path p \<Longrightarrow> Clean (slash # p) = slash # p"
proof -
  assume "plain_path p"
  then obtain es where es: "es \<noteq> []" "\<forall>e \<in> set es. plain_elem e" "p = Join es slash"
    by (auto simp: plain_path_def)
  have "\<forall>e \<in> set es. plain_elem e \<or> e = []" using es(2) by blast
  from Clean_pieces [OF this es(1)] plain_filter [OF es(2)] show ?thesis by (simp add: es(3) rooted_path_def)
qed

text \<open>What every step of loading keeps of the files.\<close>

definition grows :: "'p builder \<Rightarrow> 'p builder \<Rightarrow> bool" where
  "grows b b' \<longleftrightarrow> (\<forall>(key, addr) \<in> set (b_files b). (key, addr) \<in> set (b_files b')
     \<and> set (fi_encodings (b_heap b ! addr)) \<subseteq> set (fi_encodings (b_heap b' ! addr)))"

lemma grows_refl: "b_files b' = b_files b \<Longrightarrow> b_heap b' = b_heap b \<Longrightarrow> grows b b'"
  by (auto simp: grows_def)

lemma grows_stored: "grows b b' \<Longrightarrow> stored b p \<Longrightarrow> stored b' p"
  unfolding grows_def stored_def by fastforce

lemma addTemplateHandler_grows:
  assumes "addTemplateHandler uni ext minify parse openf path b = Inr b'"
  shows "grows b b'"
proof -
  obtain p ts where f: "fold_err (add_definition uni ext p)
      (b\<lparr>b_stats := (b_stats b)\<lparr>TemplateFiles := TemplateFiles (b_stats b) + 1\<rparr>\<rparr>) ts = Inr b'"
    using assms by (auto simp: addTemplateHandler_def Let_def split: sum.splits prod.splits)
  from fold_add_definition [OF f] show ?thesis by (intro grows_refl) simp_all
qed

lemma addStaticFileHandler_grows:
  assumes inv: "build_inv uni cd openf b" and add: "addStaticFileHandler cd uni openf path b = Inr b'"
    and pl: "plain_path path"
  shows "grows b b' \<and> stored b' path"
proof -
  have fok: "files_ok uni cd openf b" using inv by (simp add: build_inv_def)
  from inv add show ?thesis
  proof (cases rule: addStaticFileHandler_cases)
    case (new content modtime f0)
    from add_identity_new(2) [OF inv new] obtain f where fs: "b_files b' = b_files b @ [(Clean (slash # path), length (b_heap b))]"
      and hp: "b_heap b' = b_heap b @ [f]" by blast

    have enc: "\<exists>e \<in> set (fi_encodings f). ei_path e = path \<and> is_identity e"
      using new(2) hp by (auto simp: add_identity_def Let_def is_identity_def split: sum.splits dest!: add_route_Inr)
    have "grows b b'" using files_ok_addr [OF fok] by (auto simp: grows_def fs hp nth_append)
    moreover have "stored b' path" using enc by (auto simp: stored_def fs hp)
    ultimately show ?thesis by blast
  next
    case (variant content modtime addr plain encoding)
    let ?key = "TrimSuffix (Clean (slash # path)) (Ext path)"
    define e where "e = \<lparr>ei_encoding = encoding, ei_path = path, ei_size = int (length content), ei_modtime = modtime\<rparr>"
    define f where "f = (b_heap b ! addr)\<lparr>fi_encodings := sort_key ei_size (fi_encodings (b_heap b ! addr) @ [e])\<rparr>"
    have fs: "b_files b' = b_files b" and hp: "b_heap b' = (b_heap b)[addr := f]"
      using variant(6) by (auto simp: add_encoding_def Let_def e_def f_def split: if_splits)
    have addr: "addr < length (b_heap b)" by (rule files_ok_addr [OF fok variant(2)])
    have "suffix (Ext path) (slash # path)" using Ext_suffix [of path] by (rule suffix_ConsI)
    then obtain k where "slash # path = k @ Ext path" unfolding suffix_def by blast
    with Clean_plain_path [OF pl] have c: "Clean (slash # path) = k @ Ext path" by (rule trans)
    have key: "Clean (slash # path) = ?key @ Ext path" unfolding c TrimSuffix_append ..
    have e: "e \<in> set (fi_encodings f)" "\<not> is_identity e" "ei_path e = path"
      using variant(3) by (simp_all add: f_def e_def is_identity_def)
    have ext: "Ext path \<in> {''.gz'', ''.zst'', ''.br''}"
      using variant(5,3) by (auto simp: encoded_reader_def split: if_splits)
    have "grows b b'" using addr by (auto simp: grows_def fs hp nth_list_update f_def)
    moreover have "stored b' path"
      unfolding stored_def fs hp using variant(2) addr e key ext by (intro bexI [OF _ variant(2)]) auto
    ultimately show ?thesis by blast
  qed
qed

section \<open>The order of the walk\<close>

text \<open>A tree as a file system shows it: names without slashes, each once, in lexical order.\<close>

fun tree_ok :: "tree \<Rightarrow> bool" where
  "tree_ok (TDir es) \<longleftrightarrow> sorted (map fst es) \<and> distinct (map fst es) \<and> list_all (\<lambda>(n, t). plain_elem n \<and> tree_ok t) es"
| "tree_ok _ \<longleftrightarrow> True"

text \<open>The visits as lists of names.\<close>

fun walk_names :: "tree \<Rightarrow> (string list \<times> gerror option) list" where
  "walk_names (TDir es) = concat (map (\<lambda>(n, t). map (\<lambda>(l, e). (n # l, e)) (walk_names t)) es)"
| "walk_names (TUnlistable e) = [([], Some e)]"
| "walk_names _ = [([], None)]"

lemma foldl_clean_names: "\<forall>e \<in> set xs. plain_elem e \<Longrightarrow> foldl (clean_step r) st xs = rev xs @ st"
proof (induction xs arbitrary: st)
  case (Cons x xs)
  then show ?case by (auto simp: plain_elem_def)
qed simp

lemma Split_Join_plain: "es \<noteq> [] \<Longrightarrow> \<forall>e \<in> set es. plain_elem e \<Longrightarrow> Split (Join es slash) slash = es"
  by (rule Split_Join) (simp_all add: plain_elem_def)

lemma Join_plain_start:
  assumes "es \<noteq> []" and "\<forall>e \<in> set es. plain_elem e"
  shows "Join es slash \<noteq> []" and "hd (Join es slash) \<noteq> slash"
proof -
  have h: "hd es \<noteq> []" "slash \<notin> set (hd es)" using assms by (simp_all add: plain_elem_def)
  have "es \<noteq> [[]]" using h by auto
  with assms(1) show "Join es slash \<noteq> []" by (simp add: Join_eq_Nil)
  show "hd (Join es slash) \<noteq> slash" using hd_Join [OF assms(1) h(1)] h by (metis list.set_sel(1))
qed

lemma Clean_relative_plain:
  assumes "es \<noteq> []" and "\<forall>e \<in> set es. plain_elem e"
  shows "Clean (Join es slash) = Join es slash"
  using Join_plain_start [OF assms] foldl_clean_names [OF assms(2), of False "[]"] Split_Join_plain [OF assms]
  by (simp add: Clean_def clean_elems_def Let_def)

lemma path_Join_names:
  assumes "es \<noteq> []" and "\<forall>e \<in> set es. plain_elem e" and "plain_elem n"
  shows "path_Join [Join es slash, n] = Join (es @ [n]) slash"
proof -
  have "path_Join [Join es slash, n] = Clean (Join es slash @ slash # n)"
    using Join_plain_start(1) [OF assms(1,2)] by (simp add: path_Join_def)
  also have "Join es slash @ slash # n = Join (es @ [n]) slash" using assms(1) by (simp add: Join_append)
  also have "Clean \<dots> = Join (es @ [n]) slash" using assms by (intro Clean_relative_plain) auto
  finally show ?thesis .
qed

lemma path_Join_dot: "plain_elem n \<Longrightarrow> path_Join [''.'', n] = n"
proof -
  assume n: "plain_elem n"
  have r: "relative n" using n by (cases n) (auto simp: plain_elem_def relative_def)
  have "path_Join [''.'', n] = Clean (''./'' @ n)" by (simp add: path_Join_def)
  also have "\<dots> = Clean n" by (rule Clean_dot [OF r])
  also have "\<dots> = n" using Clean_relative_plain [of "[n]"] n by simp
  finally show ?thesis .
qed

lemma walk_walk_names:
  "tree_ok t \<Longrightarrow> es \<noteq> [] \<Longrightarrow> \<forall>e \<in> set es. plain_elem e \<Longrightarrow>
   walk (Join es slash) t = map (\<lambda>(l, e). (Join (es @ l) slash, e)) (walk_names t)"
proof (induction t arbitrary: es rule: walk_names.induct)
  case (1 ts)
  have "walk (path_Join [Join es slash, n]) t = map (\<lambda>(l, e). (Join (es @ n # l) slash, e)) (walk_names t)"
    if "(n, t) \<in> set ts" for n t
  proof -
    have nt: "plain_elem n" "tree_ok t" using "1.prems"(1) that by (auto simp: list_all_iff)
    have "walk (Join (es @ [n]) slash) t = map (\<lambda>(l, e). (Join ((es @ [n]) @ l) slash, e)) (walk_names t)"
      by (rule "1.IH" [OF that refl nt(2)]) (use "1.prems" nt in auto)
    then show ?thesis using path_Join_names [OF "1.prems"(2,3) nt(1)] by simp
  qed
  then have "map (\<lambda>(n, t). walk (path_Join [Join es slash, n]) t) ts
     = map (\<lambda>(n, t). map (\<lambda>(l, e). (Join (es @ n # l) slash, e)) (walk_names t)) ts"
    by (intro map_cong) auto
  then show ?case by (auto simp: map_concat comp_def case_prod_unfold intro!: arg_cong [of _ _ concat])
qed simp_all

lemma walk_root:
  assumes "tree_ok (TDir ts)"
  shows "walk ''.'' (TDir ts) = map (\<lambda>(l, e). (Join l slash, e)) (walk_names (TDir ts))"
proof -
  have "walk (path_Join [''.'', n]) t = map (\<lambda>(l, e). (Join (n # l) slash, e)) (walk_names t)"
    if "(n, t) \<in> set ts" for n t
  proof -
    have nt: "plain_elem n" "tree_ok t" using assms that by (auto simp: list_all_iff)
    from walk_walk_names [OF nt(2), of "[n]"] nt(1) show ?thesis by (simp add: path_Join_dot)
  qed
  then have "map (\<lambda>(n, t). walk (path_Join [''.'', n]) t) ts
     = map (\<lambda>(n, t). map (\<lambda>(l, e). (Join (n # l) slash, e)) (walk_names t)) ts"
    by (intro map_cong) auto
  then show ?thesis by (auto simp: map_concat comp_def case_prod_unfold intro!: arg_cong [of _ _ concat])
qed

lemma walk_names_plain: "tree_ok t \<Longrightarrow> (l, e) \<in> set (walk_names t) \<Longrightarrow> \<forall>n \<in> set l. plain_elem n"
proof (induction t arbitrary: l rule: walk_names.induct)
  case (1 ts)
  then obtain n t l' where "(n, t) \<in> set ts" "l = n # l'" "(l', e) \<in> set (walk_names t)" by auto
  with 1 show ?case by (fastforce simp: list_all_iff)
qed auto

lemma walk_plain:
  assumes "tree_ok (TDir ts)" and "(p, e) \<in> set (walk ''.'' (TDir ts))"
  shows "plain_path p"
proof -
  obtain l where l: "(l, e) \<in> set (walk_names (TDir ts))" "p = Join l slash"
    using assms(2) unfolding walk_root [OF assms(1)] by (auto simp del: walk_names.simps)
  then have "l \<noteq> []" by auto
  with walk_names_plain [OF assms(1) l(1)] l(2) show ?thesis by (auto simp: plain_path_def)
qed

text \<open>\<open>x\<close> comes before \<open>y\<close> in a list.\<close>

definition before :: "'a list \<Rightarrow> 'a \<Rightarrow> 'a \<Rightarrow> bool" where
  "before xs x y \<longleftrightarrow> (\<exists>us vs ws. xs = us @ x # vs @ y # ws)"

lemma before_map: "before xs x y \<Longrightarrow> before (map f xs) (f x) (f y)"
  by (auto simp: before_def) blast

lemma before_concat_in:
  assumes "zs \<in> set xss" and "before zs x y" shows "before (concat xss) x y"
proof -
  obtain as bs where xss: "xss = as @ zs # bs" using assms(1) by (meson split_list)
  obtain us vs ws where "zs = us @ x # vs @ y # ws" using assms(2) by (auto simp: before_def)
  then have "concat xss = (concat as @ us) @ x # vs @ y # (ws @ concat bs)" by (simp add: xss)
  then show ?thesis unfolding before_def by blast
qed

lemma before_concat_of:
  assumes "before xss xs ys" and "x \<in> set xs" and "y \<in> set ys" shows "before (concat xss) x y"
proof -
  obtain as bs cs where xss: "xss = as @ xs # bs @ ys # cs" using assms(1) by (auto simp: before_def)
  obtain u v where "xs = u @ x # v" using assms(2) by (meson split_list)
  moreover obtain u' v' where "ys = u' @ y # v'" using assms(3) by (meson split_list)
  ultimately have "concat xss = (concat as @ u) @ x # (v @ concat bs @ u') @ y # (v' @ concat cs)" by (simp add: xss)
  then show ?thesis unfolding before_def by blast
qed

lemma sorted_before:
  assumes "sorted (map f xs)" and "x \<in> set xs" and "y \<in> set xs" and "f x < f y"
  shows "before xs x y"
proof -
  obtain us vs where xs: "xs = us @ x # vs" using assms(2) by (meson split_list)
  have "y \<notin> set us" using assms(1,4) by (auto simp: xs sorted_append)
  moreover have "y \<noteq> x" using assms(4) by auto
  ultimately have "y \<in> set vs" using assms(3) xs by auto
  then obtain vs' ws where "vs = vs' @ y # ws" by (meson split_list)
  with xs show ?thesis unfolding before_def by blast
qed

lemma string_prefix_less: "x \<noteq> [] \<Longrightarrow> n < n @ (x :: string)"
  by (induction n) (auto simp: list_less_def neq_Nil_conv)

lemma walk_names_order:
  "tree_ok t \<Longrightarrow> (l @ [n], e) \<in> set (walk_names t) \<Longrightarrow> (l @ [n @ x], e') \<in> set (walk_names t) \<Longrightarrow> x \<noteq> []
   \<Longrightarrow> before (walk_names t) (l @ [n], e) (l @ [n @ x], e')"
proof (induction t arbitrary: l rule: walk_names.induct)
  case (1 ts)
  let ?visits = "\<lambda>(n, t). map (\<lambda>(l, e). (n # l, e)) (walk_names t)"
  obtain m1 t1 l1 where 1: "(m1, t1) \<in> set ts" "l @ [n] = m1 # l1" "(l1, e) \<in> set (walk_names t1)"
    using "1.prems"(2) by auto
  obtain m2 t2 l2 where 2: "(m2, t2) \<in> set ts" "l @ [n @ x] = m2 # l2" "(l2, e') \<in> set (walk_names t2)"
    using "1.prems"(3) by auto
  have s: "sorted (map fst ts)" "distinct (map fst ts)" using "1.prems"(1) by simp_all
  have "before (concat (map ?visits ts)) (l @ [n], e) (l @ [n @ x], e')"
  proof (cases l)
    case Nil
    have "before ts (m1, t1) (m2, t2)"
      by (rule sorted_before [OF s(1) 1(1) 2(1)]) (use 1(2) 2(2) Nil string_prefix_less [OF "1.prems"(4)] in auto)
    then have "before (map ?visits ts) (?visits (m1, t1)) (?visits (m2, t2))" by (rule before_map)
    then show ?thesis
      by (rule before_concat_of) (use 1(2,3) 2(2,3) in force)+
  next
    case (Cons m l')
    then have eqs: "m1 = m" "m2 = m" "l1 = l' @ [n]" "l2 = l' @ [n @ x]" using 1(2) 2(2) by simp_all
    then have t: "t2 = t1" using s(2) 1(1) 2(1) by (metis eq_key_imp_eq_value)
    have "tree_ok t1" using "1.prems"(1) 1(1) by (auto simp: list_all_iff)
    from "1.IH" [OF 1(1) refl this, of l'] have "before (walk_names t1) (l' @ [n], e) (l' @ [n @ x], e')"
      using 1(3) 2(3) "1.prems"(4) by (simp add: eqs t)
    then have "before (?visits (m, t1)) (l @ [n], e) (l @ [n @ x], e')"
      using before_map [of "walk_names t1" _ _ "\<lambda>(l, e). (m # l, e)"] Cons by fastforce
    moreover have "?visits (m, t1) \<in> set (map ?visits ts)" using 1(1) eqs by (force simp: image_iff)
    ultimately show ?thesis by (rule before_concat_in [rotated])
  qed
  then show ?case by simp
qed auto


lemma walk_order:
  assumes ok: "tree_ok (TDir ts)" and x: "x \<noteq> []" "slash \<notin> set x"
    and p: "(p, e) \<in> set (walk ''.'' (TDir ts))" and q: "(p @ x, e') \<in> set (walk ''.'' (TDir ts))"
  shows "before (walk ''.'' (TDir ts)) (p, e) (p @ x, e')"
proof -
  let ?names = "walk_names (TDir ts)"
  obtain l1 where l1: "(l1, e) \<in> set ?names" "p = Join l1 slash"
    using p unfolding walk_root [OF ok] by (auto simp del: walk_names.simps)
  obtain l2 where l2: "(l2, e') \<in> set ?names" "p @ x = Join l2 slash"
    using q unfolding walk_root [OF ok] by (auto simp del: walk_names.simps)
  have ne: "l1 \<noteq> []" "l2 \<noteq> []" using l1(1) l2(1) by auto
  obtain l n where l1': "l1 = l @ [n]" using ne(1) by (meson rev_exhaust)
  note pl = walk_names_plain [OF ok l1(1)] walk_names_plain [OF ok l2(1)]
  have px: "p @ x = Join (l @ [n @ x]) slash" by (cases "l = []") (simp_all add: l1(2) l1' Join_append)
  have "Split (Join (l @ [n @ x]) slash) slash = l @ [n @ x]"
  proof (rule Split_Join)
    have "\<forall>s \<in> set (l @ [n]). slash \<notin> set s" using pl(1) unfolding l1' plain_elem_def by blast
    then show "slash \<notin> set s" if "s \<in> set (l @ [n @ x])" for s using that x(2) by auto
  qed simp
  then have "l2 = l @ [n @ x]" using Split_Join_plain [OF ne(2) pl(2)] px l2(2) by simp
  with walk_names_order [OF ok _ _ x(1)] l1(1) l2(1) l1' have "before ?names (l1, e) (l2, e')" by blast
  from before_map [OF this, of "\<lambda>(l, e). (Join l slash, e)"] show ?thesis
    unfolding walk_root [OF ok] l2(2) unfolding l1(2) by (simp del: walk_names.simps)
qed

section \<open>Loading a tree\<close>

lemma load_visit_step:
  assumes "build_inv (ld_uni ld) (ld_codecs ld) openf b" and "load_visit ld openf b (p, oe) = Inr b'" and "plain_path p"
  shows "build_inv (ld_uni ld) (ld_codecs ld) openf b' \<and> grows b b' \<and> (HasSuffix p (ld_extension ld) \<or> stored b' p)"
proof (cases "HasSuffix p (ld_extension ld)")
  case True
  with assms(2) have "addTemplateHandler (ld_uni ld) (ld_extension ld) (ld_minify ld) (ld_parse ld) openf p b = Inr b'"
    by (simp add: load_visit_def split: option.splits)
  from addTemplateHandler_inv [OF this assms(1)] addTemplateHandler_grows [OF this] True show ?thesis by blast
next
  case False
  with assms(2) have "addStaticFileHandler (ld_codecs ld) (ld_uni ld) openf p b = Inr b'"
    by (simp add: load_visit_def split: option.splits)
  from addStaticFileHandler_inv [OF assms(1) this] addStaticFileHandler_grows [OF assms(1) this assms(3)]
  show ?thesis by blast
qed

lemma grows_trans: "grows a b \<Longrightarrow> grows b c \<Longrightarrow> grows a c"
  unfolding grows_def by (smt (verit, best) case_prodD case_prodI2 subset_trans)

lemma load_visits:
  "fold_err (load_visit ld openf) b vs = Inr b' \<Longrightarrow> build_inv (ld_uni ld) (ld_codecs ld) openf b
   \<Longrightarrow> \<forall>(p, oe) \<in> set vs. plain_path p
   \<Longrightarrow> build_inv (ld_uni ld) (ld_codecs ld) openf b' \<and> grows b b'
     \<and> (\<forall>(p, oe) \<in> set vs. HasSuffix p (ld_extension ld) \<or> stored b' p)"
proof (induction vs arbitrary: b)
  case Nil
  then show ?case by (simp add: grows_refl)
next
  case (Cons v vs)
  obtain p oe where v: "v = (p, oe)" by force
  obtain b1 where b1: "load_visit ld openf b (p, oe) = Inr b1" "fold_err (load_visit ld openf) b1 vs = Inr b'"
    using Cons.prems(1) by (auto simp: v split: sum.splits)
  have step: "build_inv (ld_uni ld) (ld_codecs ld) openf b1 \<and> grows b b1 \<and> (HasSuffix p (ld_extension ld) \<or> stored b1 p)"
    by (rule load_visit_step [OF Cons.prems(2) b1(1)]) (use Cons.prems(3) v in simp)
  from Cons.IH [OF b1(2)] step Cons.prems(3)
  have rest: "build_inv (ld_uni ld) (ld_codecs ld) openf b'" "grows b1 b'"
    "\<forall>(p, oe) \<in> set vs. HasSuffix p (ld_extension ld) \<or> stored b' p" by auto
  moreover have "grows b b'" using step rest(2) grows_trans by blast
  moreover have "HasSuffix p (ld_extension ld) \<or> stored b' p" using step rest(2) grows_stored by blast
  ultimately show ?case by (simp add: v)
qed
text \<open>Every static file is counted once, as an identity file or as an alternate encoding.\<close>

definition static_count :: "'p builder \<Rightarrow> int" where
  "static_count b = StaticFiles (b_stats b) + StaticFilesAlternateEncodings (b_stats b)"

lemma addStaticFileHandler_count:
  "addStaticFileHandler cd uni openf path b = Inr b' \<Longrightarrow> static_count b' = static_count b + 1"
  by (auto simp: addStaticFileHandler_def add_identity_def add_encoding_def static_count_def Let_def
      split: sum.splits prod.splits option.splits if_splits dest!: add_route_Inr)

lemma fold_add_definition_count:
  "fold_err (add_definition uni ext path) b ts = Inr b' \<Longrightarrow> static_count b' = static_count b"
proof (induction ts arbitrary: b)
  case (Cons t ts)
  then obtain b1 where b1: "add_definition uni ext path b t = Inr b1" "fold_err (add_definition uni ext path) b1 ts = Inr b'"
    by (auto split: sum.splits)
  have "static_count b1 = static_count b"
    using b1(1) by (auto simp: add_definition_def static_count_def Let_def split: prod.splits option.splits dest!: add_route_Inr)
  with Cons.IH [OF b1(2)] show ?case by simp
qed simp

lemma addTemplateHandler_count:
  assumes "addTemplateHandler uni ext minify parse openf path b = Inr b'"
  shows "static_count b' = static_count b"
proof -
  obtain p ts where "fold_err (add_definition uni ext p)
      (b\<lparr>b_stats := (b_stats b)\<lparr>TemplateFiles := TemplateFiles (b_stats b) + 1\<rparr>\<rparr>) ts = Inr b'"
    using assms by (auto simp: addTemplateHandler_def Let_def split: sum.splits prod.splits)
  from fold_add_definition_count [OF this] show ?thesis by (simp add: static_count_def)
qed

definition static_visit :: "'p loader \<Rightarrow> string \<times> gerror option \<Rightarrow> bool" where
  "static_visit ld v \<longleftrightarrow> \<not> HasSuffix (fst v) (ld_extension ld)"

lemma load_visits_count:
  "fold_err (load_visit ld openf) b vs = Inr b' \<Longrightarrow> static_count b' = static_count b + int (length (filter (static_visit ld) vs))"
proof (induction vs arbitrary: b)
  case (Cons v vs)
  obtain p oe where v: "v = (p, oe)" by force
  obtain b1 where b1: "load_visit ld openf b (p, oe) = Inr b1" "fold_err (load_visit ld openf) b1 vs = Inr b'"
    using Cons.prems by (auto simp: v split: sum.splits)
  have "static_count b1 = static_count b + (if static_visit ld v then 1 else 0)"
    using b1(1) by (auto simp: load_visit_def static_visit_def v split: option.splits if_splits
        dest: addTemplateHandler_count addStaticFileHandler_count)
  with Cons.IH [OF b1(2)] show ?case by simp
qed simp

lemma load_files_fold:
  "load_files ld t = Inr b \<Longrightarrow> fold_err (load_visit ld (tree_open t)) new_builder (walk ''.'' t) = Inr b"
  by (simp add: load_files_def)

lemma load_files_inv:
  assumes "tree_ok (TDir ts)" and "load_files ld (TDir ts) = Inr b"
  shows "build_inv (ld_uni ld) (ld_codecs ld) (tree_open (TDir ts)) b
    \<and> (\<forall>(p, oe) \<in> set (walk ''.'' (TDir ts)). HasSuffix p (ld_extension ld) \<or> stored b p)"
  using load_visits [OF load_files_fold [OF assms(2)] build_inv_new] walk_plain [OF assms(1)] by blast

text \<open>C23. A templates directory that loads gives a builder that satisfies its invariant, in which every file of the directory
  that is not a template is stored, and is counted once.
\<close>

theorem load_files_complete:
  assumes "tree_ok (TDir ts)" and "load_files ld (TDir ts) = Inr b"
  shows "build_inv (ld_uni ld) (ld_codecs ld) (tree_open (TDir ts)) b
    \<and> (\<forall>(p, oe) \<in> set (walk ''.'' (TDir ts)). HasSuffix p (ld_extension ld) \<or> stored b p)
    \<and> StaticFiles (b_stats b) + StaticFilesAlternateEncodings (b_stats b)
        = int (length (filter (static_visit ld) (walk ''.'' (TDir ts))))"
  using load_visits_count [OF load_files_fold [OF assms(2)]] load_files_inv [OF assms]
  by (simp add: static_count_def new_builder_def)

text \<open>Every pattern of the router comes from a string that parses.\<close>

lemma routes_segs_ok:
  assumes "routes_ok uni b" and "(q, h) \<in> set (b_mux b)"
  shows "segs_ok (pt_segs q)"
proof -
  obtain i where i: "i < length (b_mux b)" "b_mux b ! i = (q, h)" using assms(2) by (auto simp: in_set_conv_nth)
  then have "parsePattern uni (fst (b_routes b ! i)) = Inr q" using assms(1) by (auto simp: routes_ok_def)
  then show ?thesis by (rule parsePattern_ok)
qed

lemma build_inv_route:
  assumes "build_inv uni cd openf b" and "(key, addr) \<in> set (b_files b)" and "literal_path key"
    and "\<forall>(q, _) \<in> set (b_mux b). pt_host q = ''''" and "r_method r = ''GET''" and "r_escaped r = key"
  shows "\<exists>pat. findHandler (b_mux b) r = Found pat (HStatic addr)"
proof (rule findHandler_literal [OF _ _ assms(3) _ assms(5,6)])
  show "mux_ok (b_mux b)" using assms(1) by (simp add: build_inv_def routes_ok_def)
  show "\<forall>(q, _) \<in> set (b_mux b). segs_ok (pt_segs q) \<and> pt_host q = ''''"
    using assms(1,4) routes_segs_ok by (fastforce simp: build_inv_def)
  show "mux_holds uni (b_mux b) (''GET '' @ key) (HStatic addr)"
    using assms(1,2) by (auto simp: build_inv_def files_ok_def)
qed

lemma literal_plain_path: "plain_path p \<Longrightarrow> CHR ''{'' \<notin> set p \<Longrightarrow> literal_path (slash # p)"
  using Clean_plain_path [of p] Join_plain_start(1) by (auto simp: literal_path_def plain_path_def)

lemma stored_identity:
  assumes "stored b p" and "Ext p \<notin> {''.gz'', ''.zst'', ''.br''}" and "plain_path p"
  shows "\<exists>addr e. (slash # p, addr) \<in> set (b_files b) \<and> e \<in> set (fi_encodings (b_heap b ! addr)) \<and> is_identity e \<and> ei_path e = p"
  using assms Clean_plain_path [OF assms(3)] by (fastforce simp: stored_def split: if_splits)

lemma loaded_static:
  assumes "tree_ok (TDir ts)" and "load_files ld (TDir ts) = Inr b"
    and "(p, None) \<in> set (walk ''.'' (TDir ts))" and "\<not> HasSuffix p (ld_extension ld)"
    and "Ext p \<notin> {''.gz'', ''.zst'', ''.br''}" and "CHR ''{'' \<notin> set p"
    and "\<forall>(q, _) \<in> set (b_mux b). pt_host q = ''''" and "r_method r = ''GET''" and "r_escaped r = slash # p"
  shows "\<exists>pat addr e. findHandler (b_mux b) r = Found pat (HStatic addr)
     \<and> file_ok (ld_codecs ld) (tree_open (TDir ts)) (slash # p) (b_heap b ! addr)
     \<and> e \<in> set (fi_encodings (b_heap b ! addr)) \<and> is_identity e \<and> ei_path e = p"
proof -
  have pl: "plain_path p" by (rule walk_plain [OF assms(1,3)])
  note inv = load_files_inv [OF assms(1,2)]
  then have "stored b p" using assms(3,4) by blast
  from stored_identity [OF this assms(5) pl] obtain addr e
    where k: "(slash # p, addr) \<in> set (b_files b)" and e: "e \<in> set (fi_encodings (b_heap b ! addr))" "is_identity e" "ei_path e = p"
    by blast
  have "\<exists>pat. findHandler (b_mux b) r = Found pat (HStatic addr)"
    by (rule build_inv_route [OF _ k literal_plain_path [OF pl assms(6)] assms(7-9)]) (use inv in blast)
  moreover have "file_ok (ld_codecs ld) (tree_open (TDir ts)) (slash # p) (b_heap b ! addr)"
    using inv k by (auto simp: build_inv_def files_ok_def)
  ultimately show ?thesis using e by blast
qed

text \<open>Every file of the directory that is neither a template nor named like a compressed file is served under its own
  path: the router picks, for a \<^verbatim>\<open>GET\<close> of that path, the handler of a file record with this identity path, whose
  identity encoding is that file and whose hash is the hash of its contents; and every other encoding of the record
  decodes to contents with the same hash. Here no route names a host.
\<close>

lemma loaded_file_routed:
  assumes "tree_ok (TDir ts)" and "load_files ld (TDir ts) = Inr b"
    and "(p, None) \<in> set (walk ''.'' (TDir ts))" and "\<not> HasSuffix p (ld_extension ld)"
    and "Ext p \<notin> {''.gz'', ''.zst'', ''.br''}" and "CHR ''{'' \<notin> set p"
    and "\<forall>(q, _) \<in> set (b_mux b). pt_host q = ''''" and "r_method r = ''GET''" and "r_escaped r = slash # p"
  shows "\<exists>pat addr e content. findHandler (b_mux b) r = Found pat (HStatic addr)
     \<and> fi_identityPath (b_heap b ! addr) = slash # p
     \<and> e \<in> set (fi_encodings (b_heap b ! addr)) \<and> is_identity e \<and> ei_path e = p
     \<and> tree_open (TDir ts) p = Inr (content, ei_modtime e) \<and> fi_hash (b_heap b ! addr) = sri (ld_codecs ld) content
     \<and> (\<forall>e' \<in> set (fi_encodings (b_heap b ! addr)).
          encoding_ok (ld_codecs ld) (tree_open (TDir ts)) (sri (ld_codecs ld) content) e')"
proof -
  obtain pat addr e where f: "findHandler (b_mux b) r = Found pat (HStatic addr)"
      "file_ok (ld_codecs ld) (tree_open (TDir ts)) (slash # p) (b_heap b ! addr)"
      "e \<in> set (fi_encodings (b_heap b ! addr))" "is_identity e" "ei_path e = p"
    using loaded_static [OF assms] by blast
  then have "encoding_ok (ld_codecs ld) (tree_open (TDir ts)) (fi_hash (b_heap b ! addr)) e" by (simp add: file_ok_def)
  then obtain content where "tree_open (TDir ts) p = Inr (content, ei_modtime e)"
      "fi_hash (b_heap b ! addr) = sri (ld_codecs ld) content"
    using f(4,5) by (auto simp: encoding_ok_def decoded_def is_identity_def)
  with f show ?thesis by (intro exI [of _ pat] exI [of _ addr] exI [of _ e] exI [of _ content]) (simp add: file_ok_def)
qed

lemma addStaticFileHandler_variant:
  assumes add: "addStaticFileHandler cd uni openf path b = Inr b'" and ext: "Ext path \<in> {''.gz'', ''.zst'', ''.br''}"
    and key: "map_of (b_files b) (TrimSuffix (Clean (slash # path)) (Ext path)) = Some addr"
    and addr: "addr < length (b_heap b)"
  shows "\<exists>e \<in> set (fi_encodings (b_heap b' ! addr)). ei_path e = path \<and> \<not> is_identity e"
proof -
  obtain content modtime plain encoding where r: "openf path = Inr (content, modtime)"
      "encoded_reader cd (Ext path) content = (Inr (Inr plain), encoding)"
    using add key by (auto simp: addStaticFileHandler_def Let_def split: sum.splits prod.splits)
  have enc: "encoding \<noteq> ''identity''" using r(2) ext by (auto simp: encoded_reader_def split: if_splits)
  then have "add_encoding path content modtime encoding (sri cd plain) addr b = Inr b'"
    using add key r by (simp add: addStaticFileHandler_def Let_def)
  then show ?thesis using addr enc by (auto simp: add_encoding_def is_identity_def Let_def split: if_splits)
qed

lemma grows_encoding:
  "grows b b' \<Longrightarrow> (key, addr) \<in> set (b_files b) \<Longrightarrow> e \<in> set (fi_encodings (b_heap b ! addr))
   \<Longrightarrow> (key, addr) \<in> set (b_files b') \<and> e \<in> set (fi_encodings (b_heap b' ! addr))"
  unfolding grows_def by fastforce


section \<open>Examples\<close>

definition toy_entries :: "(string \<times> tree) list" where
  "toy_entries = [(''app.js'', TFile ''code'' 5), (''app.js.gz'', TFile ''zcode'' 6), (''sub'', TDir [(''index.html'', TFile ''page'' 8)])]"

definition toy_loader :: "string loader" where
  "toy_loader = \<lparr>ld_uni = ascii_only, ld_codecs = toy_codecs, ld_extension = ''.html'', ld_minify = None, ld_parse = toy_parse\<rparr>"

definition toy_loaded :: "string builder" where
  "toy_loaded = (case load_files toy_loader (TDir toy_entries) of Inr b \<Rightarrow> b | Inl _ \<Rightarrow> new_builder)"

lemma toy_loaded_ok: "load_files toy_loader (TDir toy_entries) = Inr toy_loaded"
proof -
  have "isl (load_files toy_loader (TDir toy_entries)) = False" by code_simp
  then show ?thesis unfolding toy_loaded_def by (cases "load_files toy_loader (TDir toy_entries)") auto
qed

lemma toy_entries_ok: "tree_ok (TDir toy_entries)"
  by code_simp

lemma toy_walk: "walk ''.'' (TDir toy_entries) = [(''app.js'', None), (''app.js.gz'', None), (''sub/index.html'', None)]"
  by code_simp

lemma load_files_complete_witness:
  "stored toy_loaded ''app.js.gz'' \<and> StaticFiles (b_stats toy_loaded) + StaticFilesAlternateEncodings (b_stats toy_loaded) = 2"
proof -
  have "\<not> HasSuffix ''app.js.gz'' (ld_extension toy_loader)"
    and "length (filter (static_visit toy_loader) [(''app.js'', None), (''app.js.gz'', None), (''sub/index.html'', None)]) = 2"
    by code_simp+
  with load_files_complete [OF toy_entries_ok toy_loaded_ok] show ?thesis unfolding toy_walk by simp
qed

lemma loaded_file_routed_witness:
  "\<exists>pat addr. findHandler (b_mux toy_loaded) (get_request ''/app.js'') = Found pat (HStatic addr)
     \<and> fi_hash (b_heap toy_loaded ! addr) = sri toy_codecs ''code''"
proof -
  have m: "(''app.js'', None) \<in> set (walk ''.'' (TDir toy_entries))" unfolding toy_walk by simp
  have c: "\<not> HasSuffix ''app.js'' (ld_extension toy_loader)" "Ext ''app.js'' \<notin> {''.gz'', ''.zst'', ''.br''}"
    "CHR ''{'' \<notin> set ''app.js''" "\<forall>(q, _) \<in> set (b_mux toy_loaded). pt_host q = ''''"
    "r_method (get_request ''/app.js'') = ''GET''" "r_escaped (get_request ''/app.js'') = slash # ''app.js''"
    by code_simp+
  obtain pat addr content and e :: encodingInfo
    where r: "findHandler (b_mux toy_loaded) (get_request ''/app.js'') = Found pat (HStatic addr)"
      "tree_open (TDir toy_entries) ''app.js'' = Inr (content, ei_modtime e)"
      "fi_hash (b_heap toy_loaded ! addr) = sri (ld_codecs toy_loader) content"
    using loaded_file_routed [OF toy_entries_ok toy_loaded_ok m c] by blast
  moreover have "tree_open (TDir toy_entries) ''app.js'' = Inr (''code'', 5)" by code_simp
  ultimately show ?thesis by (simp add: toy_loader_def)
qed


end
