(* ===== verification/Template.thy ===== *)
theory Template
  imports Providers Load
begin

text \<open>
  Template execution. What a template does is a tree: it writes text, calls methods of the fields of its dot and continues
  with what they answer, fails (a function it calls returned an error), or ends. The package \<^verbatim>\<open>html/template\<close> stops at the first
  method that returns an error, wraps that error, and turns a panic of a method into an error. The methods are those of the
  theories of the providers; a field is addressed by its position.
\<close>

datatype dbop = DExec string "any list" | DQueryRows string "any list" | DQueryRow string "any list" | DQueryVal string "any list"
  | DCommit | DRollback
datatype respop = RAddHeader string string | RSetHeader string string | RDelHeader string | RSetStatus int | RReturnStatus int
  | RServeContent string int content
datatype dirop = FStat string | FList string | FRead string | FOpen string | FExists string
datatype flushop = LSendSSE "string list" | LFlush

text \<open>A directory is reached by calls of \<^verbatim>\<open>Dir\<close> from the field. The last operation is \<^verbatim>\<open>.X.StaticFileHash\<close>.\<close>

datatype op = ODB nat dbop | OResp nat respop | ODir nat "string list" dirop | OFlush nat flushop | OFlags nat string
  | OHash string

datatype answer = AnsString string | AnsAny any | AnsRows "row list" | AnsRow row | AnsBool bool | AnsNode fsnode
  | AnsNames "string list" | AnsFile nat

text \<open>
  A call of \<^verbatim>\<open>.X.Template\<close> carries the template the instance has under that name, if any, and continues with its output. (A template
  that is given another dot than its caller's is a tree without calls.)
\<close>

datatype tmpl = Done | Fail gerror | Text string tmpl | Call op "answer \<Rightarrow> tmpl" | Nested string "tmpl option" "string \<Rightarrow> tmpl"

text \<open>Every method a template may call satisfies \<open>P\<close>, whatever it is answered.\<close>

primrec all_calls :: "(op \<Rightarrow> bool) \<Rightarrow> tmpl \<Rightarrow> bool" where
  "all_calls P Done \<longleftrightarrow> True"
| "all_calls P (Fail e) \<longleftrightarrow> True"
| "all_calls P (Text s k) \<longleftrightarrow> all_calls P k"
| "all_calls P (Call f k) \<longleftrightarrow> P f \<and> (\<forall>a. all_calls P (k a))"
| "all_calls P (Nested name t k) \<longleftrightarrow> (case map_option (all_calls P) t of Some b \<Rightarrow> b | None \<Rightarrow> True) \<and> (\<forall>s. all_calls P (k s))"

section \<open>Methods\<close>

definition recovered :: "'a result panics \<Rightarrow> 'a result" where
  "recovered r = (case r of Inl p \<Rightarrow> Inl (ErrMsg p) | Inr x \<Rightarrow> x)"

definition with_error :: "'a \<times> gerror option \<Rightarrow> 'a result" where
  "with_error r = (case r of (a, None) \<Rightarrow> Inr a | (a, Some e) \<Rightarrow> Inl e)"

fun db_call :: "'d sqlDB \<Rightarrow> dbop \<Rightarrow> 'd \<Rightarrow> 'd DotDB \<Rightarrow> answer result \<times> 'd \<times> 'd DotDB" where
  "db_call sql (DExec q ps) c d = (case Exec sql q ps c d of (r, d') \<Rightarrow> (map_sum id AnsAny r, c, d'))"
| "db_call sql (DQueryRows q ps) c d = (case QueryRows sql q ps c d of (r, d') \<Rightarrow> (map_sum id AnsRows (with_error r), c, d'))"
| "db_call sql (DQueryRow q ps) c d = (case QueryRow sql q ps c d of (r, d') \<Rightarrow> (map_sum id AnsRow r, c, d'))"
| "db_call sql (DQueryVal q ps) c d = (case QueryVal sql q ps c d of (r, d') \<Rightarrow> (map_sum id AnsAny (recovered r), c, d'))"
| "db_call sql DCommit c d = (case Commit sql c d of (r, c', d') \<Rightarrow> (map_sum id AnsString (with_error r), c', d'))"
| "db_call sql DRollback c d = (case Rollback sql c d of (r, c', d') \<Rightarrow> (map_sum id AnsString (with_error r), c', d'))"

fun resp_call :: "serveEnv \<Rightarrow> request \<Rightarrow> respop \<Rightarrow> DotResp \<Rightarrow> respWriter \<Rightarrow> answer result \<times> DotResp \<times> respWriter" where
  "resp_call se r (RAddHeader k v) d w = (case AddHeader k v d of (s, d') \<Rightarrow> (Inr (AnsString s), d', w))"
| "resp_call se r (RSetHeader k v) d w = (case SetHeader k v d of (s, d') \<Rightarrow> (Inr (AnsString s), d', w))"
| "resp_call se r (RDelHeader k) d w = (case DelHeader k d of (s, d') \<Rightarrow> (Inr (AnsString s), d', w))"
| "resp_call se r (RSetStatus n) d w = (case SetStatus n d of (s, d') \<Rightarrow> (Inr (AnsString s), d', w))"
| "resp_call se r (RReturnStatus n) d w = (case ReturnStatus n d of (s, d') \<Rightarrow> (map_sum id AnsString (with_error s), d', w))"
| "resp_call se r (RServeContent p t c) d w =
     (case ServeContent (http_ServeContent se) r p t c d w of
        Inl x \<Rightarrow> (Inl (ErrMsg x), d, w)
      | Inr (s, w') \<Rightarrow> (map_sum id AnsString (with_error s), d, w'))"

fun dir_call :: "fsys \<Rightarrow> string \<Rightarrow> string list \<Rightarrow> dirop \<Rightarrow> dotFS \<Rightarrow> handles \<Rightarrow> answer result \<times> dotFS \<times> handles" where
  "dir_call fs dir (n # ns) f d h =
     (case Dir_Dir fs dir n h of
        (Inl e, h') \<Rightarrow> (Inl e, d, h')
      | (Inr dir', h') \<Rightarrow> dir_call fs dir' ns f d h')"
| "dir_call fs dir [] (FStat n) d h = (case Dir_Stat fs dir n h of (r, h') \<Rightarrow> (map_sum id AnsNode r, d, h'))"
| "dir_call fs dir [] (FList n) d h = (case Dir_List fs dir n h of (r, h') \<Rightarrow> (map_sum id AnsNames r, d, h'))"
| "dir_call fs dir [] (FRead n) d h = (case Dir_Read fs dir n h of (r, h') \<Rightarrow> (map_sum id AnsString r, d, h'))"
| "dir_call fs dir [] (FOpen n) d h = (case Dir_Open fs dir n d h of (r, d', h') \<Rightarrow> (map_sum id (\<lambda>(f, _). AnsFile f) r, d', h'))"
| "dir_call fs dir [] (FExists n) d h = (case Dir_Exists fs dir n d h of (r, d', h') \<Rightarrow> (Inr (AnsBool r), d', h'))"

fun flush_call :: "flushop \<Rightarrow> respWriter \<Rightarrow> answer result \<times> respWriter" where
  "flush_call (LSendSSE args) w = (case SendSSE args w of (err, w') \<Rightarrow> (map_sum id AnsString (with_error ('''', err)), w'))"
| "flush_call LFlush w = (case DotFlush_Flush w of (s, w') \<Rightarrow> (Inr (AnsString s), w'))"

definition DotFlags_Value :: "(string \<times> string) list \<Rightarrow> string \<Rightarrow> string" where
  "DotFlags_Value m key = (case map_of m key of Some v \<Rightarrow> v | None \<Rightarrow> '''')"

text \<open>\<open>files\<close> gives the hash of every file of the instance.\<close>

definition StaticFileHash :: "(string \<Rightarrow> string option) \<Rightarrow> string \<Rightarrow> string result" where
  "StaticFileHash files urlpath =
     (let p = Clean (slash # urlpath) in
      case files p of
        None \<Rightarrow> Inl (ErrMsg (''file does not exist: '' @ single_quoted p))
      | Some digest \<Rightarrow> Inr digest)"

text \<open>
  What an instance gives a request: the environment, the provider of each field (its database handle or its file system), the
  hashes of the files.
\<close>

record 'd host =
  ho_env :: "'d env"
  ho_handle :: "nat \<Rightarrow> nat"
  ho_files :: "string \<Rightarrow> string option"

definition dot_field :: "val dotval \<Rightarrow> nat \<Rightarrow> val option" where
  "dot_field dv i = (if i < length dv then dv ! i else None)"

definition no_method :: "answer result" where
  "no_method = Inl (ErrMsg ''can't evaluate field'')"

fun call :: "'d host \<Rightarrow> request \<Rightarrow> op \<Rightarrow> val dotval \<Rightarrow> 'd world \<Rightarrow> answer result \<times> val dotval \<times> 'd world" where
  "call ho r (ODB i f) dv w =
     (case dot_field dv i of
        Some (VDB p) \<Rightarrow>
          (case db_call (e_sql (ho_env ho) (ho_handle ho i)) f (w_dbs w ! ho_handle ho i) (w_txs w ! p) of
             (a, c', d') \<Rightarrow> (a, dv, w\<lparr>w_dbs := (w_dbs w)[ho_handle ho i := c'], w_txs := (w_txs w)[p := d']\<rparr>))
      | _ \<Rightarrow> (no_method, dv, w))"
| "call ho r (OResp i f) dv w =
     (case dot_field dv i of
        Some (VResp d) \<Rightarrow>
          (case resp_call (e_serve (ho_env ho)) r f d (w_rw w) of
             (a, d', rw) \<Rightarrow> (a, dv[i := Some (VResp d')], w\<lparr>w_rw := rw\<rparr>))
      | _ \<Rightarrow> (no_method, dv, w))"
| "call ho r (ODir i dirs f) dv w =
     (case dot_field dv i of
        Some (VDir path p) \<Rightarrow>
          (case dir_call (e_fs (ho_env ho) (ho_handle ho i)) path dirs f (w_fss w ! p) (w_handles w) of
             (a, d', h') \<Rightarrow> (a, dv, w\<lparr>w_fss := (w_fss w)[p := d'], w_handles := h'\<rparr>))
      | _ \<Rightarrow> (no_method, dv, w))"
| "call ho r (OFlush i f) dv w =
     (case dot_field dv i of
        Some (VFlush _ _) \<Rightarrow> (case flush_call f (w_rw w) of (a, rw) \<Rightarrow> (a, dv, w\<lparr>w_rw := rw\<rparr>))
      | _ \<Rightarrow> (no_method, dv, w))"
| "call ho r (OFlags i key) dv w =
     (case dot_field dv i of
        Some (VFlags m) \<Rightarrow> (Inr (AnsString (DotFlags_Value m key)), dv, w)
      | _ \<Rightarrow> (no_method, dv, w))"
| "call ho r (OHash p) dv w = (map_sum id AnsString (StaticFileHash (ho_files ho) p), dv, w)"

section \<open>Execute\<close>

text \<open>\<open>emit\<close> is where the output goes: a buffer, or the response.\<close>

type_synonym 'd sink = "string \<Rightarrow> string \<times> 'd world \<Rightarrow> string \<times> 'd world"

definition to_buffer :: "'d sink" where
  "to_buffer s bw = (case bw of (b, w) \<Rightarrow> (b @ s, w))"

definition to_response :: "'d sink" where
  "to_response s bw = (case bw of (b, w) \<Rightarrow> (b, w\<lparr>w_rw := Write s (w_rw w)\<rparr>))"

text \<open>The pool of buffers of \<^verbatim>\<open>handlers.go\<close>; a buffer keeps its contents in the pool.\<close>

definition bufPool_Get :: "'d world \<Rightarrow> string \<times> 'd world" where
  "bufPool_Get w = (case w_bufs w of [] \<Rightarrow> ('''', w) | b # bs \<Rightarrow> (b, w\<lparr>w_bufs := bs\<rparr>))"

definition bufPool_Put :: "string \<Rightarrow> 'd world \<Rightarrow> 'd world" where
  "bufPool_Put b w = w\<lparr>w_bufs := b # w_bufs w\<rparr>"

definition Reset :: "string \<Rightarrow> string" where
  "Reset b = take 0 b"

text \<open>
  \<^verbatim>\<open>.X.Template\<close>: runs the template of that name with a buffer of its own. \<open>run\<close> is the execution of a template with the given
  dot, \<open>lookup\<close> the namespace of the instance.
\<close>

definition DotX_Template ::
  "(string \<Rightarrow> 'p option) \<Rightarrow> ('p \<Rightarrow> 'v \<Rightarrow> string \<times> 'd world \<Rightarrow> gerror option \<times> 'v \<times> string \<times> 'd world) \<Rightarrow> string \<Rightarrow> 'v \<Rightarrow> 'd world
   \<Rightarrow> string result \<times> 'v \<times> 'd world" where
  "DotX_Template lookup run name dv w =
     (let (b0, w1) = bufPool_Get w; buf = Reset b0 in
      case lookup name of
        None \<Rightarrow> (Inl (ErrMsg (''failed to lookup template name: '' @ single_quoted name)), dv, bufPool_Put buf w1)
      | Some t \<Rightarrow>
          (case run t dv (buf, w1) of
             (Some e, dv', b, w2) \<Rightarrow> (Inl (Wrapf (''failed to execute template '' @ single_quoted name) e), dv', bufPool_Put b w2)
           | (None, dv', b, w2) \<Rightarrow> (Inr b, dv', bufPool_Put b w2)))"

primrec exec ::
  "'d host \<Rightarrow> request \<Rightarrow> tmpl \<Rightarrow> 'd sink \<Rightarrow> val dotval \<Rightarrow> string \<times> 'd world \<Rightarrow> gerror option \<times> val dotval \<times> string \<times> 'd world" where
  "exec ho r Done = (\<lambda>emit dv bw. (None, dv, bw))"
| "exec ho r (Fail e) = (\<lambda>emit dv bw. (Some (Wrapf ''template'' e), dv, bw))"
| "exec ho r (Text s k) = (\<lambda>emit dv bw. exec ho r k emit dv (emit s bw))"
| "exec ho r (Call f k) = (\<lambda>emit dv (b, w).
     case call ho r f dv w of
       (Inl e, dv', w') \<Rightarrow> (Some (Wrapf ''template'' e), dv', b, w')
     | (Inr a, dv', w') \<Rightarrow> exec ho r (k a) emit dv' (b, w'))"
| "exec ho r (Nested name t k) = (\<lambda>emit dv (b, w).
     case DotX_Template (\<lambda>_. map_option (exec ho r) t) (\<lambda>run. run to_buffer) name dv w of
       (Inl e, dv', w') \<Rightarrow> (Some (Wrapf ''template'' e), dv', b, w')
     | (Inr s, dv', w') \<Rightarrow> exec ho r (k s) emit dv' (b, w'))"

definition Execute ::
  "'d host \<Rightarrow> request \<Rightarrow> 'd sink \<Rightarrow> tmpl \<Rightarrow> val dotval \<Rightarrow> string \<times> 'd world \<Rightarrow> gerror option \<times> val dotval \<times> string \<times> 'd world" where
  "Execute ho r emit t dv bw = exec ho r t emit dv bw"

lemma DotX_Template_exec:
  "DotX_Template (\<lambda>_. map_option (exec ho r) t) (\<lambda>run. run to_buffer) = DotX_Template (\<lambda>_. t) (Execute ho r to_buffer)"
  by (intro ext, cases t) (simp_all add: DotX_Template_def Execute_def Let_def)

lemma Execute_simps [simp]:
  "Execute ho r emit Done dv bw = (None, dv, bw)"
  "Execute ho r emit (Fail e) dv bw = (Some (Wrapf ''template'' e), dv, bw)"
  "Execute ho r emit (Text s u) dv bw = Execute ho r emit u dv (emit s bw)"
  "Execute ho r emit (Call f k) dv (b, w) =
     (case call ho r f dv w of
        (Inl e, dv', w') \<Rightarrow> (Some (Wrapf ''template'' e), dv', b, w')
      | (Inr a, dv', w') \<Rightarrow> Execute ho r emit (k a) dv' (b, w'))"
  "Execute ho r emit (Nested name t c) dv (b, w) =
     (case DotX_Template (\<lambda>_. t) (Execute ho r to_buffer) name dv w of
        (Inl e, dv', w') \<Rightarrow> (Some (Wrapf ''template'' e), dv', b, w')
      | (Inr s, dv', w') \<Rightarrow> Execute ho r emit (c s) dv' (b, w'))"
  unfolding Execute_def [abs_def] by (simp_all add: DotX_Template_exec [unfolded Execute_def [abs_def]])

definition DotX_Func :: "(string \<Rightarrow> nat option) \<Rightarrow> string \<Rightarrow> nat option" where
  "DotX_Func funcs name = funcs name"

section \<open>What execution keeps\<close>

text \<open>Only the contents of \<^verbatim>\<open>.Resp\<close> change in a dot.\<close>

definition same_field :: "val option \<Rightarrow> val option \<Rightarrow> bool" where
  "same_field a b \<longleftrightarrow> a = b \<or> (\<exists>d d'. a = Some (VResp d) \<and> b = Some (VResp d'))"

definition same_dot :: "val dotval \<Rightarrow> val dotval \<Rightarrow> bool" where
  "same_dot dv dv' \<longleftrightarrow> list_all2 same_field dv dv'"

lemma same_field_trans: "same_field a b \<Longrightarrow> same_field b c \<Longrightarrow> same_field a c"
  by (auto simp: same_field_def)

lemma same_dot_refl [simp]: "same_dot dv dv"
  by (simp add: same_dot_def same_field_def list_all2_refl)

lemma same_dot_trans: "same_dot a b \<Longrightarrow> same_dot b c \<Longrightarrow> same_dot a c"
  unfolding same_dot_def by (rule list_all2_trans [OF same_field_trans])

lemma same_dot_Resp: "dot_field dv i = Some (VResp d) \<Longrightarrow> same_dot dv (dv[i := Some (VResp d')])"
  by (auto simp: same_dot_def list_all2_conv_all_nth nth_list_update same_field_def dot_field_def split: if_splits)

lemma call_same_dot: "call ho r f dv w = (a, dv', w') \<Longrightarrow> same_dot dv dv' \<and> length (w_txs w') = length (w_txs w)"
  by (cases f) (auto simp: same_dot_Resp split: option.splits val.splits prod.splits)

text \<open>
  What every call keeps, and writing and the pool of buffers too, an execution keeps. \<open>P\<close> restricts the calls of the template, \<open>emit\<close> is where
  its output goes.
\<close>

locale execution =
  fixes ho :: "'d host" and r :: request and P :: "op \<Rightarrow> bool" and emit :: "'d sink"
    and R :: "val dotval \<Rightarrow> 'd world \<Rightarrow> val dotval \<Rightarrow> 'd world \<Rightarrow> bool"
  assumes step_refl: "R dv w dv w"
    and step_trans: "R dv w dv1 w1 \<Longrightarrow> R dv1 w1 dv' w' \<Longrightarrow> R dv w dv' w'"
    and step_call: "P f \<Longrightarrow> call ho r f dv w = (a, dv', w') \<Longrightarrow> R dv w dv' w'"
    and step_emit: "R dv w dv (snd (emit s (b, w)))"
    and step_pool: "R dv w dv (w\<lparr>w_bufs := bs\<rparr>)"
begin

lemma step_Get: "R dv w dv (snd (bufPool_Get w))"
  using step_refl step_pool by (simp add: bufPool_Get_def split: list.split)

lemma step_Put: "R dv w dv' w' \<Longrightarrow> R dv w dv' (bufPool_Put b w')"
  using step_trans step_pool unfolding bufPool_Put_def by blast

lemma step_Template:
  assumes "\<And>t' b w b' w' dv dv' err. t = Some t' \<Longrightarrow> Execute ho r to_buffer t' dv (b, w) = (err, dv', b', w') \<Longrightarrow> R dv w dv' w'"
    and "DotX_Template (\<lambda>_. t) (Execute ho r to_buffer) name dv w = (res, dv', w')"
  shows "R dv w dv' w'"
proof -
  obtain b0 w1 where g: "bufPool_Get w = (b0, w1)" by force
  have 1: "R dv w dv w1" using step_Get [of dv w] g by simp
  show ?thesis
  proof (cases t)
    case None
    with assms(2) g step_Put [OF 1] show ?thesis by (auto simp: DotX_Template_def)
  next
    case (Some t')
    obtain err dv2 b2 w2 where x: "Execute ho r to_buffer t' dv (Reset b0, w1) = (err, dv2, b2, w2)" by (metis prod_cases4)
    have "R dv w dv2 w2" by (rule step_trans [OF 1 assms(1) [OF Some x]])
    with assms(2) g Some x step_Put show ?thesis by (cases err) (auto simp: DotX_Template_def)
  qed
qed

lemma Execute_keeps:
  "all_calls P t \<Longrightarrow> e \<in> {emit, to_buffer} \<Longrightarrow> Execute ho r e t dv (b, w) = (err, dv', b', w') \<Longrightarrow> R dv w dv' w'"
proof (induction t arbitrary: e dv b w err dv' b' w')
  case (Text s t)
  obtain b1 w1 where e: "e s (b, w) = (b1, w1)" by force
  have "R dv w dv w1" using Text.prems(2) step_emit [of dv w s b] step_refl [of dv w] e by (auto simp: to_buffer_def)
  moreover have "R dv w1 dv' w'" by (rule Text.IH [OF _ Text.prems(2)]) (use Text.prems e in simp_all)
  ultimately show ?case by (rule step_trans)
next
  case (Call f k)
  obtain a dv1 w1 where c: "call ho r f dv w = (a, dv1, w1)" by (metis prod_cases3)
  have 1: "R dv w dv1 w1" using Call.prems(1) step_call [OF _ c] by simp
  show ?case
  proof (cases a)
    case (Inl x)
    with Call.prems(3) c 1 show ?thesis by simp
  next
    case (Inr x)
    have "R dv1 w1 dv' w'" by (rule Call.IH [OF rangeI _ Call.prems(2)]) (use Call.prems c Inr in auto)
    with 1 show ?thesis by (rule step_trans)
  qed
next
  case (Nested name t k)
  obtain a dv1 w1 where c: "DotX_Template (\<lambda>_. t) (Execute ho r to_buffer) name dv w = (a, dv1, w1)" by (metis prod_cases3)
  have 1: "R dv w dv1 w1" by (rule step_Template [OF _ c], rule Nested.IH(1)) (use Nested.prems(1) in auto)
  show ?case
  proof (cases a)
    case (Inl x)
    with Nested.prems(3) c 1 show ?thesis by simp
  next
    case (Inr x)
    have "R dv1 w1 dv' w'" by (rule Nested.IH(2) [OF rangeI _ Nested.prems(2)]) (use Nested.prems c Inr in auto)
    with 1 show ?thesis by (rule step_trans)
  qed
qed (auto intro: step_refl)

end

lemma all_calls_True: "all_calls (\<lambda>_. True) t"
  by (induction t) (auto split: option.split)

text \<open>The dot keeps its fields, and no object of a request disappears, whatever the template does and wherever its output goes.\<close>

interpretation fields: execution ho r "\<lambda>_. True" to_response "\<lambda>dv w dv' w'. same_dot dv dv' \<and> length (w_txs w') = length (w_txs w)" for ho r
  by unfold_locales (simp, metis same_dot_trans, erule call_same_dot, simp_all add: to_response_def)

lemma Execute_same_dot:
  assumes "emit = to_buffer \<or> emit = to_response" and "Execute ho r emit t dv (b, w) = (err, dv', b', w')"
  shows "same_dot dv dv' \<and> length (w_txs w') = length (w_txs w)"
  by (rule fields.Execute_keeps [OF all_calls_True _ assms(2)]) (use assms(1) in auto)

end
