(* ===== verification/Handlers.thy ===== *)
theory Handlers
  imports Template
begin

text \<open>
  The handlers of templates (\<^verbatim>\<open>handlers.go\<close>): \<^verbatim>\<open>bufferingTemplateHandler\<close>, which collects the output and answers when the template
  has ended, and \<^verbatim>\<open>flushingTemplateHandler\<close>, which writes to the response as the template runs. The result of a handler is the
  \<^verbatim>\<open>dot\<close> with its pool and the world; log messages are left out.
\<close>

definition with_response :: "respWriter panics \<Rightarrow> 'd world \<Rightarrow> 'd world panics" where
  "with_response r w = map_sum id (\<lambda>rw. w\<lparr>w_rw := rw\<rparr>) r"

type_synonym 'd wdot = "('d world, val, vtype) dot"

definition bufferingTemplateHandler ::
  "'d host \<Rightarrow> nat \<Rightarrow> 'd wdot \<Rightarrow> tmpl \<Rightarrow> bool \<Rightarrow> request \<Rightarrow> 'd world \<Rightarrow> ('d wdot \<times> 'd world) panics" where
  "bufferingTemplateHandler ho sctx d tmpl flusher r w =
     (case dot_value type_of \<lparr>q_sctx = server_ctx w sctx, q_flusher = flusher, q_r = r\<rparr> d w of
        Inl p \<Rightarrow> Inl p
      | Inr (Inl err, d1, w1) \<Rightarrow>
          map_sum id (Pair d1) (with_response (http_Error ''internal server error'' 500 (w_rw w1)) w1)
      | Inr (Inr dotv, d1, w1) \<Rightarrow>
          (let (b0, w2) = bufPool_Get w1; buf = Reset b0 in
           case Execute ho r to_buffer tmpl dotv (buf, w2) of
             (err, dotv', buf', w3) \<Rightarrow>
               (case dot_cleanup dotv' err d1 w3 of
                  Inl p \<Rightarrow> Inl p
                | Inr (Some e, d2, w4) \<Rightarrow>
                    map_sum id (\<lambda>w5. (d2, bufPool_Put buf' w5))
                      (with_response (http_Error ''internal server error'' 500 (w_rw w4)) w4)
                | Inr (None, d2, w4) \<Rightarrow> Inr (d2, bufPool_Put buf' (w4\<lparr>w_rw := Write buf' (w_rw w4)\<rparr>)))))"

definition sse_headers :: "respWriter \<Rightarrow> respWriter" where
  "sse_headers w =
     (let h = rw_header w;
          h = Header_Set h ''Content-Type'' ''text/event-stream'';
          h = Header_Set h ''Cache-Control'' ''no-cache'';
          h = Header_Set h ''Connection'' ''keep-alive''
      in w\<lparr>rw_header := h\<rparr>)"

definition flushingTemplateHandler ::
  "'d host \<Rightarrow> nat \<Rightarrow> 'd wdot \<Rightarrow> tmpl \<Rightarrow> bool \<Rightarrow> request \<Rightarrow> 'd world \<Rightarrow> ('d wdot \<times> 'd world) panics" where
  "flushingTemplateHandler ho sctx d tmpl flusher r w =
     (if Header_Get (r_header r) ''Accept'' \<noteq> ''text/event-stream'' then
        map_sum id (Pair d) (with_response (http_Error ''SSE endpoint'' 406 (w_rw w)) w)
      else
        let w0 = w\<lparr>w_rw := sse_headers (w_rw w)\<rparr> in
        case dot_value type_of \<lparr>q_sctx = server_ctx w0 sctx, q_flusher = flusher, q_r = r\<rparr> d w0 of
          Inl p \<Rightarrow> Inl p
        | Inr (Inl err, d1, w1) \<Rightarrow>
            map_sum id (Pair d1) (with_response (http_Error ''internal server error'' 500 (w_rw w1)) w1)
        | Inr (Inr dotv, d1, w1) \<Rightarrow>
            (case Execute ho r to_response tmpl dotv ('''', w1) of
               (err, dotv', _, w3) \<Rightarrow>
                 (case dot_cleanup dotv' err d1 w3 of
                    Inl p \<Rightarrow> Inl p
                  | Inr (Some e, d2, w4) \<Rightarrow>
                      map_sum id (Pair d2) (with_response (http_Error ''internal server error'' 500 (w_rw w4)) w4)
                  | Inr (None, d2, w4) \<Rightarrow> Inr (d2, w4))))"

section \<open>The dot of a buffered template\<close>

definition buffer_dot :: "'d env \<Rightarrow> 'd provider list \<Rightarrow> 'd wdot \<Rightarrow> bool" where
  "buffer_dot env ps d \<longleftrightarrow> dot_wf d \<and> d_dps d = [dotX, dotReq] @ map (provider_dot env) ps @ [dotResp]
     \<and> (\<forall>p \<in> set ps. provider_ok p)"

lemma ask_all_append:
  "ask_all tyof ts r (xs @ ys) s =
   (case ask_all tyof ts r xs s of
      Inr (Inr as, s') \<Rightarrow>
        (case ask_all tyof (drop (length xs) ts) r ys s' of Inr (Inr bs, s'') \<Rightarrow> Inr (Inr (as @ bs), s'') | x \<Rightarrow> x)
    | x \<Rightarrow> x)"
proof (induction xs arbitrary: ts s)
  case Nil
  then show ?case by (auto split: sum.splits prod.splits)
next
  case (Cons x xs)
  have "drop (length xs) (tl ts) = drop (length (x # xs)) ts" by (simp add: drop_Suc)
  with Cons [of "tl ts"] show ?case by (auto split: prod.splits option.splits sum.splits)
qed

lemma ask_all_buffer:
  assumes "\<forall>p \<in> set ps. provider_ok p"
    and "ask_all type_of ts q ([dotX, dotReq] @ map (provider_dot env) ps @ [dotResp]) w = Inr (Inr as, w')"
  shows "\<exists>mid. as = [VX, VReq (q_r q)] @ mid @ [VResp dotResp_Value] \<and> list_all2 slot_ok ps mid
    \<and> w_rw w' = w_rw w \<and> w_dbs w' = w_dbs w \<and> map snd (db_slots ps mid) = [length (w_txs w)..<length (w_txs w')]"
proof -
  obtain mid w1 where m: "ask_all type_of (drop 2 ts) q (map (provider_dot env) ps) w = Inr (Inr mid, w1)"
    and as: "as = [VX, VReq (q_r q)] @ mid @ [VResp dotResp_Value]" and w': "w' = w1"
    using assms(2) unfolding ask_all_append
    by (auto simp: dotX_def dotReq_def dotResp_def drop_Suc numeral_2_eq_2 split: sum.splits prod.splits if_splits)
  from ask_all_values [OF assms(1) m] as w' show ?thesis by blast
qed

lemma dot_value_buffer:
  assumes "buffer_dot env ps d" and "dot_value type_of q d w = Inr (Inr dv, d1, w1)"
  obtains mid where "dv = map Some ([VX, VReq (q_r q)] @ mid @ [VResp dotResp_Value])" and "list_all2 slot_ok ps mid"
    and "buffer_dot env ps d1" and "w_rw w1 = w_rw w" and "w_dbs w1 = w_dbs w"
    and "map snd (db_slots ps mid) = [length (w_txs w)..<length (w_txs w1)]"
proof -
  have b: "dot_wf d" "d_dps d = [dotX, dotReq] @ map (provider_dot env) ps @ [dotResp]" "\<forall>p \<in> set ps. provider_ok p"
    using assms(1) by (simp_all add: buffer_dot_def)
  obtain as where as: "dv = map Some as" "ask_all type_of (d_types d) q (d_dps d) w = Inr (Inr as, w1)"
    and d1: "dot_wf d1" "d_dps d1 = d_dps d"
    using dot_value_ask [OF b(1), of type_of q w] assms(2) by auto
  from ask_all_buffer [OF b(3) as(2) [unfolded b(2)]] obtain mid
    where "as = [VX, VReq (q_r q)] @ mid @ [VResp dotResp_Value]" "list_all2 slot_ok ps mid"
      "w_rw w1 = w_rw w" "w_dbs w1 = w_dbs w" "map snd (db_slots ps mid) = [length (w_txs w)..<length (w_txs w1)]"
    by blast
  with that as(1) d1 b show ?thesis by (simp add: buffer_dot_def)
qed

lemma same_dot_mid: "list_all2 slot_ok ps mid \<Longrightarrow> list_all2 same_field (map Some mid) xs \<Longrightarrow> xs = map Some mid"
proof (induction ps mid arbitrary: xs rule: list_all2_induct)
  case (Cons p ps a as)
  from Cons.prems obtain x xs' where xs: "xs = x # xs'" "same_field (Some a) x" "list_all2 same_field (map Some as) xs'"
    by (auto simp: list_all2_Cons1)
  have "x = Some a" using xs(2) Cons.hyps(1) by (cases p) (auto simp: same_field_def split: val.splits)
  with Cons.IH [OF xs(3)] xs(1) show ?case by simp
qed simp

lemma same_dot_buffer:
  assumes "list_all2 slot_ok ps mid" and "same_dot (map Some ([VX, VReq r] @ mid @ [VResp d])) dv'"
  shows "\<exists>d'. dv' = map Some ([VX, VReq r] @ mid @ [VResp d'])"
proof -
  obtain x y xs z where dv': "dv' = x # y # xs @ [z]" "same_field (Some VX) x" "same_field (Some (VReq r)) y"
      "list_all2 same_field (map Some mid) xs" "same_field (Some (VResp d)) z"
    using assms(2) by (auto simp: same_dot_def list_all2_Cons1 list_all2_append1)
  have "xs = map Some mid" by (rule same_dot_mid [OF assms(1) dv'(4)])
  moreover have "x = Some VX" "y = Some (VReq r)" "\<exists>d'. z = Some (VResp d')" using dv'(2,3,5) by (auto simp: same_field_def)
  ultimately show ?thesis using dv'(1) by auto
qed

text \<open>What \<^verbatim>\<open>.X\<close> makes of the error of the template.\<close>

definition after_X :: "gerror option \<Rightarrow> gerror option" where
  "after_X err = (if (case err of Some e \<Rightarrow> is_return e | None \<Rightarrow> False) then None else err)"

lemma dot_cleanup_buffer:
  assumes "buffer_dot env ps d" and "list_all2 slot_ok ps mid"
  shows "\<exists>err1 w1. cleanup_all (map (provider_dot env) ps) mid (after_X err) w = Inr (err1, w1)
    \<and> dot_cleanup (map Some ([VX, VReq r] @ mid @ [VResp dr])) err d w =
        (case resp_Cleanup (VResp dr) err1 w1 of
           Inl p \<Rightarrow> Inl p
         | Inr (err2, w2) \<Rightarrow> Inr (err2, d\<lparr>d_pool := replicate (length ([VX, VReq r] @ mid @ [VResp dr])) None # d_pool d\<rparr>, w2))"
proof -
  have b: "dot_wf d" "d_dps d = [dotX, dotReq] @ map (provider_dot env) ps @ [dotResp]" "\<forall>p \<in> set ps. provider_ok p"
    using assms(1) by (simp_all add: buffer_dot_def)
  have len: "length mid = length ps" using assms(2) by (simp add: list_all2_lengthD)
  obtain err1 w1 where c: "cleanup_all (map (provider_dot env) ps) mid (after_X err) w = Inr (err1, w1)"
    using cleanup_total [OF b(3) assms(2)] by blast
  let ?as = "[VX, VReq r] @ mid @ [VResp dr]"
  have "length ?as = length (d_dps d)" by (simp add: b(2) len)
  from dot_cleanup_all [OF b(1) this] have "dot_cleanup (map Some ?as) err d w =
    (case cleanup_all ([dotX, dotReq] @ map (provider_dot env) ps @ [dotResp]) ?as err w of
       Inl p \<Rightarrow> Inl p | Inr (err', w') \<Rightarrow> Inr (err', d\<lparr>d_pool := replicate (length ?as) None # d_pool d\<rparr>, w'))"
    by (simp add: b(2))
  also have "cleanup_all ([dotX, dotReq] @ map (provider_dot env) ps @ [dotResp]) ?as err w =
      cleanup_all (map (provider_dot env) ps @ [dotResp]) (mid @ [VResp dr]) (after_X err) w"
    by (simp add: dotX_def dotReq_def after_X_def)
  also have "\<dots> = resp_Cleanup (VResp dr) err1 w1"
    using len c by (simp add: cleanup_all_append dotResp_def split: sum.splits prod.splits)
  finally show ?thesis using c by blast
qed

lemma buffering_run:
  assumes "buffer_dot (ho_env ho) ps d"
    and "dot_value type_of \<lparr>q_sctx = server_ctx w sctx, q_flusher = flusher, q_r = r\<rparr> d w = Inr (Inr dv, d1, w1)"
    and "Execute ho r to_buffer t dv ('''', snd (bufPool_Get w1)) = (err, dv', buf, w2)"
  obtains mid dr err1 w3 d2 where "dv' = map Some ([VX, VReq r] @ mid @ [VResp dr])" and "list_all2 slot_ok ps mid"
    and "map snd (db_slots ps mid) = [length (w_txs w)..<length (w_txs w2)]"
    and "w_rw w1 = w_rw w" and "w_dbs w1 = w_dbs w"
    and "cleanup_all (map (provider_dot (ho_env ho)) ps) mid (after_X err) w2 = Inr (err1, w3)"
    and "bufferingTemplateHandler ho sctx d t flusher r w =
      (case resp_Cleanup (VResp dr) err1 w3 of
         Inl p \<Rightarrow> Inl p
       | Inr (Some e, w4) \<Rightarrow>
           map_sum id (\<lambda>w5. (d2, bufPool_Put buf w5)) (with_response (http_Error ''internal server error'' 500 (w_rw w4)) w4)
       | Inr (None, w4) \<Rightarrow> Inr (d2, bufPool_Put buf (w4\<lparr>w_rw := Write buf (w_rw w4)\<rparr>)))"
proof -
  let ?q = "\<lparr>q_sctx = server_ctx w sctx, q_flusher = flusher, q_r = r\<rparr>"
  obtain mid where dv: "dv = map Some ([VX, VReq (q_r ?q)] @ mid @ [VResp dotResp_Value])" and mid: "list_all2 slot_ok ps mid"
    and d1: "buffer_dot (ho_env ho) ps d1" and rw: "w_rw w1 = w_rw w" and dbs: "w_dbs w1 = w_dbs w"
    and ptr: "map snd (db_slots ps mid) = [length (w_txs w)..<length (w_txs w1)]"
    by (rule dot_value_buffer [OF assms(1,2)])
  obtain b0 w1' where g: "bufPool_Get w1 = (b0, w1')" by force
  then have w1': "w_txs w1' = w_txs w1" by (auto simp: bufPool_Get_def split: list.splits)
  have run: "Execute ho r to_buffer t dv ('''', w1') = (err, dv', buf, w2)" using assms(3) g by simp
  have same: "same_dot dv dv' \<and> length (w_txs w2) = length (w_txs w1')"
    by (rule Execute_same_dot [OF _ run]) simp
  from same_dot_buffer [OF mid, of r dotResp_Value dv'] same dv
  obtain dr where dv': "dv' = map Some ([VX, VReq r] @ mid @ [VResp dr])" by auto
  obtain err1 w3 where c: "cleanup_all (map (provider_dot (ho_env ho)) ps) mid (after_X err) w2 = Inr (err1, w3)"
    and dc: "dot_cleanup dv' err d1 w2 = (case resp_Cleanup (VResp dr) err1 w3 of
           Inl p \<Rightarrow> Inl p
         | Inr (err2, w4) \<Rightarrow> Inr (err2, d1\<lparr>d_pool := replicate (length ([VX, VReq r] @ mid @ [VResp dr])) None # d_pool d1\<rparr>, w4))"
    using dot_cleanup_buffer [OF d1 mid, of err w2 r dr] unfolding dv' by blast
  have h: "bufferingTemplateHandler ho sctx d t flusher r w =
      (case resp_Cleanup (VResp dr) err1 w3 of
         Inl p \<Rightarrow> Inl p
       | Inr (Some e, w4) \<Rightarrow>
           map_sum id (\<lambda>w5. (d1\<lparr>d_pool := replicate (length ([VX, VReq r] @ mid @ [VResp dr])) None # d_pool d1\<rparr>, bufPool_Put buf w5))
             (with_response (http_Error ''internal server error'' 500 (w_rw w4)) w4)
       | Inr (None, w4) \<Rightarrow> Inr (d1\<lparr>d_pool := replicate (length ([VX, VReq r] @ mid @ [VResp dr])) None # d_pool d1\<rparr>,
           bufPool_Put buf (w4\<lparr>w_rw := Write buf (w_rw w4)\<rparr>)))"
    by (simp add: bufferingTemplateHandler_def assms(2) g Reset_def run dc split: sum.split option.split)
  show ?thesis by (rule that [OF dv' mid _ rw dbs c h]) (use ptr same w1' in simp)
qed

section \<open>What a template may do\<close>

text \<open>A call that neither commits a transaction before the end nor answers the request itself.\<close>

fun ordinary :: "op \<Rightarrow> bool" where
  "ordinary (ODB i DCommit) \<longleftrightarrow> False"
| "ordinary (OResp i (RServeContent p t c)) \<longleftrightarrow> False"
| "ordinary (OFlush i f) \<longleftrightarrow> False"
| "ordinary _ \<longleftrightarrow> True"

lemma db_call_keeps: "sql_ok sql \<Longrightarrow> f \<noteq> DCommit \<Longrightarrow> db_call sql f c d = (a, c', d') \<Longrightarrow> c' = c"
  by (cases f) (auto simp: Rollback_def rollback_def sql_ok_def split: prod.splits option.splits, metis snd_conv)

lemma resp_call_keeps: "\<forall>p t c. f \<noteq> RServeContent p t c \<Longrightarrow> resp_call se r f d w = (a, d', w') \<Longrightarrow> w' = w"
  by (cases f) (auto split: prod.splits)

lemma call_ordinary:
  assumes "\<forall>h. driver_ok (e_sql (ho_env ho) h)" and "ordinary f" and "call ho r f dv w = (a, dv', w')"
  shows "w_rw w' = w_rw w \<and> w_dbs w' = w_dbs w"
proof (cases f)
  case (ODB i g)
  have sql: "sql_ok (e_sql (ho_env ho) (ho_handle ho i))" using assms(1) by (simp add: driver_ok_def)
  have "g \<noteq> DCommit" using assms(2) ODB by auto
  with assms(3) ODB db_call_keeps [OF sql] show ?thesis
    by (fastforce split: option.splits val.splits prod.splits)
next
  case (OResp i g)
  have "\<forall>p t c. g \<noteq> RServeContent p t c" using assms(2) OResp by auto
  with assms(3) OResp resp_call_keeps show ?thesis by (fastforce split: option.splits val.splits prod.splits)
qed (use assms(2,3) in \<open>auto split: option.splits val.splits prod.splits\<close>)

lemma Execute_ordinary:
  assumes "\<forall>h. driver_ok (e_sql (ho_env ho) h)" and "all_calls ordinary t"
    and "Execute ho r to_buffer t dv (b, w) = (err, dv', b', w')"
  shows "w_rw w' = w_rw w \<and> w_dbs w' = w_dbs w"
proof -
  have "execution ho r ordinary to_buffer (\<lambda>_ w _ w'. w_rw w' = w_rw w \<and> w_dbs w' = w_dbs w)"
    by unfold_locales (simp, simp, erule (1) call_ordinary [OF assms(1)], simp_all add: to_buffer_def)
  from execution.Execute_keeps [OF this assms(2) _ assms(3)] show ?thesis by simp
qed

section \<open>What a buffered template guarantees\<close>

lemma bufPool_Get_world: "w_rw (snd (bufPool_Get w)) = w_rw w" "w_dbs (snd (bufPool_Get w)) = w_dbs w"
  by (auto simp: bufPool_Get_def split: list.splits)

lemma http_Error_500:
  assumes "untouched rw"
  shows "\<exists>rw'. http_Error ''internal server error'' 500 rw = Inr rw' \<and> final_status rw' = 500
    \<and> rw_body rw' = ''internal server error'' @ [newline]
    \<and> Header_Get (final_header rw') ''Content-Type'' = ''text/plain; charset=utf-8''"
  using http_Error_untouched [OF assms, of 500 "''internal server error''"] by (auto simp: bodyAllowedForStatus_def in_range_def)

text \<open>C1. A buffered template that fails sends nothing of its output: the client gets a plain 500 answer, and every
  transaction the template opened is rolled back, so that all databases are as they were before the request. (The template does
  not commit on its own and does not serve content; its error is not \<^verbatim>\<open>return\<close> and carries no \<^verbatim>\<open>ErrorStatus\<close>.)\<close>

theorem failed_template_leaves_nothing:
  assumes "buffer_dot (ho_env ho) ps d" and "\<forall>h. driver_ok (e_sql (ho_env ho) h)" and "all_calls ordinary t"
    and "untouched (w_rw w)"
    and "dot_value type_of \<lparr>q_sctx = server_ctx w sctx, q_flusher = flusher, q_r = r\<rparr> d w = Inr (Inr dv, d1, w1)"
    and "Execute ho r to_buffer t dv ('''', snd (bufPool_Get w1)) = (Some e, dv', buf, w2)"
    and "\<not> is_return e" and "errors_As kind_status e = None"
  shows "\<exists>d' w'. bufferingTemplateHandler ho sctx d t flusher r w = Inr (d', w')
     \<and> final_status (w_rw w') = 500 \<and> rw_body (w_rw w') = ''internal server error'' @ [newline]
     \<and> Header_Get (final_header (w_rw w')) ''Content-Type'' = ''text/plain; charset=utf-8''
     \<and> w_dbs w' = w_dbs w
     \<and> (\<forall>q. length (w_txs w) \<le> q \<and> q < length (w_txs w') \<longrightarrow> db_tx (w_txs w' ! q) = None)"
proof -
  obtain mid dr err1 w3 d2 where run: "list_all2 slot_ok ps mid"
      "map snd (db_slots ps mid) = [length (w_txs w)..<length (w_txs w2)]" "w_rw w1 = w_rw w" "w_dbs w1 = w_dbs w"
      "cleanup_all (map (provider_dot (ho_env ho)) ps) mid (after_X (Some e)) w2 = Inr (err1, w3)"
      "bufferingTemplateHandler ho sctx d t flusher r w =
        (case resp_Cleanup (VResp dr) err1 w3 of
           Inl p \<Rightarrow> Inl p
         | Inr (Some e, w4) \<Rightarrow>
             map_sum id (\<lambda>w5. (d2, bufPool_Put buf w5)) (with_response (http_Error ''internal server error'' 500 (w_rw w4)) w4)
         | Inr (None, w4) \<Rightarrow> Inr (d2, bufPool_Put buf (w4\<lparr>w_rw := Write buf (w_rw w4)\<rparr>)))"
    by (rule buffering_run [OF assms(1,5,6)])
  have ok: "\<forall>p \<in> set ps. provider_ok p" "length mid = length ps"
    using assms(1) run(1) by (simp_all add: buffer_dot_def list_all2_lengthD)
  have w2: "w_rw w2 = w_rw w \<and> w_dbs w2 = w_dbs w"
    using Execute_ordinary [OF assms(2,3,6)] run(3,4) by (simp add: bufPool_Get_world)
  have keeps: "keeps (Some e, w2) (err1, w3)"
    using cleanup_keeps [OF assms(2) ok run(5)] assms(7) by (simp add: after_X_def)
  then obtain e1 where e1: "err1 = Some e1" "errors_As kind_status e1 = None"
    using assms(8) by (auto simp: keeps_def same_status_def)
  have w3: "w_rw w3 = w_rw w" "w_dbs w3 = w_dbs w" "length (w_txs w3) = length (w_txs w2)"
    using keeps e1(1) w2 by (simp_all add: keeps_def)
  have closed: "tx_closed w3 q" if "length (w_txs w) \<le> q" "q < length (w_txs w2)" for q
  proof -
    have "q \<in> set (map snd (db_slots ps mid))" unfolding run(2) using that by simp
    then obtain h where "(h, q) \<in> set (db_slots ps mid)" by auto
    then show ?thesis by (rule cleanup_closes [OF assms(2) ok run(5)]) (rule that(2))
  qed
  obtain rw' where rw': "http_Error ''internal server error'' 500 (w_rw w3) = Inr rw'" "final_status rw' = 500"
      "rw_body rw' = ''internal server error'' @ [newline]"
      "Header_Get (final_header rw') ''Content-Type'' = ''text/plain; charset=utf-8''"
    using http_Error_500 [of "w_rw w3"] assms(4) w3(1) by auto
  have "resp_Cleanup (VResp dr) err1 w3 = Inr (Some e1, w3)"
    by (simp add: resp_Cleanup_def e1(1) dotResp_Cleanup_failure [OF e1(2)])
  then have "bufferingTemplateHandler ho sctx d t flusher r w = Inr (d2, bufPool_Put buf (w3\<lparr>w_rw := rw'\<rparr>))"
    by (simp add: run(6) rw'(1) with_response_def)
  moreover have "\<forall>q. length (w_txs w) \<le> q \<and> q < length (w_txs w3) \<longrightarrow> db_tx (w_txs w3 ! q) = None"
    using closed w3(3) by (simp add: tx_closed_def)
  ultimately show ?thesis using rw' w3(2) by (simp add: bufPool_Put_def)
qed

text \<open>The databases of the providers, in order.\<close>

definition db_handles :: "'d provider list \<Rightarrow> nat list" where
  "db_handles ps = concat (map (\<lambda>p. case p of PDB d \<Rightarrow> [the (dbc_DB d)] | _ \<Rightarrow> []) ps)"

lemma db_handles_slots: "list_all2 slot_ok ps mid \<Longrightarrow> map fst (db_slots ps mid) = db_handles ps"
proof (induction rule: list_all2_induct)
  case (Cons p ps a as)
  then show ?case by (cases p; cases a) (auto simp: db_handles_def)
qed (simp add: db_handles_def)

lemma foldl_updates:
  "distinct (map fst xs) \<Longrightarrow> (h, q) \<in> set xs \<Longrightarrow> h < length dbs \<Longrightarrow>
   foldl (\<lambda>dbs (h, q). dbs[h := f h q]) dbs xs ! h = f h q"
proof (induction xs arbitrary: dbs)
  case (Cons x xs)
  obtain h' q' where x: "x = (h', q')" by force
  have other: "foldl (\<lambda>dbs (h, q). dbs[h := f h q]) acc ys ! h = acc ! h" if "h \<notin> fst ` set ys" for acc ys
    using that by (induction ys arbitrary: acc) auto
  show ?case
  proof (cases "h = h'")
    case True
    with Cons.prems x have "q = q'" "h \<notin> fst ` set xs" by force+
    with other Cons.prems(3) True show ?thesis by (simp add: x)
  next
    case False
    with Cons x show ?thesis by simp
  qed
qed simp

text \<open>No \<^verbatim>\<open>Cleanup\<close> reports an error of its own.\<close>

definition cleanups_succeed :: "'d env \<Rightarrow> 'd provider list \<Rightarrow> bool" where
  "cleanups_succeed env ps \<longleftrightarrow> (\<forall>p \<in> set ps. \<forall>a w err' w'. provider_step env p a None w = Inr (err', w') \<longrightarrow> err' = None)"

lemma cleanup_all_succeeds:
  "cleanups_succeed env ps \<Longrightarrow> length as = length ps \<Longrightarrow> cleanup_all (map (provider_dot env) ps) as None w = Inr (err', w') \<Longrightarrow> err' = None"
proof (induction ps arbitrary: as w)
  case (Cons p ps)
  then obtain a as' where as: "as = a # as'" by (cases as) auto
  obtain err1 w1 where st: "provider_step env p a None w = Inr (err1, w1)"
    and rest: "cleanup_all (map (provider_dot env) ps) as' err1 w1 = Inr (err', w')"
    by (rule cleanup_all_step [OF Cons.prems(3) [unfolded as]])
  have "err1 = None" using Cons.prems(1) st unfolding cleanups_succeed_def by (meson list.set_intros(1))
  with rest Cons.IH [of as' w1] Cons.prems(1,2) as show ?case by (simp add: cleanups_succeed_def)
qed auto

lemma Write_once:
  assumes "rw_sent rw = Some (code, h)" and "rw_limit rw = None" and "rw_body rw = ''''" and "bodyAllowedForStatus code"
  shows "rw_sent (Write s rw) = Some (code, h)" and "rw_body (Write s rw) = s"
  using assms by (simp_all add: Write_def decide_ok_sent Let_def)

lemma resp_Cleanup_ok:
  assumes "untouched (w_rw w)" and "200 \<le> dr_status dr" and "dr_status dr \<le> 999" and "bodyAllowedForStatus (dr_status dr)"
    and "declared_length (maps_Copy (rw_header (w_rw w)) (dr_header dr)) = None"
  shows "\<exists>rw. resp_Cleanup (VResp dr) None w = Inr (None, w\<lparr>w_rw := rw\<rparr>)
    \<and> rw_sent (Write s rw) = Some (dr_status dr, maps_Copy (rw_header (w_rw w)) (dr_header dr)) \<and> rw_body (Write s rw) = s"
proof -
  obtain rw where rw: "dotResp_Cleanup dr None (w_rw w) = Inr (None, rw)"
      "rw_sent rw = Some (dr_status dr, maps_Copy (rw_header (w_rw w)) (dr_header dr))" "rw_body rw = ''''"
      "rw_limit rw = declared_length (maps_Copy (rw_header (w_rw w)) (dr_header dr))"
    using dotResp_Cleanup_success [OF assms(1-3)] by blast
  with Write_once [OF rw(2) _ rw(3) assms(4), of s] assms(5) show ?thesis by (auto simp: resp_Cleanup_def)
qed

lemma slot_nth:
  assumes "map fst xs = hs" and "map snd xs = [n..<m]" and "j < length hs"
  shows "(hs ! j, n + j) \<in> set xs"
proof -
  have len: "length xs = length hs" "length xs = m - n" using assms(1,2) by (metis length_map, metis length_map length_upt)
  then have "fst (xs ! j) = hs ! j" "snd (xs ! j) = [n..<m] ! j" using assms by (metis nth_map)+
  then have "xs ! j = (hs ! j, n + j)" using len assms(3) by (simp add: prod_eq_iff)
  with len assms(3) show ?thesis by (metis nth_mem)
qed

text \<open>C2. A buffered template that succeeds, or ends early by \<^verbatim>\<open>return\<close> or \<^verbatim>\<open>ReturnStatus\<close>, is answered with the status and the
  headers it asked for and with exactly its output, whatever an earlier request left in the buffer pool; and the
  contents of every database are those the template's transaction saw. (The template does not commit on its own
  and does not serve content, and no \<^verbatim>\<open>Cleanup\<close> fails.)\<close>

theorem successful_template_answers:
  assumes "buffer_dot (ho_env ho) ps d" and "\<forall>h. driver_ok (e_sql (ho_env ho) h)" and "all_calls ordinary t"
    and "untouched (w_rw w)"
    and "dot_value type_of \<lparr>q_sctx = server_ctx w sctx, q_flusher = flusher, q_r = r\<rparr> d w = Inr (Inr dv, d1, w1)"
    and "Execute ho r to_buffer t dv ('''', snd (bufPool_Get w1)) = (err, dv', buf, w2)"
    and "err = None \<or> (\<exists>e. err = Some e \<and> is_return e)" and "cleanups_succeed (ho_env ho) ps" and "distinct (db_handles ps)"
    and "dv' ! (length ps + 2) = Some (VResp dr)" and "200 \<le> dr_status dr" and "dr_status dr \<le> 999"
    and "bodyAllowedForStatus (dr_status dr)" and "declared_length (maps_Copy (rw_header (w_rw w)) (dr_header dr)) = None"
  shows "\<exists>d' w'. bufferingTemplateHandler ho sctx d t flusher r w = Inr (d', w')
     \<and> rw_sent (w_rw w') = Some (dr_status dr, maps_Copy (rw_header (w_rw w)) (dr_header dr)) \<and> rw_body (w_rw w') = buf
     \<and> (\<forall>j < length (db_handles ps). db_handles ps ! j < length (w_dbs w) \<longrightarrow>
          w_dbs w' ! (db_handles ps ! j) = view (w_dbs w ! (db_handles ps ! j)) (w_txs w2 ! (length (w_txs w) + j)))"
proof -
  obtain mid dr' err1 w3 d2 where run: "dv' = map Some ([VX, VReq r] @ mid @ [VResp dr'])" "list_all2 slot_ok ps mid"
      "map snd (db_slots ps mid) = [length (w_txs w)..<length (w_txs w2)]" "w_rw w1 = w_rw w" "w_dbs w1 = w_dbs w"
      "cleanup_all (map (provider_dot (ho_env ho)) ps) mid (after_X err) w2 = Inr (err1, w3)"
      "bufferingTemplateHandler ho sctx d t flusher r w =
        (case resp_Cleanup (VResp dr') err1 w3 of
           Inl p \<Rightarrow> Inl p
         | Inr (Some e, w4) \<Rightarrow>
             map_sum id (\<lambda>w5. (d2, bufPool_Put buf w5)) (with_response (http_Error ''internal server error'' 500 (w_rw w4)) w4)
         | Inr (None, w4) \<Rightarrow> Inr (d2, bufPool_Put buf (w4\<lparr>w_rw := Write buf (w_rw w4)\<rparr>)))"
    by (rule buffering_run [OF assms(1,5,6)])
  have ok: "\<forall>p \<in> set ps. provider_ok p" "length mid = length ps"
    using assms(1) run(2) by (simp_all add: buffer_dot_def list_all2_lengthD)
  have dr': "dr' = dr" using assms(10) ok(2) by (simp add: run(1) nth_append)
  have w2: "w_rw w2 = w_rw w \<and> w_dbs w2 = w_dbs w"
    using Execute_ordinary [OF assms(2,3,6)] run(4,5) by (simp add: bufPool_Get_world)
  have err: "after_X err = None" using assms(7) by (auto simp: after_X_def)
  note c = run(6) [unfolded err]
  have err1: "err1 = None" by (rule cleanup_all_succeeds [OF assms(8) ok(2) c])
  have w3: "w_rw w3 = w_rw w" using cleanup_keeps [OF assms(2) ok c] w2 by (simp add: keeps_def)
  let ?commit = "\<lambda>h q. view (w_dbs w ! h) (w_txs w2 ! q)" and ?xs = "db_slots ps mid"
  have fst: "map fst ?xs = db_handles ps" by (rule db_handles_slots [OF run(2)])
  have distinct: "distinct (map fst ?xs)" "distinct (map snd ?xs)" using assms(9) by (simp_all add: fst run(3))
  have dbs: "w_dbs w3 = foldl (\<lambda>dbs (h, q). dbs[h := ?commit h q]) (w_dbs w) ?xs"
    using cleanup_commits [OF assms(2) ok c [unfolded err1] distinct] w2 by simp
  have "w_dbs w3 ! (db_handles ps ! j) = ?commit (db_handles ps ! j) (length (w_txs w) + j)"
    if "j < length (db_handles ps)" "db_handles ps ! j < length (w_dbs w)" for j
    unfolding dbs by (rule foldl_updates [OF distinct(1) slot_nth [OF fst run(3) that(1)] that(2)])
  moreover obtain rw where "resp_Cleanup (VResp dr) None w3 = Inr (None, w3\<lparr>w_rw := rw\<rparr>)"
      "rw_sent (Write buf rw) = Some (dr_status dr, maps_Copy (rw_header (w_rw w)) (dr_header dr))" "rw_body (Write buf rw) = buf"
    using resp_Cleanup_ok [of w3 dr buf] assms(4,11-14) w3 by auto
  ultimately show ?thesis by (simp add: run(7) dr' err1 bufPool_Put_def)
qed

lemma http_Error_streaming:
  assumes "rw_sent rw = Some (code, h)" and "streaming rw"
  shows "\<exists>rw'. http_Error msg c rw = Inr rw' \<and> rw_sent rw' = Some (code, h) \<and> rw_body rw' = rw_body rw @ msg @ [newline]"
  using assms by (simp add: http_Error_def WriteHeader_sent Write_def decide_ok_sent streaming_def Let_def)

text \<open>C39. A template for server-sent events is refused with status 406 when the client does not ask for an event stream; and once
  the stream has begun, a failure cannot change its status: the client has got status 200, and the text of the error page is
  appended to the events.\<close>

theorem flushing_template_errors:
  assumes "untouched (w_rw w)"
  shows "(Header_Get (r_header r) ''Accept'' \<noteq> ''text/event-stream'' \<longrightarrow>
      (\<exists>rw. flushingTemplateHandler ho sctx d t flusher r w = Inr (d, w\<lparr>w_rw := rw\<rparr>)
         \<and> final_status rw = 406 \<and> rw_body rw = ''SSE endpoint'' @ [newline]))
    \<and> (Header_Get (r_header r) ''Accept'' = ''text/event-stream''
       \<and> dot_value type_of \<lparr>q_sctx = server_ctx w sctx, q_flusher = flusher, q_r = r\<rparr> d (w\<lparr>w_rw := sse_headers (w_rw w)\<rparr>)
           = Inr (Inr dv, d1, w1)
       \<and> Execute ho r to_response t dv ('''', w1) = (err, dv', b, w2)
       \<and> dot_cleanup dv' err d1 w2 = Inr (Some e, d2, w3) \<and> rw_sent (w_rw w3) = Some (200, h) \<and> streaming (w_rw w3) \<longrightarrow>
      (\<exists>rw. flushingTemplateHandler ho sctx d t flusher r w = Inr (d2, w3\<lparr>w_rw := rw\<rparr>)
         \<and> final_status rw = 200
         \<and> rw_body rw = rw_body (w_rw w3) @ ''internal server error'' @ [newline]))"
proof (intro conjI impI)
  assume "Header_Get (r_header r) ''Accept'' \<noteq> ''text/event-stream''"
  moreover obtain rw where "http_Error ''SSE endpoint'' 406 (w_rw w) = Inr rw" "final_status rw = 406"
      "rw_body rw = ''SSE endpoint'' @ [newline]"
    using http_Error_untouched [OF assms, of 406 "''SSE endpoint''"] by (auto simp: bodyAllowedForStatus_def in_range_def)
  ultimately show "\<exists>rw. flushingTemplateHandler ho sctx d t flusher r w = Inr (d, w\<lparr>w_rw := rw\<rparr>)
     \<and> final_status rw = 406 \<and> rw_body rw = ''SSE endpoint'' @ [newline]"
    by (intro exI [of _ rw]) (simp add: flushingTemplateHandler_def with_response_def)
next
  assume a: "Header_Get (r_header r) ''Accept'' = ''text/event-stream''
       \<and> dot_value type_of \<lparr>q_sctx = server_ctx w sctx, q_flusher = flusher, q_r = r\<rparr> d (w\<lparr>w_rw := sse_headers (w_rw w)\<rparr>)
           = Inr (Inr dv, d1, w1)
       \<and> Execute ho r to_response t dv ('''', w1) = (err, dv', b, w2)
       \<and> dot_cleanup dv' err d1 w2 = Inr (Some e, d2, w3) \<and> rw_sent (w_rw w3) = Some (200, h) \<and> streaming (w_rw w3)"
  have ctx: "server_ctx (w\<lparr>w_rw := x\<rparr>) sctx = server_ctx w sctx" for x by (simp add: server_ctx_def is_done_def)
  obtain rw where rw: "http_Error ''internal server error'' 500 (w_rw w3) = Inr rw" "rw_sent rw = rw_sent (w_rw w3)"
      "rw_body rw = rw_body (w_rw w3) @ ''internal server error'' @ [newline]"
    using http_Error_streaming [of "w_rw w3" 200 h "''internal server error''" 500] a by auto
  then show "\<exists>rw. flushingTemplateHandler ho sctx d t flusher r w = Inr (d2, w3\<lparr>w_rw := rw\<rparr>)
         \<and> final_status rw = 200
         \<and> rw_body rw = rw_body (w_rw w3) @ ''internal server error'' @ [newline]"
    using a by (intro exI [of _ rw]) (simp add: flushingTemplateHandler_def with_response_def Let_def ctx final_status_def)
qed
section \<open>Examples\<close>

text \<open>An instance with one database, a log of the statements executed on it.\<close>

definition toy_env :: "string list env" where
  "toy_env = \<lparr>e_sql = (\<lambda>_. log_db), e_sqlOpen = (\<lambda>_ _. Inr 0), e_ping = (\<lambda>_. None), e_fs = (\<lambda>_. small_fs), e_dirFS = (\<lambda>_. 0),
     e_serve = plain_env, e_uni = ascii_only, e_rank = length\<rparr>"

definition toy_host :: "string list host" where
  "toy_host = \<lparr>ho_env = toy_env, ho_handle = (\<lambda>_. 0), ho_files = Map.empty\<rparr>"

definition toy_db :: "string list provider" where
  "toy_db = PDB \<lparr>dbc_DB = Some 0, dbc_TxOptions = '''', dbc_Name = ''DB'', dbc_Driver = '''', dbc_Connstr = '''', dbc_MaxOpenConns = 0\<rparr>"

definition toy_dot :: "string list wdot" where
  "toy_dot = \<lparr>d_dps = [dotX, dotReq, provider_dot toy_env toy_db, dotResp],
     d_cleanups = cleanups_from 0 [dotX, dotReq, provider_dot toy_env toy_db, dotResp],
     d_types = [TX, TReq, TDB, TResp], d_pool = []\<rparr>"

definition toy_world :: "string list world" where
  "toy_world = \<lparr>w_rw = new_response, w_dbs = [[''old'']], w_pools = 0, w_txs = [], w_fss = [], w_handles = no_handles,
     w_bufs = [''dirty''], w_parents = [], w_cancelled = [], w_servers = []\<rparr>"

definition toy_running :: "string list world" where
  "toy_running = toy_world\<lparr>w_txs := [dotDB_Value background]\<rparr>"

text \<open>Two templates that write and execute a statement: one fails then, the other sets a status and a header.\<close>

definition failing_tmpl :: tmpl where
  "failing_tmpl = Text ''part'' (Call (ODB 2 (DExec ''insert'' [])) (\<lambda>_. Fail (ErrMsg ''boom'')))"

definition working_tmpl :: tmpl where
  "working_tmpl = Text ''part'' (Call (ODB 2 (DExec ''insert'' [])) (\<lambda>_. Call (OResp 3 (RSetStatus 201)) (\<lambda>_. Done)))"

lemma toy_buffer_dot: "buffer_dot (ho_env toy_host) [toy_db] toy_dot"
  by (simp add: buffer_dot_def dot_wf_def toy_dot_def toy_host_def toy_db_def)

lemma toy_drivers: "\<forall>h. driver_ok (e_sql (ho_env toy_host) h)"
  by (simp add: toy_host_def toy_env_def driver_ok_def sql_ok_log_db) (simp add: log_db_def)

lemma toy_value:
  "dot_value type_of \<lparr>q_sctx = server_ctx toy_world 0, q_flusher = True, q_r = get_request ''/''\<rparr> toy_dot toy_world
   = Inr (Inr [Some VX, Some (VReq (get_request ''/'')), Some (VDB 0), Some (VResp dotResp_Value)], toy_dot, toy_running)"
  by (simp add: dot_value_def toy_dot_def pool_Get_def SetZero_def dotX_def dotReq_def dotResp_def toy_db_def db_Value_def
      toy_running_def toy_world_def get_request_def background_def)

lemma toy_buffer: "snd (bufPool_Get toy_running) = toy_running\<lparr>w_bufs := []\<rparr>"
  by (simp add: bufPool_Get_def toy_running_def toy_world_def)

lemmas toy_defs = failing_tmpl_def working_tmpl_def toy_host_def toy_env_def toy_running_def toy_world_def dot_field_def
  Exec_def makeTx_def dotDB_Value_def log_db_def to_buffer_def SetStatus_def

lemma failed_template_leaves_nothing_witness:
  "\<exists>d' w'. bufferingTemplateHandler toy_host 0 toy_dot failing_tmpl True (get_request ''/'') toy_world = Inr (d', w')
     \<and> final_status (w_rw w') = 500 \<and> rw_body (w_rw w') = ''internal server error'' @ [newline] \<and> w_dbs w' = [[''old'']]"
proof -
  let ?dv = "[Some VX, Some (VReq (get_request ''/'')), Some (VDB 0), Some (VResp dotResp_Value)]"
  obtain w2 where run: "Execute toy_host (get_request ''/'') to_buffer failing_tmpl ?dv ('''', snd (bufPool_Get toy_running))
     = (Some (Wrapf ''template'' (ErrMsg ''boom'')), ?dv, ''part'', w2)"
    unfolding toy_buffer by (simp add: toy_defs)
  have "all_calls ordinary failing_tmpl" by (simp add: failing_tmpl_def)
  moreover have "untouched (w_rw toy_world)" by (simp add: toy_world_def)
  moreover have "w_dbs toy_world = [[''old'']]" by (simp add: toy_world_def)
  moreover have "\<not> is_return (Wrapf ''template'' (ErrMsg ''boom''))"
    "errors_As kind_status (Wrapf ''template'' (ErrMsg ''boom'')) = None" by (code_simp, code_simp)
  ultimately show ?thesis
    using failed_template_leaves_nothing [OF toy_buffer_dot toy_drivers _ _ toy_value run] by auto
qed

lemma successful_template_answers_witness:
  "\<exists>d' w'. bufferingTemplateHandler toy_host 0 toy_dot working_tmpl True (get_request ''/'') toy_world = Inr (d', w')
     \<and> final_status (w_rw w') = 201 \<and> rw_body (w_rw w') = ''part'' \<and> w_dbs w' ! 0 = [''old'', ''insert'']"
proof -
  let ?dv = "[Some VX, Some (VReq (get_request ''/'')), Some (VDB 0), Some (VResp dotResp_Value)]"
  let ?dr = "dotResp_Value\<lparr>dr_status := 201\<rparr>"
  have run: "Execute toy_host (get_request ''/'') to_buffer working_tmpl ?dv ('''', snd (bufPool_Get toy_running))
     = (None, ?dv[3 := Some (VResp ?dr)], ''part'', toy_running\<lparr>w_bufs := [], w_txs := [(dotDB_Value background)\<lparr>db_tx := Some [''old'', ''insert'']\<rparr>]\<rparr>)"
    unfolding toy_buffer by (simp add: toy_defs numeral_2_eq_2 numeral_3_eq_3)
  have c: "all_calls ordinary working_tmpl" by (simp add: working_tmpl_def)
  have u: "untouched (w_rw toy_world)" by (simp add: toy_world_def)
  have s: "cleanups_succeed (ho_env toy_host) [toy_db]"
    by (auto simp: cleanups_succeed_def provider_step_def toy_db_def db_Cleanup_def bad_assertion_def toy_host_def toy_env_def
        dotDB_Cleanup_def commit_def log_db_def errors_Join_pair split: val.splits option.splits)
  have h: "distinct (db_handles [toy_db])" "length (db_handles [toy_db]) = 1" "db_handles [toy_db] ! 0 = 0"
    by (simp_all add: db_handles_def toy_db_def)
  have dr: "?dv[3 := Some (VResp ?dr)] ! (length [toy_db] + 2) = Some (VResp ?dr)" "200 \<le> dr_status ?dr" "dr_status ?dr \<le> 999"
    "bodyAllowedForStatus (dr_status ?dr)" "declared_length (maps_Copy (rw_header (w_rw toy_world)) (dr_header ?dr)) = None"
    by (simp_all add: bodyAllowedForStatus_def in_range_def declared_length_def header_defs toy_world_def new_response_def
        dotResp_Value_def ParseInt_def numeral_3_eq_3)
  have "w_dbs toy_world = [[''old'']]" "w_txs toy_world = []" by (simp_all add: toy_world_def)
  with successful_template_answers [OF toy_buffer_dot toy_drivers c u toy_value run _ s h(1) dr] h(2,3) show ?thesis
    by (auto simp: final_status_def view_def)
qed

definition sse_request :: request where
  "sse_request = (get_request ''/'')\<lparr>r_header := [''Accept'' \<mapsto> [''text/event-stream'']]\<rparr>"

definition sse_dot :: "string list wdot" where
  "sse_dot = \<lparr>d_dps = [dotX, dotReq, dotFlush], d_cleanups = cleanups_from 0 [dotX, dotReq, dotFlush],
     d_types = [TX, TReq, TFlush], d_pool = []\<rparr>"

definition sse_tmpl :: tmpl where
  "sse_tmpl = Text ''event'' (Fail (ErrMsg ''boom''))"

lemma flushing_template_errors_witness:
  "(\<exists>rw. flushingTemplateHandler toy_host 0 sse_dot sse_tmpl True (get_request ''/'') toy_world = Inr (sse_dot, toy_world\<lparr>w_rw := rw\<rparr>)
      \<and> final_status rw = 406)
   \<and> (\<exists>d' w'. flushingTemplateHandler toy_host 0 sse_dot sse_tmpl True sse_request toy_world = Inr (d', w')
      \<and> final_status (w_rw w') = 200 \<and> rw_body (w_rw w') = ''event'' @ ''internal server error'' @ [newline])"
proof -
  have u: "untouched (w_rw toy_world)" by (simp add: toy_world_def)
  have no: "Header_Get (r_header (get_request ''/'')) ''Accept'' \<noteq> ''text/event-stream''" by code_simp
  have sse: "Header_Get (r_header sse_request) ''Accept'' = ''text/event-stream''" by code_simp
  let ?h = "rw_header (sse_headers new_response)"
  let ?w1 = "toy_world\<lparr>w_rw := sse_headers (w_rw toy_world)\<rparr>"
  let ?dv = "[Some VX, Some (VReq sse_request), Some (VFlush (server_ctx toy_world 0) background)]"
  have v: "dot_value type_of \<lparr>q_sctx = server_ctx toy_world 0, q_flusher = True, q_r = sse_request\<rparr> sse_dot ?w1 = Inr (Inr ?dv, sse_dot, ?w1)"
    by (simp add: dot_value_def sse_dot_def pool_Get_def SetZero_def dotX_def dotReq_def dotFlush_def dotFlush_Value_def sse_request_def get_request_def)
  let ?w2 = "?w1\<lparr>w_rw := Write ''event'' (w_rw ?w1)\<rparr>" and ?e = "Wrapf ''template'' (ErrMsg ''boom'')"
  have run: "Execute toy_host sse_request to_response sse_tmpl ?dv ('''', ?w1) = (Some ?e, ?dv, '''', ?w2)"
    by (simp add: sse_tmpl_def to_response_def)
  have c: "dot_cleanup ?dv (Some ?e) sse_dot ?w2 = Inr (Some ?e, sse_dot\<lparr>d_pool := [[None, None, None]]\<rparr>, ?w2)"
    by (simp add: dot_cleanup_def sse_dot_def dotX_def dotReq_def dotFlush_def flush_Cleanup_def dotFlush_Cleanup_def pool_Put_def
        SetZero_def is_return_def kind_return_def numeral_2_eq_2)
  have nolen: "declared_length ?h = None" by code_simp
  have start: "rw_sent (sse_headers new_response) = None" "rw_body (sse_headers new_response) = ''''"
    by (simp_all add: sse_headers_def new_response_def Let_def)
  have ok: "decide_ok (sse_headers new_response) = (sse_headers new_response)\<lparr>rw_sent := Some (200, ?h), rw_limit := None,
      rw_header := Header_Del ?h ''Content-Length''\<rparr>"
    using start(1) nolen by (simp add: decide_ok_def WriteHeader_final)
  have s: "rw_sent (w_rw ?w2) = Some (200, ?h)" "streaming (w_rw ?w2)" "rw_body (w_rw ?w2) = ''event''"
    using start by (simp_all add: toy_world_def Write_def ok streaming_def Let_def bodyAllowedForStatus_def in_range_def)
  from flushing_template_errors [OF u, where r = "get_request ''/''" and ho = toy_host and sctx = 0 and d = sse_dot
      and t = sse_tmpl and flusher = True] no
  have 1: "\<exists>rw. flushingTemplateHandler toy_host 0 sse_dot sse_tmpl True (get_request ''/'') toy_world = Inr (sse_dot, toy_world\<lparr>w_rw := rw\<rparr>)
      \<and> final_status rw = 406" by blast
  from flushing_template_errors [OF u, where r = sse_request and ho = toy_host and sctx = 0 and d = sse_dot
      and t = sse_tmpl and flusher = True] sse v run c s
  have "\<exists>rw. flushingTemplateHandler toy_host 0 sse_dot sse_tmpl True sse_request toy_world
        = Inr (sse_dot\<lparr>d_pool := [[None, None, None]]\<rparr>, ?w2\<lparr>w_rw := rw\<rparr>)
      \<and> final_status rw = 200 \<and> rw_body rw = ''event'' @ ''internal server error'' @ [newline]" by metis
  with 1 show ?thesis by auto
qed

end
