(* ===== verification/Instance.thy ===== *)
theory Instance
  imports Handlers
begin

text \<open>
  An instance (\<^verbatim>\<open>instance.go\<close>): how \<^verbatim>\<open>Config.Instance\<close> builds it from a config and how \<^verbatim>\<open>ServeHTTP\<close> answers a request. \<open>build_env\<close> is
  what building needs from outside: the codecs and the minifier, the parser (for given delimiters and functions), the
  directory trees behind the file systems, the functions of sprig, and the NATS client.
\<close>

text \<open>The parameters of a function, whether it takes more, and its results.\<close>

type_synonym signature = "nat \<times> bool \<times> nat"

record build_env =
  be_codecs :: codecs
  be_minify :: "string \<Rightarrow> string \<Rightarrow> string \<Rightarrow> string result"
  be_parse :: "string \<Rightarrow> string \<Rightarrow> funcMap \<Rightarrow> (string \<times> signature) list \<Rightarrow> string \<Rightarrow> string \<Rightarrow> (string \<times> tmpl) list result"
  be_tree :: "nat \<Rightarrow> tree"
  be_sprig :: funcMap

  be_nats :: nats

record 'd Instance =
  i_config :: "'d Config"
  i_id :: int
  i_built :: "tmpl builder"
  i_funcs :: funcMap
  i_providers :: "'d provider list"
  i_bufferDot :: "'d wdot"
  i_flusherDot :: "'d wdot"

section \<open>Config.Instance\<close>

text \<open>The functions of the program have the first numbers, in the order of the table.\<close>

definition xtemplateFuncs :: funcMap where
  "xtemplateFuncs = map_of (zip [''sanitizeHtml'', ''markdown'', ''splitFrontMatter'', ''return'', ''failf'', ''humanize'', ''trustHtml'',
     ''trustAttr'', ''trustJS'', ''trustJSStr'', ''trustSrcSet'', ''idx'', ''try''] [0..<13])"

text \<open>The signatures of the functions of \<^verbatim>\<open>text/template\<close>, which the parser counts the arguments with.\<close>

definition buliltinsSkeleton :: "(string \<times> signature) list" where
  "buliltinsSkeleton =
     [(''and'', (1, True, 1)), (''call'', (1, True, 2)), (''html'', (0, True, 1)), (''index'', (1, True, 2)), (''slice'', (1, True, 2)),
      (''js'', (0, True, 1)), (''len'', (1, False, 2)), (''not'', (1, False, 1)), (''or'', (1, True, 1)), (''print'', (0, True, 1)),
      (''printf'', (1, True, 1)), (''println'', (0, True, 1)), (''urlquery'', (0, True, 1)), (''eq'', (1, True, 2)), (''ge'', (1, True, 2)),
      (''gt'', (1, True, 2)), (''le'', (1, True, 2)), (''lt'', (1, True, 2)), (''ne'', (1, True, 2))]"

definition instance_funcs :: "build_env \<Rightarrow> funcMap list \<Rightarrow> funcMap" where
  "instance_funcs be extra = foldl maps_Copy (maps_Copy (maps_Copy Map.empty xtemplateFuncs) (be_sprig be)) extra"

text \<open>A function of the last map that has the name is taken, then one of sprig, then the program's own.\<close>

lemma instance_funcs_precedence:
  "instance_funcs be extra name =
     (case find (\<lambda>m. m name \<noteq> None) (rev extra) of
        Some m \<Rightarrow> m name
      | None \<Rightarrow> (case be_sprig be name of Some f \<Rightarrow> Some f | None \<Rightarrow> xtemplateFuncs name))"
  unfolding instance_funcs_def
  by (induction extra rule: rev_induct) (auto simp: maps_Copy_def map_add_def split: option.splits)

text \<open>
  \<open>minify\<close> is \<^verbatim>\<open>config.Minify\<close> of the config the method was called on, which the options do not change.
\<close>

definition instance_loader :: "build_env \<Rightarrow> unicode \<Rightarrow> 'd Config \<Rightarrow> bool \<Rightarrow> tmpl loader" where
  "instance_loader be uni c minify =
     \<lparr>ld_uni = uni, ld_codecs = be_codecs be, ld_extension = TemplateExtension c,
      ld_minify = (if minify then Some (be_minify be (LDelim c) (RDelim c)) else None),
      ld_parse = be_parse be (LDelim c) (RDelim c) (instance_funcs be (FuncMaps c)) buliltinsSkeleton\<rparr>"

text \<open>The names of the providers are counted; a name used twice is an error. (Go's order of the map decides which is named.)\<close>

definition duplicate_name :: "'d provider list \<Rightarrow> gerror option" where
  "duplicate_name ps =
     (let names = map provider_name ps in
      case find (\<lambda>n. 1 < count_list names n) names of
        None \<Rightarrow> None
      | Some n \<Rightarrow> Some (ErrMsg (''dot field name '' @ single_quoted n @ '' is used '' @ Itoa (int (count_list names n)) @ '' times'')))"

text \<open>The handle behind a field: the fields start with \<^verbatim>\<open>.X\<close> and \<^verbatim>\<open>.Req\<close>.\<close>

fun provider_handle :: "'d provider \<Rightarrow> nat" where
  "provider_handle (PDB d) = the (dbc_DB d)"
| "provider_handle (PDir d) = the (dic_FS d)"
| "provider_handle _ = 0"

definition instance_host :: "'d env \<Rightarrow> 'd provider list \<Rightarrow> tmpl builder \<Rightarrow> 'd host" where
  "instance_host env ps b =
     \<lparr>ho_env = env,
      ho_handle = (\<lambda>i. if 2 \<le> i \<and> i - 2 < length ps then provider_handle (ps ! (i - 2)) else 0),
      ho_files = (\<lambda>p. map_option (\<lambda>addr. fi_hash (b_heap b ! addr)) (map_of (b_files b) p))\<rparr>"

definition mock_request :: request where
  "mock_request = \<lparr>r_method = ''GET'', r_host = ''example.com'', r_path = ''/'', r_escaped = ''/'', r_query = [],
     r_header = (\<lambda>_. None), r_ctx = background\<rparr>"

text \<open>\<^verbatim>\<open>Templates()\<close> ranges over a map.\<close>

definition Templates :: "(string \<Rightarrow> nat) \<Rightarrow> (string \<times> tmpl) list \<Rightarrow> (string \<times> tmpl) list" where
  "Templates rank ts = sort_key (rank \<circ> fst) ts"

text \<open>The templates whose name starts with \<^verbatim>\<open>INIT\<close> run once, each with a recorder for a response.\<close>

fun run_inits ::
  "'d host \<Rightarrow> nat \<Rightarrow> (string \<times> tmpl) list \<Rightarrow> 'd wdot \<Rightarrow> int \<Rightarrow> 'd world \<Rightarrow> ((gerror + int) \<times> 'd wdot \<times> 'd world) panics" where
  "run_inits ho c [] d n w = Inr (Inr n, d, w)"
| "run_inits ho c ((name, t) # ts) d n w =
     (if \<not> HasPrefix name ''INIT '' then run_inits ho c ts d n w
      else let w0 = w\<lparr>w_rw := new_response\<rparr> in
        case dot_value type_of \<lparr>q_sctx = server_ctx w0 c, q_flusher = True, q_r = mock_request\<rparr> d w0 of
          Inl p \<Rightarrow> Inl p
        | Inr (Inl e, d1, w1) \<Rightarrow> Inr (Inl (Wrapf ''failed to initialize dot value'' e), d1, w1)
        | Inr (Inr dv, d1, w1) \<Rightarrow>
            (case Execute ho mock_request to_buffer t dv ('''', w1) of
               (err, dv', _, w2) \<Rightarrow>
                 (case dot_cleanup dv' err d1 w2 of
                    Inl p \<Rightarrow> Inl p
                  | Inr (Some e, d2, w3) \<Rightarrow>
                      Inr (Inl (Wrapf (''template initializer '' @ single_quoted name @ '' failed'') e), d2, w3)
                  | Inr (None, d2, w3) \<Rightarrow> run_inits ho c ts d2 (n + 1) w3)))"

definition dot_providers :: "'d env \<Rightarrow> 'd provider list \<Rightarrow> ('d world, val) dotConfig \<Rightarrow> ('d world, val) dotConfig list" where
  "dot_providers env ps l = [dotX, dotReq] @ map (provider_dot env) ps @ [l]"

text \<open>The second half of the method, from the providers on.\<close>

definition finish_instance ::
  "'d env \<Rightarrow> nats \<Rightarrow> 'd Config \<Rightarrow> int \<Rightarrow> funcMap \<Rightarrow> tmpl builder \<Rightarrow> 'd world \<Rightarrow> ((gerror + 'd Instance) \<times> 'd world) panics" where
  "finish_instance env na c ident funcs b w =
     (case duplicate_name (config_providers c) of
        Some e \<Rightarrow> Inr (Inl e, w)
      | None \<Rightarrow>
          (case init_providers env na (the (Ctx c)) (config_providers c) w of
             (Inl e, w1) \<Rightarrow> Inr (Inl e, w1)
           | (Inr ps, w1) \<Rightarrow>
               (case makeDot (e_uni env) type_of mock_request (dot_providers env ps dotResp) w1 of
                  Inl p \<Rightarrow> Inl p
                | Inr (bufferDot, w2) \<Rightarrow>
                    (case makeDot (e_uni env) type_of mock_request (dot_providers env ps dotFlush) w2 of
                       Inl p \<Rightarrow> Inl p
                     | Inr (flusherDot, w3) \<Rightarrow>
                         (case run_inits (instance_host env ps b) (the (Ctx c)) (Templates (e_rank env) (b_templates b)) bufferDot 0 w3 of
                            Inl p \<Rightarrow> Inl p
                          | Inr (Inl e, _, w4) \<Rightarrow> Inr (Inl e, w4)
                          | Inr (Inr n, bufferDot', w4) \<Rightarrow>
                              Inr (Inr \<lparr>i_config = c, i_id = ident,
                                     i_built = b\<lparr>b_stats := (b_stats b)\<lparr>TemplateInitializers := n\<rparr>\<rparr>, i_funcs = funcs,
                                     i_providers = ps, i_bufferDot = bufferDot', i_flusherDot = flusherDot\<rparr>, w4))))))"

text \<open>The logger of the instance names it; without a file system the templates come from the directory.\<close>

definition resolve_config :: "'d env \<Rightarrow> int \<Rightarrow> 'd Config \<Rightarrow> 'd Config" where
  "resolve_config env ident c =
     c\<lparr>Logger := map_option (\<lambda>l. l @ '' instance='' @ Itoa ident) (Logger c),
       TemplatesFS := Some (case TemplatesFS c of Some f \<Rightarrow> f | None \<Rightarrow> e_dirFS env (TemplatesDir c))\<rparr>"

text \<open>\<open>counter\<close> is \<^verbatim>\<open>nextInstanceIdentity\<close>; every call takes a number from it, whatever comes of the call.\<close>

definition Config_Instance ::
  "'d env \<Rightarrow> build_env \<Rightarrow> nat \<Rightarrow> 'd option_fun list \<Rightarrow> 'd Config \<Rightarrow> int \<Rightarrow> 'd world
   \<Rightarrow> ((gerror + 'd Instance) \<times> 'd world) panics \<times> int" where
  "Config_Instance env be bg opts config counter w =
     (let config = Defaults bg config; ident = wrap64 (counter + 1) in
      (case Options opts config of
         (Some e, _) \<Rightarrow> Inr (Inl e, w)
       | (None, c0) \<Rightarrow>
           (let c = resolve_config env ident c0 in
            case load_files (instance_loader be (e_uni env) c (Minify config)) (be_tree be (the (TemplatesFS c))) of
              Inl e \<Rightarrow> Inr (Inl e, w)
            | Inr b \<Rightarrow> finish_instance env (be_nats be) c ident (instance_funcs be (FuncMaps c)) b w),
       ident))"

section \<open>ServeHTTP\<close>

definition GetRequestId :: "ctx \<Rightarrow> string" where
  "GetRequestId c =
     (case ctx_Value c KRequestId of
        Some (CStr v) \<Rightarrow> v
      | _ \<Rightarrow>
          (case ctx_Value c (KString ''vars'') of
             Some (CMap m) \<Rightarrow> (case map_of m ''uuid'' of Some (CStr rid) \<Rightarrow> rid | _ \<Rightarrow> '''')
           | _ \<Rightarrow> ''''))"

definition GetLogger :: "ctx \<Rightarrow> string" where
  "GetLogger c = (case ctx_Value c KLogger of Some (CLogger l) \<Rightarrow> l | _ \<Rightarrow> ''default'')"

text \<open>
  \<open>uuid\<close> is what \<^verbatim>\<open>uuid.NewString\<close> gives for this request. The argument \<open>other\<close> is how \<^verbatim>\<open>http.ServeMux\<close> answers when it does not call
  a handler: with a redirection, 405 or 404; \<open>pf\<close> is \<^verbatim>\<open>strconv.ParseFloat\<close>.
\<close>

definition serve_context :: "string \<Rightarrow> string \<Rightarrow> ctx \<Rightarrow> ctx" where
  "serve_context uuid logger ctx =
     (let rid0 = GetRequestId ctx;
          (rid, ctx) = (if rid0 = '''' then (uuid, WithValue ctx KRequestId (CStr uuid)) else (rid0, ctx))
      in WithValue ctx KLogger (CLogger (logger @ '' serve.requestid='' @ rid)))"

definition serve_route ::
  "'d env \<Rightarrow> (string \<Rightarrow> f64 option) \<Rightarrow> bool \<Rightarrow> 'd Instance \<Rightarrow> tmpl handler \<Rightarrow> request \<Rightarrow> 'd world
   \<Rightarrow> ('d Instance \<times> 'd world) panics" where
  "serve_route env pf flusher inst h r w =
     (let ho = instance_host env (i_providers inst) (i_built inst); c = the (Ctx (i_config inst)) in
      case h of
        HStatic addr \<Rightarrow>
          (case staticFileHandler pf (e_serve env) (e_fs env (the (TemplatesFS (i_config inst)))) (b_heap (i_built inst) ! addr)
                  r (w_rw w) (w_handles w) of
             (rw, hs) \<Rightarrow> map_sum id (\<lambda>rw. (inst, w\<lparr>w_rw := rw, w_handles := hs\<rparr>)) rw)
      | HBuffer t \<Rightarrow>
          map_sum id (\<lambda>(d, w). (inst\<lparr>i_bufferDot := d\<rparr>, w)) (bufferingTemplateHandler ho c (i_bufferDot inst) t flusher r w)
      | HFlush t \<Rightarrow>
          map_sum id (\<lambda>(d, w). (inst\<lparr>i_flusherDot := d\<rparr>, w)) (flushingTemplateHandler ho c (i_flusherDot inst) t flusher r w))"

definition Instance_ServeHTTP ::
  "'d env \<Rightarrow> (string \<Rightarrow> f64 option) \<Rightarrow> (tmpl handler mux_answer \<Rightarrow> request \<Rightarrow> respWriter \<Rightarrow> respWriter panics)
   \<Rightarrow> string \<Rightarrow> bool \<Rightarrow> 'd Instance \<Rightarrow> request \<Rightarrow> 'd world \<Rightarrow> ('d Instance \<times> 'd world) panics" where
  "Instance_ServeHTTP env pf other uuid flusher inst r w =
     (if is_done w (the (Ctx (i_config inst))) then
        map_sum id (Pair inst) (with_response (http_Error ''server stopped'' 500 (w_rw w)) w)
      else
        let r = r\<lparr>r_ctx := serve_context uuid (case Logger (i_config inst) of Some l \<Rightarrow> l | None \<Rightarrow> '''') (r_ctx r)\<rparr> in
        case findHandler (b_mux (i_built inst)) r of
          Found p h \<Rightarrow> serve_route env pf flusher inst h r w
        | answer \<Rightarrow> map_sum id (Pair inst) (with_response (other answer r (w_rw w)) w))"

section \<open>What building guarantees\<close>

text \<open>A provider that answers every request, the mock one of \<^verbatim>\<open>makeDot\<close> too, with a value of one type.\<close>

definition gives :: "('d world, val) dotConfig \<Rightarrow> vtype \<Rightarrow> bool" where
  "gives dp t \<longleftrightarrow> (\<forall>q s. \<exists>a. fst (fst (Value dp q s)) = Some a \<and> type_of a = t)"

lemma field_types_gives:
  "list_all2 gives dps ts \<Longrightarrow> field_types type_of q dps s = Inr (ts', s') \<Longrightarrow> ts' = ts"
proof (induction dps arbitrary: s ts ts')
  case (Cons dp dps)
  then obtain t ts1 where ts: "ts = t # ts1" "gives dp t" "list_all2 gives dps ts1" by (auto simp: list_all2_Cons1)
  obtain a e s1 where v: "Value dp q s = ((Some a, e), s1)" "type_of a = t" using ts(2) unfolding gives_def by (metis prod.collapse)
  with Cons.prems(2) obtain ts2 where "field_types type_of q dps s1 = Inr (ts2, s')" "ts' = t # ts2" by (auto split: sum.splits)
  with Cons.IH ts show ?case by blast
qed simp

text \<open>The providers of a dot and the types of its fields.\<close>

definition dot_inv :: "'d env \<Rightarrow> 'd provider list \<Rightarrow> ('d world, val) dotConfig \<Rightarrow> 'd wdot \<Rightarrow> bool" where
  "dot_inv env ps l d \<longleftrightarrow> dot_wf d \<and> d_dps d = dot_providers env ps l \<and> (\<forall>ts. list_all2 gives (d_dps d) ts \<longrightarrow> d_types d = ts)"

lemma makeDot_inv:
  assumes "makeDot uni type_of r (dot_providers env ps l) w = Inr (d, w')"
  shows "dot_inv env ps l d \<and> distinct (map FieldName (dot_providers env ps l))"
proof -
  have "dot_wf d \<and> d_dps d = dot_providers env ps l \<and> distinct (map FieldName (dot_providers env ps l))"
    using makeDot_cases [where uni = uni and tyof = type_of and mock = r and dps = "dot_providers env ps l" and s = w] assms by simp
  moreover have "field_types type_of \<lparr>q_sctx = background, q_flusher = False, q_r = r\<rparr> (dot_providers env ps l) w = Inr (d_types d, w')"
    using assms by (auto simp: makeDot_def split: sum.splits)
  ultimately show ?thesis using field_types_gives unfolding dot_inv_def by metis
qed

lemma provider_dot_name: "FieldName (provider_dot env p) = provider_name p"
  by (cases p) simp_all

lemma dot_value_inv:
  assumes "dot_inv env ps l d" and "dot_value type_of q d w = Inr (res, d1, w1)"
  shows "dot_inv env ps l d1"
  using dot_value_ask [of d type_of q w] assms by (simp add: dot_inv_def)

lemma dot_value_length:
  assumes "dot_inv env ps l d" and "dot_value type_of q d w = Inr (Inr dv, d1, w1)"
  shows "length dv = length (d_dps d1)"
proof -
  obtain as where "dv = map Some as" "ask_all type_of (d_types d) q (d_dps d) w = Inr (Inr as, w1)" "d_dps d1 = d_dps d"
    using dot_value_ask [of d type_of q w] assms by (auto simp: dot_inv_def)
  with ask_all_length show ?thesis by fastforce
qed

lemma dot_cleanup_inv:
  assumes "dot_inv env ps l d" and "length v = length (d_dps d)" and "dot_cleanup v err d w = Inr (err', d', w')"
  shows "dot_inv env ps l d'"
proof -
  have "d' = pool_Put (SetZero v) d" using assms(3) by (auto simp: dot_cleanup_def split: sum.splits)
  moreover have "dot_wf (pool_Put (SetZero v) d)" using assms by (intro pool_Put_wf) (simp_all add: dot_inv_def SetZero_def)
  ultimately show ?thesis using assms(1) by (simp add: dot_inv_def pool_Put_def)
qed

text \<open>Initialisers that all succeed are all counted, in whatever order the map gives them.\<close>

definition initializers :: "(string \<times> tmpl) list \<Rightarrow> int" where
  "initializers ts = int (length (filter (\<lambda>(name, _). HasPrefix name ''INIT '') ts))"

lemma initializers_Templates: "initializers (Templates rank ts) = initializers ts"
  by (simp add: initializers_def Templates_def filter_sort)

lemma run_inits_count: "run_inits ho c ts d n w = Inr (Inr k, d', w') \<Longrightarrow> k = n + initializers ts"
proof (induction ts arbitrary: d n w)
  case (Cons x ts)
  obtain name t where x: "x = (name, t)" by force
  show ?case
  proof (cases "HasPrefix name ''INIT ''")
    case True
    with Cons.prems obtain d2 w3 where "run_inits ho c ts d2 (n + 1) w3 = Inr (Inr k, d', w')"
      by (auto simp: x Let_def split: sum.splits prod.splits option.splits)
    from Cons.IH [OF this] True show ?thesis by (simp add: x initializers_def)
  qed (use Cons in \<open>simp add: x initializers_def\<close>)
qed (simp add: initializers_def)

lemma run_inits_inv:
  "dot_inv env ps l d \<Longrightarrow> run_inits ho c ts d n w = Inr (res, d', w') \<Longrightarrow> dot_inv env ps l d'"
proof (induction ts arbitrary: d n w)
  case (Cons x ts)
  obtain name t where x: "x = (name, t)" by force
  let ?w0 = "w\<lparr>w_rw := new_response\<rparr>"
  let ?q = "\<lparr>q_sctx = server_ctx ?w0 c, q_flusher = True, q_r = mock_request\<rparr>"
  show ?case
  proof (cases "HasPrefix name ''INIT ''")
    case False
    with Cons.prems(2) have "run_inits ho c ts d n w = Inr (res, d', w')" by (simp add: x)
    with Cons show ?thesis by blast
  next
    case True
    obtain v d1 w1 where v: "dot_value type_of ?q d ?w0 = Inr (v, d1, w1)"
      using Cons.prems(2) True by (cases "dot_value type_of ?q d ?w0") (auto simp: x Let_def)
    have inv1: "dot_inv env ps l d1" by (rule dot_value_inv [OF Cons.prems(1) v])
    show ?thesis
    proof (cases v)
      case (Inl e)
      with Cons.prems(2) True v inv1 show ?thesis by (simp add: x Let_def)
    next
      case (Inr dv)
      obtain err dv' b w2 where run: "Execute ho mock_request to_buffer t dv ('''', w1) = (err, dv', b, w2)" by (metis prod_cases4)
      have "length dv' = length dv"
        using Execute_same_dot [OF _ run] by (auto simp: same_dot_def dest: list_all2_lengthD)
      then have len: "length dv' = length (d_dps d1)" using dot_value_length [OF Cons.prems(1)] v Inr by simp
      obtain err' d2 w3 where cl: "dot_cleanup dv' err d1 w2 = Inr (err', d2, w3)"
        using Cons.prems(2) True v Inr run by (cases "dot_cleanup dv' err d1 w2") (auto simp: x Let_def)
      have inv2: "dot_inv env ps l d2" by (rule dot_cleanup_inv [OF inv1 len cl])
      show ?thesis
      proof (cases err')
        case None
        with Cons.prems(2) True v Inr run cl have "run_inits ho c ts d2 (n + 1) w3 = Inr (res, d', w')" by (simp add: x Let_def)
        then show ?thesis by (rule Cons.IH [OF inv2])
      next
        case (Some e)
        with Cons.prems(2) True v Inr run cl inv2 show ?thesis by (simp add: x Let_def)
      qed
    qed
  qed
qed simp

text \<open>\<^verbatim>\<open>Init\<close> keeps the name and the kind of a provider, and gives a database or a directory what it needs.\<close>

fun provider_ready :: "'d provider \<Rightarrow> bool" where
  "provider_ready (PDB d) \<longleftrightarrow> dbc_DB d \<noteq> None"
| "provider_ready (PDir d) \<longleftrightarrow> dic_FS d \<noteq> None"
| "provider_ready (PNats d) \<longleftrightarrow> nc_Conn d \<noteq> None \<and> nc_js d \<noteq> None"
| "provider_ready _ \<longleftrightarrow> True"

lemma provider_Init_ready:
  assumes "provider_Init env na c p w = (None, p', w')"
  shows "provider_ready p' \<and> provider_name p' = provider_name p \<and> (provider_ok p \<longrightarrow> provider_ok p')"
proof (cases p)
  case (PNats d)
  then obtain d' where d': "p' = PNats d'" "DotNatsConfig_Init na c d w = (None, d', w')" using assms by (auto split: prod.splits)
  have "nc_Conn d' \<noteq> None \<and> nc_js d' \<noteq> None \<and> nc_Name d' = nc_Name d"
    using d'(2) by (auto simp: DotNatsConfig_Init_def set_js_def result_pair_def Let_def split: option.splits sum.splits prod.splits if_splits)
  then show ?thesis by (simp add: PNats d'(1))
qed (use assms in \<open>auto simp: DotDBConfig_Init_def DotDirConfig_Init_def Let_def split: prod.splits if_splits sum.splits option.splits\<close>)

lemma init_providers_ready:
  "init_providers env na c ps w = (Inr ps', w') \<Longrightarrow>
   list_all2 (\<lambda>p p'. provider_ready p' \<and> provider_name p' = provider_name p \<and> (provider_ok p \<longrightarrow> provider_ok p')) ps ps'"
proof (induction ps arbitrary: w ps')
  case (Cons p ps)
  then obtain p' ps'' w1 where i: "provider_Init env na c p w = (None, p', w1)"
    and rest: "init_providers env na c ps w1 = (Inr ps'', w')" and ps': "ps' = p' # ps''"
    by (auto split: prod.splits option.splits sum.splits)
  from provider_Init_ready [OF i] Cons.IH [OF rest] show ?case unfolding ps' by simp
qed simp

lemma finish_instance_ok:
  assumes "finish_instance env na c ident funcs b w = Inr (Inr inst, w')"
  obtains ps w1 n where "init_providers env na (the (Ctx c)) (config_providers c) w = (Inr ps, w1)"
    and "i_providers inst = ps" and "i_config inst = c" and "i_id inst = ident" and "i_funcs inst = funcs"
    and "i_built inst = b\<lparr>b_stats := (b_stats b)\<lparr>TemplateInitializers := n\<rparr>\<rparr>" and "n = initializers (b_templates b)"
    and "dot_inv env ps dotResp (i_bufferDot inst)" and "dot_inv env ps dotFlush (i_flusherDot inst)"
    and "distinct (map FieldName (dot_providers env ps dotResp))" and "distinct (map FieldName (dot_providers env ps dotFlush))"
proof -
  have nodup: "duplicate_name (config_providers c) = None"
    using assms by (cases "duplicate_name (config_providers c)") (simp_all add: finish_instance_def)
  obtain res w1 where i0: "init_providers env na (the (Ctx c)) (config_providers c) w = (res, w1)" by force
  obtain ps where i: "init_providers env na (the (Ctx c)) (config_providers c) w = (Inr ps, w1)"
    using assms nodup i0 by (cases res) (simp_all add: finish_instance_def)
  let ?m1 = "makeDot (e_uni env) type_of mock_request (dot_providers env ps dotResp) w1"
  obtain bd w2 where m1: "?m1 = Inr (bd, w2)" using assms nodup i by (cases ?m1) (auto simp: finish_instance_def)
  let ?m2 = "makeDot (e_uni env) type_of mock_request (dot_providers env ps dotFlush) w2"
  obtain fd w3 where m2: "?m2 = Inr (fd, w3)" using assms nodup i m1 by (cases ?m2) (auto simp: finish_instance_def)
  let ?r = "run_inits (instance_host env ps b) (the (Ctx c)) (Templates (e_rank env) (b_templates b)) bd 0 w3"
  obtain res' bd' w4 where r0: "?r = Inr (res', bd', w4)"
    using assms nodup i m1 m2 by (cases ?r) (auto simp: finish_instance_def)
  obtain n where r: "?r = Inr (Inr n, bd', w')"
    and inst: "inst = \<lparr>i_config = c, i_id = ident, i_built = b\<lparr>b_stats := (b_stats b)\<lparr>TemplateInitializers := n\<rparr>\<rparr>,
       i_funcs = funcs, i_providers = ps, i_bufferDot = bd', i_flusherDot = fd\<rparr>"
    using assms nodup i m1 m2 r0 by (cases res') (auto simp: finish_instance_def)
  note d1 = makeDot_inv [OF m1] and d2 = makeDot_inv [OF m2]
  have bd': "dot_inv env ps dotResp bd'" using run_inits_inv [OF _ r] d1 by blast
  have n: "n = initializers (b_templates b)" using run_inits_count [OF r] by (simp add: initializers_Templates)
  show ?thesis by (rule that [OF i]) (simp_all add: inst bd' d1 d2 n)
qed

lemma init_providers_names:
  assumes "init_providers env na c ps w = (Inr ps', w')"
  shows "map provider_name ps' = map provider_name ps"
proof -
  have "list_all2 (\<lambda>p p'. provider_name p' = provider_name p) ps ps'"
    using init_providers_ready [OF assms] by (rule list_all2_mono) blast
  then show ?thesis by (induction rule: list_all2_induct) auto
qed

lemma dot_names:
  "map FieldName (dot_providers env ps dotResp) = [''X'', ''Req''] @ map provider_name ps @ [''Resp'']"
  "map FieldName (dot_providers env ps dotFlush) = [''X'', ''Req''] @ map provider_name ps @ [''Flush'']"
  by (simp_all add: dot_providers_def dotX_def dotReq_def dotResp_def dotFlush_def provider_dot_name)

text \<open>The invariant of an instance. Every \<^verbatim>\<open>INIT\<close> template has run.\<close>

definition instance_inv :: "'d env \<Rightarrow> build_env \<Rightarrow> 'd Instance \<Rightarrow> bool" where
  "instance_inv env be inst \<longleftrightarrow>
     (let ps = i_providers inst; c = i_config inst in
      dot_inv env ps dotResp (i_bufferDot inst) \<and> dot_inv env ps dotFlush (i_flusherDot inst)
      \<and> distinct ([''X'', ''Req'', ''Resp'', ''Flush''] @ map provider_name ps)
      \<and> map provider_name ps = map provider_name (config_providers c) \<and> list_all provider_ready ps
      \<and> TemplatesFS c \<noteq> None \<and> TemplateInitializers (b_stats (i_built inst)) = initializers (b_templates (i_built inst))
      \<and> build_inv (e_uni env) (be_codecs be) (tree_open (be_tree be (the (TemplatesFS c)))) (i_built inst))"

lemma config_instance_ok:
  assumes "Config_Instance env be bg opts config counter w = (Inr (Inr inst, w'), n)"
  obtains c b where "Options opts (Defaults bg config) = (None, c)" and "n = wrap64 (counter + 1)"
    and "finish_instance env (be_nats be) (i_config inst) n (instance_funcs be (FuncMaps (i_config inst))) b w = Inr (Inr inst, w')"
    and "load_files (instance_loader be (e_uni env) (i_config inst) (Minify config)) (be_tree be (the (TemplatesFS (i_config inst)))) = Inr b"
    and "TemplatesFS (i_config inst) \<noteq> None"
proof -
  have n: "n = wrap64 (counter + 1)" using assms by (simp add: Config_Instance_def Let_def)
  obtain c where c: "Options opts (Defaults bg config) = (None, c)"
    using assms by (auto simp: Config_Instance_def Let_def split: prod.splits option.splits)
  define c' where "c' = resolve_config env n c"
  have m: "Minify (Defaults bg config) = Minify config" by (simp add: Defaults_def)
  have r: "(case load_files (instance_loader be (e_uni env) c' (Minify config)) (be_tree be (the (TemplatesFS c'))) of
      Inl e \<Rightarrow> Inr (Inl e, w)
    | Inr b \<Rightarrow> finish_instance env (be_nats be) c' n (instance_funcs be (FuncMaps c')) b w) = Inr (Inr inst, w')"
    using assms unfolding c'_def n by (simp add: Config_Instance_def Let_def c m)
  then obtain b where l: "load_files (instance_loader be (e_uni env) c' (Minify config)) (be_tree be (the (TemplatesFS c'))) = Inr b"
    and f: "finish_instance env (be_nats be) c' n (instance_funcs be (FuncMaps c')) b w = Inr (Inr inst, w')"
    by (auto split: sum.splits)
  have i: "i_config inst = c'" by (rule finish_instance_ok [OF f])
  have fs: "TemplatesFS c' \<noteq> None" by (simp add: c'_def resolve_config_def)
  show ?thesis by (rule that [OF c n]) (simp_all only: i f l fs not_False_eq_True)
qed

lemma build_inv_stats: "build_inv uni cd openf (b\<lparr>b_stats := (b_stats b)\<lparr>TemplateInitializers := n\<rparr>\<rparr>) = build_inv uni cd openf b"
  by (simp add: build_inv_def files_ok_def routes_ok_def stats_ok_def)

lemma instance_built:
  assumes "Config_Instance env be bg opts config counter w = (Inr (Inr inst, w'), n)"
    and "be_tree be (the (TemplatesFS (i_config inst))) = TDir ts" and "tree_ok (TDir ts)"
  shows "instance_inv env be inst"
proof -
  obtain b where f: "finish_instance env (be_nats be) (i_config inst) n (instance_funcs be (FuncMaps (i_config inst))) b w = Inr (Inr inst, w')"
    and l: "load_files (instance_loader be (e_uni env) (i_config inst) (Minify config)) (be_tree be (the (TemplatesFS (i_config inst)))) = Inr b"
    and fs: "TemplatesFS (i_config inst) \<noteq> None"
    by (rule config_instance_ok [OF assms(1)])
  obtain ps w1 k where i: "init_providers env (be_nats be) (the (Ctx (i_config inst))) (config_providers (i_config inst)) w = (Inr ps, w1)"
    and ps: "i_providers inst = ps" and built: "i_built inst = b\<lparr>b_stats := (b_stats b)\<lparr>TemplateInitializers := k\<rparr>\<rparr>"
    and k: "k = initializers (b_templates b)" and d: "dot_inv env ps dotResp (i_bufferDot inst)" "dot_inv env ps dotFlush (i_flusherDot inst)"
      "distinct (map FieldName (dot_providers env ps dotResp))" "distinct (map FieldName (dot_providers env ps dotFlush))"
    by (rule finish_instance_ok [OF f])
  have ready: "list_all2 (\<lambda>p p'. provider_ready p' \<and> provider_name p' = provider_name p \<and> (provider_ok p \<longrightarrow> provider_ok p'))
      (config_providers (i_config inst)) ps" by (rule init_providers_ready [OF i])
  have names: "map provider_name ps = map provider_name (config_providers (i_config inst))" "list_all provider_ready ps"
    using init_providers_names [OF i] ready by (auto simp: list_all2_conv_all_nth list_all_length)
  have dist: "distinct ([''X'', ''Req'', ''Resp'', ''Flush''] @ map provider_name ps)"
    using d(3,4) unfolding dot_names by auto
  have inv: "build_inv (e_uni env) (be_codecs be) (tree_open (TDir ts)) b"
    using load_files_inv [OF assms(3) l [unfolded assms(2)]] by (simp add: instance_loader_def del: walk.simps)
  have inits: "TemplateInitializers (b_stats (i_built inst)) = initializers (b_templates (i_built inst))" by (simp add: built k)
  show ?thesis
    unfolding instance_inv_def Let_def ps
    by (intro conjI d(1,2) dist names fs inits) (simp add: built build_inv_stats assms(2) inv)
qed

text \<open>C3. A config that loads gives an instance that satisfies its invariant: both dots are well formed and have exactly the
  configured providers between the built-in ones, in order, every one of them initialised and all names different; the
  routes, the files and the counters agree with the directory, and every \<^verbatim>\<open>INIT\<close> template has run and was counted. Its id is the next one.\<close>

theorem instance_invariant:
  assumes "Config_Instance env be bg opts config counter w = (Inr (Inr inst, w'), n)"
    and "be_tree be (the (TemplatesFS (i_config inst))) = TDir ts" and "tree_ok (TDir ts)"
  shows "instance_inv env be inst \<and> i_id inst = n \<and> n = wrap64 (counter + 1)"
proof -
  obtain b where n: "n = wrap64 (counter + 1)"
    and f: "finish_instance env (be_nats be) (i_config inst) n (instance_funcs be (FuncMaps (i_config inst))) b w = Inr (Inr inst, w')"
    by (rule config_instance_ok [OF assms(1)])
  have "i_id inst = n" by (rule finish_instance_ok [OF f])
  with n instance_built [OF assms] show ?thesis by blast
qed

lemma count_list_distinct: "distinct xs \<longleftrightarrow> (\<forall>x \<in> set xs. \<not> 1 < count_list xs x)"
proof (induction xs)
  case (Cons a xs)
  have "count_list xs a = 0 \<longleftrightarrow> a \<notin> set xs" by (simp add: count_list_0_iff)
  with Cons show ?case by (auto simp: not_less_eq split: if_splits)
qed simp

lemma duplicate_name_None: "duplicate_name ps = None \<longleftrightarrow> distinct (map provider_name ps)"
proof -
  let ?ns = "map provider_name ps"
  have "duplicate_name ps = None \<longleftrightarrow> find (\<lambda>n. 1 < count_list ?ns n) ?ns = None"
    by (simp add: duplicate_name_def Let_def split: option.split)
  also have "\<dots> \<longleftrightarrow> distinct ?ns" unfolding count_list_distinct find_None_iff by blast
  finally show ?thesis .
qed

text \<open>C40. Two configured providers with one name are an error that is returned; a configured provider with the name of a
  built-in one (\<^verbatim>\<open>X\<close>, \<^verbatim>\<open>Req\<close>, \<^verbatim>\<open>Resp\<close>, \<^verbatim>\<open>Flush\<close>) is not noticed by that check, and building the instance panics.\<close>

theorem provider_name_clashes:
  "(\<not> distinct (map provider_name (config_providers c)) \<longrightarrow> (\<exists>e. finish_instance env na c ident funcs b w = Inr (Inl e, w)))
   \<and> (distinct (map provider_name (config_providers c))
      \<and> init_providers env na (the (Ctx c)) (config_providers c) w = (Inr ps, w1)
      \<and> p \<in> set (config_providers c) \<and> provider_name p \<in> {''X'', ''Req'', ''Resp'', ''Flush''}
      \<longrightarrow> (\<exists>msg. finish_instance env na c ident funcs b w = Inl msg))"
proof (intro conjI impI)
  assume "\<not> distinct (map provider_name (config_providers c))"
  then show "\<exists>e. finish_instance env na c ident funcs b w = Inr (Inl e, w)"
    unfolding duplicate_name_None [symmetric] by (auto simp: finish_instance_def)
next
  assume a: "distinct (map provider_name (config_providers c))
      \<and> init_providers env na (the (Ctx c)) (config_providers c) w = (Inr ps, w1)
      \<and> p \<in> set (config_providers c) \<and> provider_name p \<in> {''X'', ''Req'', ''Resp'', ''Flush''}"
  have nodup: "duplicate_name (config_providers c) = None" using a by (simp add: duplicate_name_None)
  have i: "init_providers env na (the (Ctx c)) (config_providers c) w = (Inr ps, w1)" using a by blast
  have names: "map provider_name ps = map provider_name (config_providers c)" by (rule init_providers_names [OF i])
  have "provider_name p \<in> set (map provider_name ps)" unfolding names using a by simp
  then have clash: "\<not> distinct (map FieldName (dot_providers env ps dotResp)) \<or> \<not> distinct (map FieldName (dot_providers env ps dotFlush))"
    unfolding dot_names using a by auto
  show "\<exists>msg. finish_instance env na c ident funcs b w = Inl msg"
  proof (cases "makeDot (e_uni env) type_of mock_request (dot_providers env ps dotResp) w1")
    case (Inr x)
    obtain bd w2 where m1: "makeDot (e_uni env) type_of mock_request (dot_providers env ps dotResp) w1 = Inr (bd, w2)"
      using Inr by (cases x) auto
    have "\<not> distinct (map FieldName (dot_providers env ps dotFlush))" using makeDot_inv [OF m1] clash by blast
    then obtain msg where "makeDot (e_uni env) type_of mock_request (dot_providers env ps dotFlush) w2 = Inl msg"
      using makeDot_inv [of "e_uni env" mock_request env ps dotFlush w2]
      by (cases "makeDot (e_uni env) type_of mock_request (dot_providers env ps dotFlush) w2") auto
    with nodup i m1 show ?thesis by (simp add: finish_instance_def)
  qed (use nodup i in \<open>auto simp: finish_instance_def\<close>)
qed

section \<open>The types of the fields\<close>

text \<open>The type of a provider's field; a custom provider is asked to have one.\<close>

inductive provider_type :: "'d provider \<Rightarrow> vtype \<Rightarrow> bool" where
  "provider_type (PDB d) TDB"
| "provider_type (PFlags d) TFlags"
| "provider_type (PDir d) TDirT"
| "provider_type (PNats d) TNats"
| "gives (snd p) t \<Longrightarrow> provider_type (PCustom p) t"

lemma provider_type_gives: "provider_type p t \<Longrightarrow> gives (provider_dot env p) t"
  by (induction rule: provider_type.induct) (auto simp: gives_def db_Value_def dir_Value_def dotFS_Value_def)

lemma builtin_gives: "gives dotX TX" "gives dotReq TReq" "gives dotResp TResp" "gives dotFlush TFlush"
  by (simp_all add: gives_def dotX_def dotReq_def dotResp_def dotFlush_def dotFlush_Value_def)

lemma dot_providers_give:
  assumes "list_all2 provider_type ps ts" and "gives l t"
  shows "list_all2 gives (dot_providers env ps l) ([TX, TReq] @ ts @ [t])"
proof -
  have "list_all2 gives (map (provider_dot env) ps) ts"
    unfolding list_all2_map1 using assms(1) by (rule list_all2_mono) (rule provider_type_gives)
  then show ?thesis unfolding dot_providers_def by (intro list_all2_appendI) (simp_all add: builtin_gives assms(2))
qed

lemma ask_all_typed:
  "list_all2 gives dps ts \<Longrightarrow>
   case ask_all type_of ts q dps w of Inl p \<Rightarrow> False | Inr (Inl e, _) \<Rightarrow> True | Inr (Inr as, _) \<Rightarrow> map type_of as = ts"
proof (induction dps arbitrary: ts w)
  case (Cons dp dps)
  then obtain t ts1 where ts: "ts = t # ts1" "gives dp t" "list_all2 gives dps ts1" by (auto simp: list_all2_Cons1)
  obtain a e w1 where v: "Value dp q w = ((Some a, e), w1)" "type_of a = t" using ts(2) unfolding gives_def by (metis prod.collapse)
  from Cons.IH [OF ts(3), of w1] v show ?case by (auto simp: ts(1) split: option.split sum.splits)
qed simp

lemma same_dot_types: "same_dot dv dv' \<Longrightarrow> map (map_option type_of) dv' = map (map_option type_of) dv"
  unfolding same_dot_def by (induction rule: list_all2_induct) (auto simp: same_field_def)

lemma Execute_types:
  "Execute ho r to_buffer t dv (b, w) = (err, dv', b', w') \<Longrightarrow> map (map_option type_of) dv' = map (map_option type_of) dv"
  using Execute_same_dot [of to_buffer ho r t dv b w] by (intro same_dot_types) simp

text \<open>The dot values of an instance are well typed, before and after a template ran.\<close>

lemma dot_inv_typed:
  assumes "dot_inv env ps l d" and "list_all2 gives (d_dps d) ts"
  shows "case dot_value type_of q d w of
      Inl p \<Rightarrow> False
    | Inr (Inl e, _) \<Rightarrow> True
    | Inr (Inr dv, d1, w1) \<Rightarrow> map (map_option type_of) dv = map Some ts"
proof -
  have wf: "dot_wf d" and ts: "d_types d = ts" using assms by (simp_all add: dot_inv_def)
  show ?thesis
    using dot_value_ask [OF wf, of type_of q w] ask_all_typed [OF assms(2), of q w]
    by (auto simp: ts split: sum.splits prod.splits)
qed


section \<open>Examples\<close>

text \<open>A directory with a script, its compressed variant, a page and an initialiser; a database and a directory are configured.\<close>

definition site :: "(string \<times> tree) list" where
  "site = [(''app.js'', TFile ''code'' 5), (''app.js.gz'', TFile ''zcode'' 6), (''index.html'', TFile ''page'' 8)]"

definition site_parse :: "string \<Rightarrow> string \<Rightarrow> (string \<times> tmpl) list result" where
  "site_parse name content =
     Inr [(name, Text content Done), (''INIT db'', Call (ODB 2 (DExec ''create'' [])) (\<lambda>_. Done))]"

definition site_env :: build_env where
  "site_env = \<lparr>be_codecs = toy_codecs, be_minify = (\<lambda>_ _ s. Inr s), be_parse = (\<lambda>_ _ _ _. site_parse), be_tree = (\<lambda>_. TDir site),
     be_sprig = Map.empty,
     be_nats = \<lparr>na_NewServer = (\<lambda>_. Inr 0), na_default = '''', na_Connect = (\<lambda>_ _. Inr 0), na_jetstream = (\<lambda>_ _. Inr 0)\<rparr>\<rparr>"

definition site_options :: "string list option_fun list" where
  "site_options = [WithTemplateFS (Some 7), WithDB ''DB'' (Some 0) '''']"

abbreviation site_Instance :: "((gerror + string list Instance) \<times> string list world) panics \<times> int" where
  "site_Instance \<equiv> Config_Instance toy_env site_env 0 site_options empty_config 0 toy_world"

definition site_ok :: bool where
  "site_ok = (case fst site_Instance of Inr (Inr i, _) \<Rightarrow> TemplatesFS (i_config i) = Some 7
      \<and> TemplateInitializers (b_stats (i_built i)) = 1 | _ \<Rightarrow> False)"

lemma site_ok: site_ok
  by code_simp

definition site_instance :: "string list Instance" where
  "site_instance = (case fst site_Instance of Inr (Inr i, _) \<Rightarrow> i | _ \<Rightarrow> undefined)"

definition site_world :: "string list world" where
  "site_world = (case fst site_Instance of Inr (_, w) \<Rightarrow> w | _ \<Rightarrow> toy_world)"

lemma site_instance_ok: "site_Instance = (Inr (Inr site_instance, site_world), 1)"
proof -
  have 1: "snd site_Instance = 1" by (simp add: Config_Instance_def Let_def wrap64_def)
  have "\<exists>i w. fst site_Instance = Inr (Inr i, w)"
    using site_ok by (auto simp: site_ok_def split: sum.splits prod.splits)
  then show ?thesis using 1 by (auto simp: site_instance_def site_world_def prod_eq_iff)
qed

lemma site_instance_facts: "TemplatesFS (i_config site_instance) = Some 7"
  "TemplateInitializers (b_stats (i_built site_instance)) = 1"
  using site_ok by (simp_all add: site_ok_def site_instance_ok)

lemma site_tree: "tree_ok (TDir site)"
  by code_simp

lemma instance_invariant_witness: "instance_inv toy_env site_env site_instance \<and> i_id site_instance = 1"
proof -
  have "be_tree site_env x = TDir site" for x by (simp add: site_env_def)
  from instance_invariant [OF site_instance_ok this site_tree] show ?thesis by simp
qed

text \<open>The same directory with two databases of one name, and with a database named \<^verbatim>\<open>Req\<close>.\<close>

definition named_dbs :: "string list \<Rightarrow> string list Config" where
  "named_dbs ns = (New 0)\<lparr>Databases := map (\<lambda>n. \<lparr>dbc_DB = Some 0, dbc_TxOptions = '''', dbc_Name = n, dbc_Driver = '''',
     dbc_Connstr = '''', dbc_MaxOpenConns = 0\<rparr>) ns\<rparr>"

lemma provider_name_clashes_witness:
  "(\<exists>e. finish_instance toy_env (be_nats site_env) (named_dbs [''DB'', ''DB'']) 1 Map.empty new_builder toy_world = Inr (Inl e, toy_world))
   \<and> (\<exists>msg. finish_instance toy_env (be_nats site_env) (named_dbs [''Req'']) 1 Map.empty new_builder toy_world = Inl msg)"
proof -
  have dup: "\<not> distinct (map provider_name (config_providers (named_dbs [''DB'', ''DB''])))"
    and one: "distinct (map provider_name (config_providers (named_dbs [''Req''])))" by code_simp+
  let ?p = "PDB \<lparr>dbc_DB = Some 0, dbc_TxOptions = '''', dbc_Name = ''Req'', dbc_Driver = '''', dbc_Connstr = '''', dbc_MaxOpenConns = 0\<rparr>"
  have ps: "config_providers (named_dbs [''Req'']) = [?p]"
    by (simp add: config_providers_def named_dbs_def New_def Defaults_def empty_config_def)
  have init: "init_providers toy_env (be_nats site_env) (the (Ctx (named_dbs [''Req'']))) (config_providers (named_dbs [''Req''])) toy_world
      = (Inr [?p], toy_world)"
    unfolding ps by (simp add: DotDBConfig_Init_def toy_env_def)
  have clash: "?p \<in> set (config_providers (named_dbs [''Req'']))" "provider_name ?p \<in> {''X'', ''Req'', ''Resp'', ''Flush''}"
    unfolding ps by simp_all
  show ?thesis
    using provider_name_clashes [of "named_dbs [''DB'', ''DB'']"] dup
      provider_name_clashes [of "named_dbs [''Req'']" toy_env "be_nats site_env" 1 Map.empty new_builder toy_world "[?p]" toy_world ?p]
      one init clash by blast
qed


end
