(* ===== verification/Preserve.thy ===== *)
theory Preserve
  imports Instance
begin

text \<open>
  What every part of the program leaves alone. A relation on the state that is reflexive and transitive and that every
  provider keeps is kept by \<^verbatim>\<open>value\<close>, \<^verbatim>\<open>cleanup\<close>, the execution of a template and the handlers; the relation used here says that
  no context is made or cancelled and no NATS server started or stopped. Building an instance may start servers, all under its context.
\<close>

definition dp_keeps :: "('s \<Rightarrow> 's \<Rightarrow> bool) \<Rightarrow> ('s, 'v) dotConfig \<Rightarrow> bool" where
  "dp_keeps R dp \<longleftrightarrow> (\<forall>q s. R s (snd (Value dp q s)))
     \<and> (\<forall>c a err s err' s'. Cleanup dp = Some c \<longrightarrow> c a err s = Inr (err', s') \<longrightarrow> R s s')"

locale frame =
  fixes R :: "'s \<Rightarrow> 's \<Rightarrow> bool"
  assumes frame_refl: "R s s"
    and frame_trans: "R s t \<Longrightarrow> R t u \<Longrightarrow> R s u"
begin

lemma field_types_keeps:
  "\<forall>dp \<in> set dps. dp_keeps R dp \<Longrightarrow> field_types tyof q dps s = Inr (ts, s') \<Longrightarrow> R s s'"
proof (induction dps arbitrary: s ts)
  case (Cons dp dps)
  obtain a err s1 where v: "Value dp q s = ((a, err), s1)" by (metis prod.collapse)
  have 1: "R s s1" using Cons.prems(1) v by (auto simp: dp_keeps_def) (metis snd_conv)
  obtain ts1 where "field_types tyof q dps s1 = Inr (ts1, s')"
    using Cons.prems(2) v by (auto split: option.splits sum.splits prod.splits)
  with Cons have "R s1 s'" by auto
  with 1 show ?case by (rule frame_trans)
qed (simp add: frame_refl)

lemma fill_fields_keeps:
  "\<forall>dp \<in> set dps. dp_keeps R dp \<Longrightarrow> fill_fields tyof ts q i dps v s = Inr (res, s') \<Longrightarrow> R s s'"
proof (induction dps arbitrary: s i v)
  case (Cons dp dps)
  obtain a err s1 where v: "Value dp q s = ((a, err), s1)" by (metis prod.collapse)
  have 1: "R s s1" using Cons.prems(1) v by (auto simp: dp_keeps_def) (metis snd_conv)
  show ?case
  proof (cases err)
    case (Some e)
    with Cons.prems(2) v 1 show ?thesis by (cases a) simp_all
  next
    case None
    with Cons.prems(2) v obtain x where "fill_fields tyof ts q (Suc i) dps (v[i := Some x]) s1 = Inr (res, s')"
      by (auto split: option.splits if_splits)
    with Cons have "R s1 s'" by auto
    with 1 show ?thesis by (rule frame_trans)
  qed
qed (simp add: frame_refl)

lemma run_cleanups_keeps:
  "\<forall>(i, c) \<in> set cs. \<forall>a err s err' s'. v ! i = Some a \<longrightarrow> c a err s = Inr (err', s') \<longrightarrow> R s s' \<Longrightarrow> run_cleanups cs v err s = Inr (err', s') \<Longrightarrow> R s s'"
proof (induction cs arbitrary: err s)
  case (Cons x cs)
  obtain i c where x: "x = (i, c)" by force
  obtain a e1 s1 where c: "v ! i = Some a" "c a err s = Inr (e1, s1)" "run_cleanups cs v e1 s1 = Inr (err', s')"
    using Cons.prems(2) x by (auto split: option.splits sum.splits)
  have "R s s1" using Cons.prems(1) c(1,2) x by auto
  moreover have "R s1 s'" by (rule Cons.IH [OF _ c(3)]) (use Cons.prems(1) in auto)
  ultimately show ?case by (rule frame_trans)
qed (simp add: frame_refl)

lemma makeDot_keeps:
  "\<forall>dp \<in> set dps. dp_keeps R dp \<Longrightarrow> makeDot uni tyof mock dps s = Inr (d, s') \<Longrightarrow> R s s'"
  by (auto simp: makeDot_def split: sum.splits dest: field_types_keeps)

lemma dot_value_keeps:
  "\<forall>dp \<in> set (d_dps d). dp_keeps R dp \<Longrightarrow> dot_value tyof q d s = Inr (res, d', s') \<Longrightarrow> R s s'"
  by (auto simp: dot_value_def pool_Get_def Let_def split: sum.splits prod.splits list.splits dest: fill_fields_keeps)

lemma cleanups_from_less: "(i, c) \<in> set (cleanups_from n dps) \<Longrightarrow> i < n + length dps"
  by (induction dps arbitrary: n) (fastforce split: option.splits)+

lemma cleanups_from_mem: "(i, c) \<in> set (cleanups_from n dps) \<Longrightarrow> \<exists>dp \<in> set dps. Cleanup dp = Some c"
  by (induction dps arbitrary: n) (auto split: option.splits)

lemma dot_cleanup_keeps_values:
  assumes "\<forall>dp \<in> set (d_dps d). \<forall>c a err s err' s'. Cleanup dp = Some c \<longrightarrow> Some a \<in> set v \<longrightarrow> c a err s = Inr (err', s') \<longrightarrow> R s s'"
    and "d_cleanups d = cleanups_from 0 (d_dps d)" and "length v = length (d_dps d)" and "dot_cleanup v err d s = Inr (err', d', s')"
  shows "R s s'"
proof -
  have run: "run_cleanups (d_cleanups d) v err s = Inr (err', s')"
    using assms(4) by (auto simp: dot_cleanup_def split: sum.splits)
  have "\<forall>(i, c) \<in> set (d_cleanups d). \<forall>a err s err' s'. v ! i = Some a \<longrightarrow> c a err s = Inr (err', s') \<longrightarrow> R s s'"
  proof (clarify)
    fix i c a err s err' s'
    assume mem: "(i, c) \<in> set (d_cleanups d)" and a: "v ! i = Some a" and c: "c a err s = Inr (err', s')"
    have "i < length v" using cleanups_from_less mem assms(2,3) by fastforce
    then have "Some a \<in> set v" using a nth_mem by metis
    with assms(1,2) mem c cleanups_from_mem show "R s s'" by metis
  qed
  from run_cleanups_keeps [OF this run] show ?thesis .
qed

lemma dot_cleanup_keeps:
  assumes "\<forall>dp \<in> set (d_dps d). dp_keeps R dp" and "d_cleanups d = cleanups_from 0 (d_dps d)"
    and "dot_cleanup v err d s = Inr (err', d', s')"
  shows "R s s'"
proof -
  have "run_cleanups (d_cleanups d) v err s = Inr (err', s')"
    using assms(3) by (auto simp: dot_cleanup_def split: sum.splits)
  moreover have "\<forall>(i, c) \<in> set (d_cleanups d). \<forall>a err s err' s'. v ! i = Some a \<longrightarrow> c a err s = Inr (err', s') \<longrightarrow> R s s'"
    unfolding assms(2) using assms(1) by (auto simp: dp_keeps_def dest!: cleanups_from_mem)
  ultimately show ?thesis using run_cleanups_keeps by blast
qed

end

section \<open>Contexts\<close>

definition same_ctxs :: "'d world \<Rightarrow> 'd world \<Rightarrow> bool" where
  "same_ctxs w w' \<longleftrightarrow> w_parents w' = w_parents w \<and> w_cancelled w' = w_cancelled w \<and> w_servers w' = w_servers w"

interpretation ctxs: frame same_ctxs
  by unfold_locales (simp_all add: same_ctxs_def)

lemma same_ctxs_update [simp]:
  "same_ctxs w (w'\<lparr>w_rw := rw\<rparr>) = same_ctxs w w'" "same_ctxs w (w'\<lparr>w_dbs := ds\<rparr>) = same_ctxs w w'"
  "same_ctxs w (w'\<lparr>w_txs := ts\<rparr>) = same_ctxs w w'" "same_ctxs w (w'\<lparr>w_fss := fs\<rparr>) = same_ctxs w w'"
  "same_ctxs w (w'\<lparr>w_handles := hs\<rparr>) = same_ctxs w w'" "same_ctxs w (w'\<lparr>w_bufs := bs\<rparr>) = same_ctxs w w'"
  "same_ctxs w (w'\<lparr>w_pools := n\<rparr>) = same_ctxs w w'" "same_ctxs w w"
  by (simp_all add: same_ctxs_def)

lemma same_ctxs_done: "same_ctxs w w' \<Longrightarrow> is_done w' c = is_done w c"
  by (simp add: same_ctxs_def is_done_def)

text \<open>A custom provider is asked not to touch the contexts of the server.\<close>

definition quiet_custom :: "'d custom \<Rightarrow> bool" where
  "quiet_custom p \<longleftrightarrow> dp_keeps same_ctxs (snd p) \<and> (\<forall>c w. same_ctxs w (snd (fst p c w)))"

fun quiet_provider :: "'d provider \<Rightarrow> bool" where
  "quiet_provider (PCustom p) = quiet_custom p"
| "quiet_provider _ = True"

lemma builtin_keep_ctxs:
  "dp_keeps same_ctxs dotX" "dp_keeps same_ctxs dotReq" "dp_keeps same_ctxs dotResp" "dp_keeps same_ctxs dotFlush"
  by (auto simp: dp_keeps_def dotX_def dotReq_def dotResp_def dotFlush_def resp_Cleanup_def flush_Cleanup_def bad_assertion_def
      split: val.splits prod.splits if_splits option.splits)

lemma provider_keeps_ctxs: "quiet_provider p \<Longrightarrow> dp_keeps same_ctxs (provider_dot env p)"
  by (cases p) (auto simp: dp_keeps_def quiet_custom_def db_Value_def dir_Value_def dotFS_Value_def db_Cleanup_def dir_Cleanup_def
      bad_assertion_def split: val.splits prod.splits)

lemma dot_providers_keep:
  assumes "list_all quiet_provider ps" and "dp_keeps same_ctxs l"
  shows "\<forall>dp \<in> set (dot_providers env ps l). dp_keeps same_ctxs dp"
  using assms builtin_keep_ctxs(1,2) provider_keeps_ctxs by (auto simp: dot_providers_def list_all_iff)

text \<open>Initialising the providers starts NATS servers at most, all under the context of the instance.\<close>

definition starts :: "nat \<Rightarrow> 'd world \<Rightarrow> 'd world \<Rightarrow> bool" where
  "starts c w w' \<longleftrightarrow> w_parents w' = w_parents w \<and> w_cancelled w' = w_cancelled w
     \<and> (\<exists>srvs. w_servers w' = w_servers w @ map (\<lambda>s. (s, ctx_Done w c)) srvs)"

lemma same_ctxs_starts: "same_ctxs w w' \<Longrightarrow> starts c w w'"
  by (auto simp: same_ctxs_def starts_def)

interpretation starting: frame "starts c" for c
proof unfold_locales
  show "starts c s s" for s :: "'d world" by (rule same_ctxs_starts) simp
  show "starts c s u" if st: "starts c s t" "starts c t u" for s t u :: "'d world"
  proof -
    obtain xs ys where "w_servers t = w_servers s @ map (\<lambda>x. (x, ctx_Done s c)) xs" "w_servers u = w_servers t @ map (\<lambda>x. (x, ctx_Done t c)) ys"
      using st unfolding starts_def by blast
    with st show ?thesis by (auto simp: starts_def ctx_Done_def intro!: exI [of _ "xs @ ys"])
  qed
qed

lemma DotNatsConfig_Init_starts: "DotNatsConfig_Init na c d w = (err, d', w') \<Longrightarrow> starts c w w'"
proof -
  have start: "starts c w w" "starts c w (start_server srv c w)" for srv
    by (auto simp: starts_def start_server_def intro: exI [of _ "[]"] exI [of _ "[srv]"])
  assume "DotNatsConfig_Init na c d w = (err, d', w')"
  then have "w' = w \<or> (\<exists>srv. w' = start_server srv c w)"
    by (auto simp: DotNatsConfig_Init_def Let_def split: option.splits sum.splits prod.splits if_splits)
  then show ?thesis using start by blast
qed

lemma provider_Init_ctxs: "quiet_provider p \<Longrightarrow> provider_Init env na c p w = (err, p', w') \<Longrightarrow> starts c w w' \<and> quiet_provider p'"
proof (cases p)
  case (PCustom q)
  moreover assume "quiet_provider p" "provider_Init env na c p w = (err, p', w')"
  ultimately show ?thesis by (auto simp: quiet_custom_def split: prod.splits intro!: same_ctxs_starts) (metis snd_conv)
qed (auto simp: DotDBConfig_Init_def Let_def split: prod.splits sum.splits option.splits if_splits
    intro: DotNatsConfig_Init_starts same_ctxs_starts)

lemma init_providers_ctxs:
  "list_all quiet_provider ps \<Longrightarrow> init_providers env na c ps w = (res, w') \<Longrightarrow>
   starts c w w' \<and> (\<forall>ps'. res = Inr ps' \<longrightarrow> list_all quiet_provider ps')"
proof (induction ps arbitrary: w res w')
  case (Cons p ps)
  obtain err p' w1 where i: "provider_Init env na c p w = (err, p', w1)" by (metis prod_cases3)
  have p: "starts c w w1" "quiet_provider p'" using provider_Init_ctxs [OF _ i] Cons.prems(1) by auto
  obtain res2 w2 where r: "init_providers env na c ps w1 = (res2, w2)" by force
  have "starts c w1 w2 \<and> (\<forall>ps'. res2 = Inr ps' \<longrightarrow> list_all quiet_provider ps')" using Cons.IH [OF _ r] Cons.prems(1) by auto
  with Cons.prems(2) i r p starting.frame_trans [OF p(1)] show ?case by (auto split: option.splits sum.splits)
qed (auto intro: same_ctxs_starts)

lemma call_ctxs: "call ho r f dv w = (a, dv', w') \<Longrightarrow> same_ctxs w w'"
  by (cases f) (auto split: option.splits val.splits prod.splits)

interpretation ctx_steps: execution ho r "\<lambda>_. True" to_response "\<lambda>_ w _ w'. same_ctxs w w'" for ho r
  by unfold_locales (simp, erule (1) ctxs.frame_trans, erule call_ctxs, simp_all add: to_response_def)

lemma Execute_ctxs:
  assumes "emit = to_buffer \<or> emit = to_response" and "Execute ho r emit t dv (b, w) = (err, dv', b', w')"
  shows "same_ctxs w w'"
  by (rule ctx_steps.Execute_keeps [OF all_calls_True _ assms(2)]) (use assms(1) in auto)


section \<open>A request\<close>


lemma executed_length:
  assumes "dot_inv env ps l d" and "dot_value type_of q d w = Inr (Inr dv, d1, w1)"
    and "Execute ho r emit t dv (b, w2) = (err, dv', b', w3)" and "emit = to_buffer \<or> emit = to_response"
  shows "length dv' = length (d_dps d1)"
  using dot_value_length [OF assms(1,2)] Execute_same_dot [OF assms(4,3)] by (auto simp: same_dot_def dest: list_all2_lengthD)

lemma executed_dot:
  assumes "dot_inv env ps l d" and "dot_value type_of q d w = Inr (Inr dv, d1, w1)"
    and "Execute ho r emit t dv (b, w2) = (err, dv', b', w3)" and "emit = to_buffer \<or> emit = to_response"
    and "dot_cleanup dv' err d1 w3 = Inr (err', d2, w4)"
  shows "dot_inv env ps l d2"
  by (rule dot_cleanup_inv [OF dot_value_inv [OF assms(1,2)] executed_length [OF assms(1-4)] assms(5)])

text \<open>Serving changes only the pools of the two dots of an instance.\<close>

definition same_instance :: "'d Instance \<Rightarrow> 'd Instance \<Rightarrow> bool" where
  "same_instance inst inst' \<longleftrightarrow> i_config inst' = i_config inst \<and> i_id inst' = i_id inst \<and> i_built inst' = i_built inst
     \<and> i_funcs inst' = i_funcs inst \<and> i_providers inst' = i_providers inst"

lemma instance_inv_dots:
  assumes "instance_inv env be inst"
  shows "dot_inv env (i_providers inst) dotResp d \<Longrightarrow> instance_inv env be (inst\<lparr>i_bufferDot := d\<rparr>)"
    and "dot_inv env (i_providers inst) dotFlush d \<Longrightarrow> instance_inv env be (inst\<lparr>i_flusherDot := d\<rparr>)"
  using assms unfolding instance_inv_def Let_def by (elim conjE; intro conjI; simp)+

text \<open>
  What serving a request keeps: the invariant of the instance, and a relation on the state that holds from before \<^verbatim>\<open>value\<close> to after
  \<^verbatim>\<open>cleanup\<close> when the providers are good ones, and that ignores the response, the open files and the pool of buffers.
\<close>

locale requests = frame R for R :: "'d world \<Rightarrow> 'd world \<Rightarrow> bool" +
  fixes good :: "'d provider \<Rightarrow> bool"
  assumes response: "R w (w\<lparr>w_rw := rw\<rparr>)" and files: "R w (w\<lparr>w_handles := hs\<rparr>)" and buffers: "R w (w\<lparr>w_bufs := bs\<rparr>)"
    and valued: "dot_inv env ps l d \<Longrightarrow> list_all good ps \<Longrightarrow> l = dotResp \<or> l = dotFlush \<Longrightarrow>
      dot_value type_of q d w = Inr (res, d1, w1) \<Longrightarrow> R w w1"
    and executed: "dot_inv env ps l d \<Longrightarrow> list_all good ps \<Longrightarrow> l = dotResp \<or> l = dotFlush \<Longrightarrow>
      dot_value type_of q d w = Inr (Inr dv, d1, w1) \<Longrightarrow> R w1 w2 \<Longrightarrow>
      Execute ho r emit t dv (b, w2) = (err, dv', b', w3) \<Longrightarrow> emit = to_buffer \<or> emit = to_response \<Longrightarrow>
      dot_cleanup dv' err d1 w3 = Inr (err', d2, w4) \<Longrightarrow> R w w4"
begin

lemma response_keeps: "R w0 w \<Longrightarrow> R w0 (w\<lparr>w_rw := rw\<rparr>)"
  using frame_trans response by blast

lemma with_response_keeps: "with_response a w = Inr w' \<Longrightarrow> R w0 w \<Longrightarrow> R w0 w'"
  by (auto simp: with_response_def response_keeps)

lemma Get_keeps: "bufPool_Get w = (b, w') \<Longrightarrow> R w w'"
  by (auto simp: bufPool_Get_def frame_refl buffers split: list.splits)

lemma Put_keeps: "R w w' \<Longrightarrow> R w (bufPool_Put b w')"
  using frame_trans buffers by (auto simp: bufPool_Put_def)

lemma buffering_keeps:
  assumes "dot_inv env ps dotResp d" and "list_all good ps"
    and "bufferingTemplateHandler ho c d t fl r w = Inr (d', w')"
  shows "dot_inv env ps dotResp d' \<and> R w w'"
proof -
  let ?q = "\<lparr>q_sctx = server_ctx w c, q_flusher = fl, q_r = r\<rparr>"
  obtain res d1 w1 where v: "dot_value type_of ?q d w = Inr (res, d1, w1)"
    using assms(3) by (auto simp: bufferingTemplateHandler_def split: sum.splits)
  note v1 = dot_value_inv [OF assms(1) v] valued [OF assms(1,2) _ v]
  show ?thesis
  proof (cases res)
    case (Inl e)
    with assms(3) v v1 show ?thesis
      by (auto simp: bufferingTemplateHandler_def elim: with_response_keeps)
  next
    case (Inr dv)
    obtain b0 w2 where g: "bufPool_Get w1 = (b0, w2)" by force
    obtain err dv' b' w3 where x: "Execute ho r to_buffer t dv (Reset b0, w2) = (err, dv', b', w3)" by (metis prod_cases4)
    obtain err' d2 w4 where k: "dot_cleanup dv' err d1 w3 = Inr (err', d2, w4)"
      using assms(3) v Inr g x by (auto simp: bufferingTemplateHandler_def split: sum.splits)
    have "dot_inv env ps dotResp d2" by (rule executed_dot [OF assms(1) v [unfolded Inr] x _ k]) simp
    moreover have "R w w4"
      by (rule executed [OF assms(1,2) _ v [unfolded Inr] Get_keeps [OF g] x _ k]) simp_all
    ultimately show ?thesis using assms(3) v Inr g x k
      by (cases err') (auto simp: bufferingTemplateHandler_def intro!: Put_keeps intro: response_keeps elim: with_response_keeps)
  qed
qed

lemma flushing_keeps:
  assumes "dot_inv env ps dotFlush d" and "list_all good ps"
    and "flushingTemplateHandler ho c d t fl r w = Inr (d', w')"
  shows "dot_inv env ps dotFlush d' \<and> R w w'"
proof (cases "Header_Get (r_header r) ''Accept'' = ''text/event-stream''")
  case False
  with assms show ?thesis by (auto simp: flushingTemplateHandler_def Let_def frame_refl elim: with_response_keeps)
next
  case True
  let ?w0 = "w\<lparr>w_rw := sse_headers (w_rw w)\<rparr>"
  let ?q = "\<lparr>q_sctx = server_ctx ?w0 c, q_flusher = fl, q_r = r\<rparr>"
  obtain res d1 w1 where v: "dot_value type_of ?q d ?w0 = Inr (res, d1, w1)"
    using assms(3) True by (auto simp: flushingTemplateHandler_def Let_def split: sum.splits)
  note v1 = dot_value_inv [OF assms(1) v] frame_trans [OF response valued [OF assms(1,2) _ v]]
  show ?thesis
  proof (cases res)
    case (Inl e)
    with assms(3) True v v1 show ?thesis
      by (auto simp: flushingTemplateHandler_def Let_def elim: with_response_keeps)
  next
    case (Inr dv)
    obtain err dv' b' w3 where x: "Execute ho r to_response t dv ('''', w1) = (err, dv', b', w3)" by (metis prod_cases4)
    obtain err' d2 w4 where k: "dot_cleanup dv' err d1 w3 = Inr (err', d2, w4)"
      using assms(3) True v Inr x by (auto simp: flushingTemplateHandler_def Let_def split: sum.splits)
    have "dot_inv env ps dotFlush d2" by (rule executed_dot [OF assms(1) v [unfolded Inr] x _ k]) simp
    moreover have "R ?w0 w4"
      by (rule executed [OF assms(1,2) _ v [unfolded Inr] frame_refl x _ k]) simp_all
    then have "R w w4" by (rule frame_trans [OF response])
    ultimately show ?thesis using assms(3) True v Inr x k
      by (cases err') (auto simp: flushingTemplateHandler_def Let_def elim: with_response_keeps)
  qed
qed

lemma route_keeps:
  assumes "instance_inv env be inst" and "list_all good (i_providers inst)"
    and "serve_route env pf fl inst h r w = Inr (inst', w')"
  shows "instance_inv env be inst' \<and> same_instance inst inst' \<and> R w w'"
proof (cases h)
  case (HStatic addr)
  have "R w (w\<lparr>w_rw := rw, w_handles := hs\<rparr>)" for rw hs by (rule frame_trans [OF response files])
  with HStatic assms show ?thesis by (auto simp: serve_route_def same_instance_def split: prod.splits)
next
  case (HBuffer t)
  obtain d where d: "bufferingTemplateHandler (instance_host env (i_providers inst) (i_built inst)) (the (Ctx (i_config inst)))
       (i_bufferDot inst) t fl r w = Inr (d, w')" and inst': "inst' = inst\<lparr>i_bufferDot := d\<rparr>"
    using assms(3) by (auto simp: serve_route_def HBuffer)
  have "dot_inv env (i_providers inst) dotResp (i_bufferDot inst)" using assms(1) by (simp add: instance_inv_def Let_def)
  from buffering_keeps [OF this assms(2) d] show ?thesis
    by (simp add: inst' instance_inv_dots [OF assms(1)] same_instance_def)
next
  case (HFlush t)
  obtain d where d: "flushingTemplateHandler (instance_host env (i_providers inst) (i_built inst)) (the (Ctx (i_config inst)))
       (i_flusherDot inst) t fl r w = Inr (d, w')" and inst': "inst' = inst\<lparr>i_flusherDot := d\<rparr>"
    using assms(3) by (auto simp: serve_route_def HFlush)
  have "dot_inv env (i_providers inst) dotFlush (i_flusherDot inst)" using assms(1) by (simp add: instance_inv_def Let_def)
  from flushing_keeps [OF this assms(2) d] show ?thesis
    by (simp add: inst' instance_inv_dots [OF assms(1)] same_instance_def)
qed

lemma serve_keeps:
  assumes "instance_inv env be inst" and "list_all good (i_providers inst)"
    and "Instance_ServeHTTP env pf other uuid fl inst r w = Inr (inst', w')"
  shows "instance_inv env be inst' \<and> same_instance inst inst' \<and> R w w'"
proof (cases "is_done w (the (Ctx (i_config inst)))")
  case True
  with assms show ?thesis
    by (auto simp: Instance_ServeHTTP_def same_instance_def frame_refl elim: with_response_keeps)
next
  case False
  define r' where "r' = r\<lparr>r_ctx := serve_context uuid (case Logger (i_config inst) of Some l \<Rightarrow> l | None \<Rightarrow> '''') (r_ctx r)\<rparr>"
  show ?thesis
  proof (cases "findHandler (b_mux (i_built inst)) r'")
    case (Found p h)
    have "serve_route env pf fl inst h r' w = Inr (inst', w')"
      using assms(3) False Found by (simp add: Instance_ServeHTTP_def Let_def flip: r'_def)
    then show ?thesis by (rule route_keeps [OF assms(1,2)])
  qed (use assms False in \<open>auto simp: Instance_ServeHTTP_def Let_def same_instance_def frame_refl simp flip: r'_def
      elim: with_response_keeps\<close>)
qed

text \<open>The INIT templates of a new instance.\<close>

lemma inits_keep:
  "dot_inv env ps dotResp d \<Longrightarrow> list_all good ps \<Longrightarrow> run_inits ho c ts d n w = Inr (res, d', w') \<Longrightarrow> R w w'"
proof (induction ts arbitrary: d n w)
  case (Cons x ts)
  obtain name t where x: "x = (name, t)" by force
  let ?w0 = "w\<lparr>w_rw := new_response\<rparr>"
  let ?q = "\<lparr>q_sctx = server_ctx ?w0 c, q_flusher = True, q_r = mock_request\<rparr>"
  show ?case
  proof (cases "HasPrefix name ''INIT ''")
    case False
    with Cons.prems(3) have "run_inits ho c ts d n w = Inr (res, d', w')" by (simp add: x)
    with Cons show ?thesis by blast
  next
    case True
    obtain v d1 w1 where v: "dot_value type_of ?q d ?w0 = Inr (v, d1, w1)"
      using Cons.prems(3) True by (cases "dot_value type_of ?q d ?w0") (auto simp: x Let_def)
    note c1 = frame_trans [OF response valued [OF Cons.prems(1,2) _ v]]
    show ?thesis
    proof (cases v)
      case (Inl e)
      with Cons.prems(3) True v c1 show ?thesis by (simp add: x Let_def)
    next
      case (Inr dv)
      obtain err dv' b w2 where run: "Execute ho mock_request to_buffer t dv ('''', w1) = (err, dv', b, w2)" by (metis prod_cases4)
      obtain err' d2 w3 where cl: "dot_cleanup dv' err d1 w2 = Inr (err', d2, w3)"
        using Cons.prems(3) True v Inr run by (cases "dot_cleanup dv' err d1 w2") (auto simp: x Let_def)
      have inv2: "dot_inv env ps dotResp d2" by (rule executed_dot [OF Cons.prems(1) v [unfolded Inr] run _ cl]) simp
      have "R ?w0 w3" by (rule executed [OF Cons.prems(1,2) _ v [unfolded Inr] frame_refl run _ cl]) simp_all
      then have c3: "R w w3" by (rule frame_trans [OF response])
      show ?thesis
      proof (cases err')
        case None
        with Cons.prems(3) True v Inr run cl have "run_inits ho c ts d2 (n + 1) w3 = Inr (res, d', w')" by (simp add: x Let_def)
        then have "R w3 w'" by (rule Cons.IH [OF inv2 Cons.prems(2)])
        with c3 show ?thesis by (rule frame_trans)
      next
        case (Some e)
        with Cons.prems(3) True v Inr run cl c3 show ?thesis by (simp add: x Let_def)
      qed
    qed
  qed
qed (simp add: frame_refl)

end

text \<open>With quiet providers the contexts and the NATS servers stay as they are.\<close>

interpretation ctx_requests: requests same_ctxs quiet_provider
proof (unfold_locales, goal_cases)
  case (4 env ps l d q w res d1 w1)
  then have "dp_keeps same_ctxs l" using builtin_keep_ctxs by blast
  then have "\<forall>dp \<in> set (d_dps d). dp_keeps same_ctxs dp" using dot_providers_keep [OF 4(2)] 4(1) by (simp add: dot_inv_def)
  then show ?case by (rule ctxs.dot_value_keeps) (rule 4)
next
  case (5 env ps l d q w dv d1 w1 w2 ho r emit t b err dv' b' w3 err' d2 w4)
  have inv1: "dot_inv env ps l d1" by (rule dot_value_inv [OF 5(1,4)])
  have "dp_keeps same_ctxs l" using 5(3) builtin_keep_ctxs by blast
  then have keep: "\<forall>dp \<in> set (d_dps d). dp_keeps same_ctxs dp" "\<forall>dp \<in> set (d_dps d1). dp_keeps same_ctxs dp"
    using dot_providers_keep [OF 5(2)] 5(1) inv1 by (simp_all add: dot_inv_def)
  have "same_ctxs w w1" by (rule ctxs.dot_value_keeps [OF keep(1) 5(4)])
  moreover have "same_ctxs w2 w3" by (rule Execute_ctxs [OF 5(7,6)])
  moreover have "same_ctxs w3 w4"
    using ctxs.dot_cleanup_keeps [OF keep(2) _ 5(8)] inv1 by (simp add: dot_inv_def dot_wf_def)
  ultimately show ?case using 5(5) ctxs.frame_trans by blast
qed simp_all

section \<open>Building an instance\<close>

lemma finish_instance_ctxs:
  assumes "list_all quiet_provider (config_providers c)" and "finish_instance env na c ident funcs b w = Inr (res, w')"
  shows "starts (the (Ctx c)) w w' \<and> (\<forall>inst. res = Inr inst \<longrightarrow> list_all quiet_provider (i_providers inst))"
proof (cases "duplicate_name (config_providers c)")
  case (Some e)
  with assms(2) show ?thesis by (auto simp: finish_instance_def intro: same_ctxs_starts)
next
  case None
  obtain ri w1 where i: "init_providers env na (the (Ctx c)) (config_providers c) w = (ri, w1)" by force
  note i1 = init_providers_ctxs [OF assms(1) i]
  show ?thesis
  proof (cases ri)
    case (Inl e)
    with assms(2) None i i1 show ?thesis by (auto simp: finish_instance_def)
  next
    case (Inr ps)
    have quiet: "list_all quiet_provider ps" using i1 Inr by blast
    let ?m1 = "makeDot (e_uni env) type_of mock_request (dot_providers env ps dotResp) w1"
    obtain bd w2 where m1: "?m1 = Inr (bd, w2)" using assms(2) None i Inr by (cases ?m1) (auto simp: finish_instance_def)
    let ?m2 = "makeDot (e_uni env) type_of mock_request (dot_providers env ps dotFlush) w2"
    obtain fd w3 where m2: "?m2 = Inr (fd, w3)" using assms(2) None i Inr m1 by (cases ?m2) (auto simp: finish_instance_def)
    let ?r = "run_inits (instance_host env ps b) (the (Ctx c)) (Templates (e_rank env) (b_templates b)) bd 0 w3"
    obtain rr bd' w4 where r: "?r = Inr (rr, bd', w4)"
      using assms(2) None i Inr m1 m2 by (cases ?r) (auto simp: finish_instance_def)
    have "same_ctxs w1 w2" "same_ctxs w2 w3"
      using ctxs.makeDot_keeps [OF dot_providers_keep [OF quiet builtin_keep_ctxs(3)] m1]
        ctxs.makeDot_keeps [OF dot_providers_keep [OF quiet builtin_keep_ctxs(4)] m2] by simp_all
    moreover have "same_ctxs w3 w4" using ctx_requests.inits_keep [OF _ quiet r] makeDot_inv [OF m1] by blast
    ultimately have "starts (the (Ctx c)) w w4" using i1 starting.frame_trans same_ctxs_starts by blast
    with assms(2) None i Inr m1 m2 r quiet show ?thesis by (cases rr) (auto simp: finish_instance_def)
  qed
qed

text \<open>The providers of the config that an instance is built from, with the options of the call.\<close>

definition quiet_config :: "'d Config \<Rightarrow> bool" where
  "quiet_config c \<longleftrightarrow> (\<forall>p \<in> set (CustomProviders c). quiet_custom p)"

lemma quiet_config_providers: "list_all quiet_provider (config_providers c) = quiet_config c"
  by (simp add: quiet_config_def config_providers_def list_all_iff ball_Un)

lemma Config_Instance_ctxs:
  assumes "quiet_config (snd (Options opts (Defaults bg config)))"
    and "Config_Instance env be bg opts config counter w = (Inr (res, w'), n)"
  shows "starts (the (Ctx (snd (Options opts (Defaults bg config))))) w w'
    \<and> (\<forall>inst. res = Inr inst \<longrightarrow> list_all quiet_provider (i_providers inst))"
proof -
  obtain err c0 where o: "Options opts (Defaults bg config) = (err, c0)" by force
  have r: "Minify (Defaults bg config) = Minify config" by (simp add: Defaults_def)
  show ?thesis
  proof (cases err)
    case (Some e)
    with assms(2) o show ?thesis by (auto simp: Config_Instance_def Let_def intro: same_ctxs_starts)
  next
    case None
    let ?c = "resolve_config env (wrap64 (counter + 1)) c0"
    have q: "list_all quiet_provider (config_providers ?c)"
      using assms(1) o by (simp add: quiet_config_providers quiet_config_def resolve_config_def)
    show ?thesis
    proof (cases "load_files (instance_loader be (e_uni env) ?c (Minify config)) (be_tree be (the (TemplatesFS ?c)))")
      case (Inl e)
      with assms(2) o None r show ?thesis by (auto simp: Config_Instance_def Let_def intro: same_ctxs_starts)
    next
      case (Inr b)
      with assms(2) o None r have "finish_instance env (be_nats be) ?c n (instance_funcs be (FuncMaps ?c)) b w = Inr (res, w')"
        by (auto simp: Config_Instance_def Let_def)
      moreover have "Ctx ?c = Ctx c0" by (simp add: resolve_config_def)
      ultimately show ?thesis using finish_instance_ctxs [OF q] o by auto
    qed
  qed
qed

end
