(* ===== verification/Server.thy ===== *)
theory Server
  imports Preserve
begin

text \<open>
  The reloadable server (\<^verbatim>\<open>server.go\<close>). Instances live in a heap and \<^verbatim>\<open>x.instance\<close> is an index into it; \<^verbatim>\<open>x.cancel\<close> is the number of the
  context it cancels. \<^verbatim>\<open>Reload\<close> and \<^verbatim>\<open>Stop\<close> hold the mutex but are not atomic for the requests, which read \<^verbatim>\<open>x.instance\<close> without it: both are
  given as their successive actions, \<open>x_phase\<close> saying where the holder of the mutex is. A request is two actions, reading the
  pointer and serving; \<open>x_requests\<close> are the pointers read by requests that have not begun serving.
\<close>

datatype phase = Free | Built "nat option" nat nat | Swapped nat | Stopping

record 'd sys =
  x_config :: "'d Config"
  x_instance :: "nat option"
  x_cancel :: "nat option"
  x_phase :: phase
  x_heap :: "'d Instance list"
  x_counter :: int
  x_world :: "'d world"
  x_requests :: "nat option list"

section \<open>Reload\<close>

text \<open>
  Under the mutex: a context of its own for the new instance, and building it. When that fails the context is cancelled and the
  error returned; a panic of \<^verbatim>\<open>Config.Instance\<close> is passed on.
\<close>

definition reload_build ::
  "'d env \<Rightarrow> build_env \<Rightarrow> nat \<Rightarrow> 'd option_fun list \<Rightarrow> 'd sys \<Rightarrow> (gerror option \<times> 'd sys) panics" where
  "reload_build env be bg cfgs x =
     (case WithCancel (the (Ctx (x_config x))) (x_world x) of
        (newcancel, w1) \<Rightarrow>
          (case Config_Instance env be bg cfgs ((x_config x)\<lparr>Ctx := Some newcancel\<rparr>) (x_counter x) w1 of
             (Inl p, _) \<Rightarrow> Inl p
           | (Inr (Inl err, w2), n) \<Rightarrow> Inr (Some err, x\<lparr>x_counter := n, x_world := cancel newcancel w2\<rparr>)
           | (Inr (Inr inst, w2), n) \<Rightarrow>
               Inr (None, x\<lparr>x_counter := n, x_world := w2, x_heap := x_heap x @ [inst],
                 x_phase := Built (x_instance x) (length (x_heap x)) newcancel\<rparr>)))"

text \<open>\<^verbatim>\<open>CompareAndSwap\<close>.\<close>

definition reload_swap :: "'d sys \<Rightarrow> 'd sys" where
  "reload_swap x =
     (case x_phase x of
        Built old new newcancel \<Rightarrow>
          x\<lparr>x_instance := (if x_instance x = old then Some new else x_instance x), x_phase := Swapped newcancel\<rparr>
      | _ \<Rightarrow> x)"

definition run_cancel :: "nat option \<Rightarrow> 'd world \<Rightarrow> 'd world" where
  "run_cancel f w = (case f of Some c \<Rightarrow> cancel c w | None \<Rightarrow> w)"

definition reload_finish :: "'d sys \<Rightarrow> 'd sys" where
  "reload_finish x =
     (case x_phase x of
        Swapped newcancel \<Rightarrow> x\<lparr>x_world := run_cancel (x_cancel x) (x_world x), x_cancel := Some newcancel, x_phase := Free\<rparr>
      | _ \<Rightarrow> x)"

definition Reload ::
  "'d env \<Rightarrow> build_env \<Rightarrow> nat \<Rightarrow> 'd option_fun list \<Rightarrow> 'd sys \<Rightarrow> (gerror option \<times> 'd sys) panics" where
  "Reload env be bg cfgs x =
     (case reload_build env be bg cfgs x of
        Inl p \<Rightarrow> Inl p
      | Inr (Some err, x1) \<Rightarrow> Inr (Some err, x1)
      | Inr (None, x1) \<Rightarrow> Inr (None, reload_finish (reload_swap x1)))"

section \<open>Stop\<close>

definition stop_cancel :: "'d sys \<Rightarrow> 'd sys" where
  "stop_cancel x = x\<lparr>x_world := run_cancel (x_cancel x) (x_world x), x_cancel := None, x_phase := Stopping\<rparr>"

definition stop_store :: "'d sys \<Rightarrow> 'd sys" where
  "stop_store x = x\<lparr>x_instance := None, x_phase := Free\<rparr>"

definition Stop :: "'d sys \<Rightarrow> 'd sys" where
  "Stop x = stop_store (stop_cancel x)"

section \<open>Config.Server and the handler\<close>

definition Config_Server ::
  "'d env \<Rightarrow> build_env \<Rightarrow> nat \<Rightarrow> 'd option_fun list \<Rightarrow> 'd Config \<Rightarrow> int \<Rightarrow> 'd world \<Rightarrow> (gerror + 'd sys) panics" where
  "Config_Server env be bg cfgs config counter w =
     (case Options cfgs (Defaults bg config) of
        (Some err, _) \<Rightarrow> Inr (Inl err)
      | (None, c) \<Rightarrow>
          (case Reload env be bg []
                  \<lparr>x_config = c\<lparr>Logger := map_option (\<lambda>l. l @ '' xtemplate:'') (Logger c)\<rparr>, x_instance = None, x_cancel = None,
                   x_phase = Free, x_heap = [], x_counter = counter, x_world = w, x_requests = []\<rparr> of
             Inl p \<Rightarrow> Inl p
           | Inr (Some err, _) \<Rightarrow> Inr (Inl err)
           | Inr (None, x) \<Rightarrow> Inr (Inr x)))"

definition handler_load :: "'d sys \<Rightarrow> 'd sys" where
  "handler_load x = x\<lparr>x_requests := x_requests x @ [x_instance x]\<rparr>"

definition drop_request :: "nat \<Rightarrow> 'd sys \<Rightarrow> 'd sys" where
  "drop_request k x = x\<lparr>x_requests := take k (x_requests x) @ drop (Suc k) (x_requests x)\<rparr>"

text \<open>
  \<^verbatim>\<open>ServeHTTP\<close> of the instance that was read, with a new response. Calling it on a nil pointer panics as soon as the method reads the
  config.
\<close>

definition handler_serve ::
  "'d env \<Rightarrow> (string \<Rightarrow> f64 option) \<Rightarrow> (tmpl handler mux_answer \<Rightarrow> request \<Rightarrow> respWriter \<Rightarrow> respWriter panics) \<Rightarrow> nat \<Rightarrow> request
   \<Rightarrow> bool \<Rightarrow> string \<Rightarrow> 'd sys \<Rightarrow> 'd sys panics" where
  "handler_serve env pf other k r flusher uuid x =
     (case x_requests x ! k of
        None \<Rightarrow> Inl ''nil pointer dereference''
      | Some i \<Rightarrow>
          map_sum id (\<lambda>(inst, w). drop_request k (x\<lparr>x_heap := (x_heap x)[i := inst], x_world := w\<rparr>))
            (Instance_ServeHTTP env pf other uuid flusher (x_heap x ! i) r ((x_world x)\<lparr>w_rw := new_response\<rparr>)))"

definition Handler ::
  "'d env \<Rightarrow> (string \<Rightarrow> f64 option) \<Rightarrow> (tmpl handler mux_answer \<Rightarrow> request \<Rightarrow> respWriter \<Rightarrow> respWriter panics) \<Rightarrow> request
   \<Rightarrow> bool \<Rightarrow> string \<Rightarrow> 'd sys \<Rightarrow> 'd sys panics" where
  "Handler env pf other r flusher uuid x =
     handler_serve env pf other (length (x_requests x)) r flusher uuid (handler_load x)"

section \<open>Interleavings\<close>

text \<open>
  The actions of any number of goroutines that reload, stop and serve, in any order the mutex allows. \<^verbatim>\<open>Interrupt\<close> is the program
  cancelling the context it configured the server with. A request whose instance is nil is aborted: \<^verbatim>\<open>net/http\<close> recovers its
  panic. \<open>Shutdown\<close> is the goroutine of a NATS server whose context is done.
\<close>

datatype 'd event = Build build_env "'d option_fun list" | Swap | Finish | StopCancel | StopStore | Interrupt
  | Load | Serve nat request bool string | Abort nat | Shutdown nat nat

inductive server_step ::
  "'d env \<Rightarrow> nat \<Rightarrow> (string \<Rightarrow> f64 option) \<Rightarrow> (tmpl handler mux_answer \<Rightarrow> request \<Rightarrow> respWriter \<Rightarrow> respWriter panics)
   \<Rightarrow> 'd event \<Rightarrow> 'd sys \<Rightarrow> 'd sys \<Rightarrow> bool" for env bg pf other where
  build: "x_phase x = Free \<Longrightarrow> reload_build env be bg cfgs x = Inr (err, x') \<Longrightarrow> server_step env bg pf other (Build be cfgs) x x'"
| swap: "x_phase x = Built old new c \<Longrightarrow> server_step env bg pf other Swap x (reload_swap x)"
| finish: "x_phase x = Swapped c \<Longrightarrow> server_step env bg pf other Finish x (reload_finish x)"
| stop: "x_phase x = Free \<Longrightarrow> server_step env bg pf other StopCancel x (stop_cancel x)"
| store: "x_phase x = Stopping \<Longrightarrow> server_step env bg pf other StopStore x (stop_store x)"
| interrupt: "server_step env bg pf other Interrupt x (x\<lparr>x_world := cancel (the (Ctx (x_config x))) (x_world x)\<rparr>)"
| load: "server_step env bg pf other Load x (handler_load x)"
| serve: "k < length (x_requests x) \<Longrightarrow> handler_serve env pf other k r fl uuid x = Inr x'
    \<Longrightarrow> server_step env bg pf other (Serve k r fl uuid) x x'"
| abort: "k < length (x_requests x) \<Longrightarrow> x_requests x ! k = None \<Longrightarrow> server_step env bg pf other (Abort k) x (drop_request k x)"
| shutdown: "(srv, Some c) \<in> set (w_servers (x_world x)) \<Longrightarrow> is_done (x_world x) c
    \<Longrightarrow> server_step env bg pf other (Shutdown srv c) x (x\<lparr>x_world := shutdown_server (srv, Some c) (x_world x)\<rparr>)"

inductive server_run ::
  "'d env \<Rightarrow> nat \<Rightarrow> (string \<Rightarrow> f64 option) \<Rightarrow> (tmpl handler mux_answer \<Rightarrow> request \<Rightarrow> respWriter \<Rightarrow> respWriter panics)
   \<Rightarrow> 'd event list \<Rightarrow> 'd sys \<Rightarrow> 'd sys \<Rightarrow> bool" for env bg pf other where
  "server_run env bg pf other [] x x"
| "server_run env bg pf other evs x x' \<Longrightarrow> server_step env bg pf other e x' x'' \<Longrightarrow> server_run env bg pf other (evs @ [e]) x x''"

section \<open>The invariant of the server\<close>

text \<open>
  Every instance has a context of its own below that of the server. The contexts that are not cancelled are those \<^verbatim>\<open>x.cancel\<close> and the
  \<^verbatim>\<open>newcancel\<close> of a running \<^verbatim>\<open>Reload\<close> would cancel.
\<close>

definition root_ctx :: "'d sys \<Rightarrow> nat" where
  "root_ctx x = the (Ctx (x_config x))"

definition heap_ctxs :: "'d sys \<Rightarrow> nat list" where
  "heap_ctxs x = map (\<lambda>inst. the (Ctx (i_config inst))) (x_heap x)"

definition open_ctxs :: "'d sys \<Rightarrow> nat set" where
  "open_ctxs x = set_option (x_cancel x) \<union> (case x_phase x of Built _ _ c \<Rightarrow> {c} | Swapped c \<Rightarrow> {c} | _ \<Rightarrow> {})"

definition ctx_inv :: "'d sys \<Rightarrow> bool" where
  "ctx_inv x \<longleftrightarrow>
     root_ctx x < length (w_parents (x_world x)) \<and> (\<forall>a \<in> set (w_cancelled (x_world x)). a < length (w_parents (x_world x)))
     \<and> distinct (heap_ctxs x)
     \<and> (\<forall>c \<in> set (heap_ctxs x). root_ctx x < c \<and> c < length (w_parents (x_world x))
          \<and> chain (w_parents (x_world x)) c = c # chain (w_parents (x_world x)) (root_ctx x)
          \<and> (c \<in> set (w_cancelled (x_world x)) \<longleftrightarrow> c \<notin> open_ctxs x))"

text \<open>Where \<^verbatim>\<open>x.instance\<close> and \<^verbatim>\<open>x.cancel\<close> are while a goroutine holds the mutex.\<close>

definition phase_inv :: "'d sys \<Rightarrow> bool" where
  "phase_inv x \<longleftrightarrow>
     (\<forall>i. x_instance x = Some i \<longrightarrow> i < length (x_heap x))
     \<and> (case x_phase x of
          Free \<Rightarrow> x_cancel x = map_option (\<lambda>i. heap_ctxs x ! i) (x_instance x)
        | Built old new c \<Rightarrow> old = x_instance x \<and> x_cancel x = map_option (\<lambda>i. heap_ctxs x ! i) old
            \<and> length (x_heap x) = Suc new \<and> heap_ctxs x ! new = c \<and> old \<noteq> Some new
        | Swapped c \<Rightarrow> (\<exists>new. x_instance x = Some new \<and> heap_ctxs x ! new = c) \<and> x_cancel x \<noteq> Some c
            \<and> set_option (x_cancel x) \<subseteq> set (heap_ctxs x)
        | Stopping \<Rightarrow> x_cancel x = None)"

definition heap_inv :: "'d env \<Rightarrow> 'd sys \<Rightarrow> bool" where
  "heap_inv env x \<longleftrightarrow>
     (\<forall>inst \<in> set (x_heap x). (\<exists>be. instance_inv env be inst) \<and> list_all quiet_provider (i_providers inst) \<and> i_id inst \<le> x_counter x)
     \<and> sorted_wrt (<) (map i_id (x_heap x)) \<and> (\<forall>i. Some i \<in> set (x_requests x) \<longrightarrow> i < length (x_heap x))"

definition server_inv :: "'d env \<Rightarrow> 'd sys \<Rightarrow> bool" where
  "server_inv env x \<longleftrightarrow> quiet_config (x_config x) \<and> Ctx (x_config x) \<noteq> None \<and> ctx_inv x \<and> phase_inv x \<and> heap_inv env x"

text \<open>When the context of an instance is done.\<close>

lemma instance_done:
  assumes "ctx_inv x" and "c \<in> set (heap_ctxs x)"
  shows "is_done (x_world x) c \<longleftrightarrow> is_done (x_world x) (root_ctx x) \<or> c \<notin> open_ctxs x"
proof -
  have "chain (w_parents (x_world x)) c = c # chain (w_parents (x_world x)) (root_ctx x)"
    and "c \<in> set (w_cancelled (x_world x)) \<longleftrightarrow> c \<notin> open_ctxs x" using assms by (auto simp: ctx_inv_def)
  then show ?thesis by (auto simp: is_done_def)
qed

section \<open>Options and events\<close>

text \<open>The options of the program, with quiet providers.\<close>

inductive quiet_option :: "'d option_fun \<Rightarrow> bool" where
  "std_option f \<Longrightarrow> \<forall>c. CustomProviders (snd (f c)) = CustomProviders c \<Longrightarrow> quiet_option f"
| "quiet_custom p \<Longrightarrow> quiet_option (WithProvider p)"

definition quiet_options :: "'d option_fun list \<Rightarrow> bool" where
  "quiet_options cfgs \<longleftrightarrow> (\<forall>f \<in> set cfgs. quiet_option f)"

lemma std_option_Ctx: "std_option f \<Longrightarrow> Ctx (snd (f c)) = Ctx c"
  by (induction rule: std_option.induct) (auto simp: option_defs split: option.splits)

lemma quiet_option_keeps: "quiet_option f \<Longrightarrow> Ctx (snd (f c)) = Ctx c \<and> (quiet_config c \<longrightarrow> quiet_config (snd (f c)))"
  by (induction rule: quiet_option.induct) (auto simp: quiet_config_def std_option_Ctx WithProvider_def)

lemma Options_keeps_Ctx: "quiet_options fs \<Longrightarrow> Ctx (snd (Options fs c)) = Ctx c"
proof (induction fs arbitrary: c)
  case (Cons f fs)
  obtain e c' where f: "f c = (e, c')" by force
  have "Ctx c' = Ctx c" using quiet_option_keeps [of f c] Cons.prems f by (simp add: quiet_options_def)
  with Cons f show ?case by (cases e) (simp_all add: quiet_options_def)
qed simp

lemma Options_quiet: "quiet_options fs \<Longrightarrow> quiet_config c \<Longrightarrow> quiet_config (snd (Options fs c))"
proof (induction fs arbitrary: c)
  case (Cons f fs)
  obtain e c' where f: "f c = (e, c')" by force
  have "quiet_config c'" using quiet_option_keeps [of f c] Cons.prems f by (simp add: quiet_options_def)
  with Cons f show ?case by (cases e) (simp_all add: quiet_options_def)
qed simp

lemma Config_Instance_Ctx:
  assumes "Config_Instance env be bg cfgs config counter w = (Inr (Inr inst, w'), n)" and "quiet_options cfgs"
  shows "Ctx (i_config inst) = Ctx (Defaults bg config)"
proof -
  obtain c where c: "Options cfgs (Defaults bg config) = (None, c)"
    using assms(1) by (auto simp: Config_Instance_def Let_def split: prod.splits option.splits)
  define c' where "c' = resolve_config env n c"
  obtain b where "finish_instance env (be_nats be) c' n (instance_funcs be (FuncMaps c')) b w = Inr (Inr inst, w')"
    using assms(1) c by (auto simp: Config_Instance_def Let_def c'_def split: sum.splits)
  then have "i_config inst = c'" by (rule finish_instance_ok)
  then show ?thesis using Options_keeps_Ctx [OF assms(2), of "Defaults bg config"] c by (simp add: c'_def resolve_config_def)
qed

text \<open>A reload is given options of the program and a directory as file systems have them.\<close>

fun sane :: "'d event \<Rightarrow> bool" where
  "sane (Build be cfgs) \<longleftrightarrow> quiet_options cfgs \<and> (\<forall>n. \<exists>ts. be_tree be n = TDir ts \<and> tree_ok (TDir ts))"
| "sane _ \<longleftrightarrow> True"

section \<open>Every step keeps the invariant\<close>

lemma chain_child:
  assumes "p < length ps"
  shows "chain (ps @ [Some p]) (length ps) = length ps # chain ps p"
  using assms by (subst chain.simps) (simp add: nth_append chain_append)

text \<open>A new child of the server's context: the old contexts stay as they are.\<close>

lemma ctx_inv_chains:
  assumes "ctx_inv x" and "w_parents w = w_parents (x_world x) @ [Some (root_ctx x)]" and "c \<in> set (heap_ctxs x)"
  shows "root_ctx x < c" "c < length (w_parents (x_world x))" "chain (w_parents w) c = c # chain (w_parents w) (root_ctx x)"
    "c \<in> set (w_cancelled (x_world x)) \<longleftrightarrow> c \<notin> open_ctxs x"
  using assms by (auto simp: ctx_inv_def chain_append)

lemma reload_fails_ctx:
  assumes "ctx_inv x" and "w_parents w = w_parents (x_world x) @ [Some (root_ctx x)]"
    and "w_cancelled w = length (w_parents (x_world x)) # w_cancelled (x_world x)"
  shows "ctx_inv (x\<lparr>x_counter := n, x_world := w\<rparr>)"
proof -
  let ?x = "x\<lparr>x_counter := n, x_world := w\<rparr>"
  have same: "root_ctx ?x = root_ctx x" "heap_ctxs ?x = heap_ctxs x" "open_ctxs ?x = open_ctxs x"
    by (simp_all add: root_ctx_def heap_ctxs_def open_ctxs_def)
  have "root_ctx x < c \<and> c < length (w_parents w) \<and> chain (w_parents w) c = c # chain (w_parents w) (root_ctx x)
      \<and> (c \<in> set (w_cancelled w) \<longleftrightarrow> c \<notin> open_ctxs x)" if "c \<in> set (heap_ctxs x)" for c
    using ctx_inv_chains [OF assms(1,2) that] assms(2,3) by auto
  moreover have "root_ctx x < length (w_parents w)" "\<forall>a \<in> set (w_cancelled w). a < length (w_parents w)" "distinct (heap_ctxs x)"
    using assms by (auto simp: ctx_inv_def)
  ultimately show ?thesis unfolding ctx_inv_def same by simp
qed

lemma reload_builds_ctx:
  assumes "ctx_inv x" and "x_phase x = Free" and "w_parents w = w_parents (x_world x) @ [Some (root_ctx x)]"
    and "w_cancelled w = w_cancelled (x_world x)" and "Ctx (i_config inst) = Some (length (w_parents (x_world x)))"
  shows "ctx_inv (x\<lparr>x_counter := n, x_world := w, x_heap := x_heap x @ [inst],
    x_phase := Built old new (length (w_parents (x_world x)))\<rparr>)" (is "ctx_inv ?x")
proof -
  let ?c = "length (w_parents (x_world x))"
  have same: "root_ctx ?x = root_ctx x" "heap_ctxs ?x = heap_ctxs x @ [?c]" "open_ctxs ?x = insert ?c (open_ctxs x)"
    using assms(2,5) by (simp_all add: root_ctx_def heap_ctxs_def open_ctxs_def)
  have root: "root_ctx x < ?c" and cancelled: "\<forall>a \<in> set (w_cancelled (x_world x)). a < ?c" using assms(1) by (auto simp: ctx_inv_def)
  have old: "root_ctx x < c \<and> c < length (w_parents w) \<and> chain (w_parents w) c = c # chain (w_parents w) (root_ctx x)
      \<and> (c \<in> set (w_cancelled w) \<longleftrightarrow> c \<notin> insert ?c (open_ctxs x)) \<and> c \<noteq> ?c" if "c \<in> set (heap_ctxs x)" for c
    using ctx_inv_chains [OF assms(1,3) that] assms(3,4) by auto
  have "chain (w_parents w) ?c = ?c # chain (w_parents w) (root_ctx x)"
    using chain_child [OF root] root by (simp add: assms(3) chain_append)
  moreover have "?c \<notin> set (w_cancelled w)" using cancelled assms(4) by auto
  moreover have "distinct (heap_ctxs x @ [?c])" using assms(1) old by (auto simp: ctx_inv_def)
  ultimately show ?thesis unfolding ctx_inv_def same using old root cancelled assms(3,4) by auto
qed

lemma cancel_parents [simp]:
  "w_parents (cancel c w) = w_parents w" "w_cancelled (cancel c w) = c # w_cancelled w" "w_servers (cancel c w) = w_servers w"
  by (simp_all add: cancel_def)

lemma WithCancel_eq: "WithCancel p w = (c, w') \<longleftrightarrow> c = length (w_parents w) \<and> w' = w\<lparr>w_parents := w_parents w @ [Some p]\<rparr>"
  by (auto simp: WithCancel_def)

text \<open>The first action of \<^verbatim>\<open>Reload\<close>: what it does when it fails and when it succeeds.\<close>

lemma reload_build_cases:
  assumes "server_inv env x" and "x_phase x = Free" and "sane (Build be cfgs)" and "reload_build env be bg cfgs x = Inr (err, x')"
    and "0 \<le> x_counter x" and "x_counter x < 2 ^ 63 - 1"
  obtains (fails) e w where "err = Some e" and "x' = x\<lparr>x_counter := x_counter x + 1, x_world := w\<rparr>"
    and "w_parents w = w_parents (x_world x) @ [Some (root_ctx x)]"
    and "w_cancelled w = length (w_parents (x_world x)) # w_cancelled (x_world x)"
    and "\<exists>srvs. w_servers w = w_servers (x_world x) @ map (\<lambda>s. (s, Some (length (w_parents (x_world x))))) srvs"
  | (builds) inst w where "err = None"
    and "x' = x\<lparr>x_counter := x_counter x + 1, x_world := w, x_heap := x_heap x @ [inst],
           x_phase := Built (x_instance x) (length (x_heap x)) (length (w_parents (x_world x)))\<rparr>"
    and "w_parents w = w_parents (x_world x) @ [Some (root_ctx x)]" and "w_cancelled w = w_cancelled (x_world x)"
    and "Ctx (i_config inst) = Some (length (w_parents (x_world x)))" and "instance_inv env be inst"
    and "list_all quiet_provider (i_providers inst)" and "i_id inst = x_counter x + 1"
    and "\<exists>srvs. w_servers w = w_servers (x_world x) @ map (\<lambda>s. (s, Some (length (w_parents (x_world x))))) srvs"
proof -
  let ?c = "length (w_parents (x_world x))" and ?config = "(x_config x)\<lparr>Ctx := Some (length (w_parents (x_world x)))\<rparr>"
  let ?w1 = "(x_world x)\<lparr>w_parents := w_parents (x_world x) @ [Some (root_ctx x)]\<rparr>"
  have wc: "WithCancel (the (Ctx (x_config x))) (x_world x) = (?c, ?w1)" by (simp add: WithCancel_eq root_ctx_def)
  obtain r n where ci0: "Config_Instance env be bg cfgs ?config (x_counter x) ?w1 = (r, n)" by force
  obtain res w2 where ci: "Config_Instance env be bg cfgs ?config (x_counter x) ?w1 = (Inr (res, w2), n)"
    using assms(4) wc ci0 by (cases r) (auto simp: reload_build_def)
  have n: "n = x_counter x + 1" using ci assms(5,6) by (auto simp: Config_Instance_def Let_def wrap64_def)
  have opts: "quiet_options cfgs" using assms(3) by simp
  have "quiet_config (Defaults bg ?config)"
    using assms(1) by (simp add: server_inv_def quiet_config_def Defaults_def)
  note started = Config_Instance_ctxs [OF Options_quiet [OF opts this] ci]
  have "Ctx (snd (Options cfgs (Defaults bg ?config))) = Some ?c" using Options_keeps_Ctx [OF opts] by (simp add: Defaults_def)
  then have ctx: "w_parents w2 = w_parents (x_world x) @ [Some (root_ctx x)]" "w_cancelled w2 = w_cancelled (x_world x)"
    and srvs: "\<exists>srvs. w_servers w2 = w_servers (x_world x) @ map (\<lambda>s. (s, Some ?c)) srvs"
    and quiet: "\<forall>inst. res = Inr inst \<longrightarrow> list_all quiet_provider (i_providers inst)"
    using started by (auto simp: starts_def ctx_Done_def)
  show ?thesis
  proof (cases res)
    case (Inl e)
    with assms(4) wc ci n have "err = Some e" "x' = x\<lparr>x_counter := x_counter x + 1, x_world := cancel ?c w2\<rparr>"
      by (auto simp: reload_build_def)
    then show ?thesis by (rule fails) (use srvs in \<open>simp_all add: ctx\<close>)
  next
    case (Inr inst)
    with assms(4) wc ci n have x': "err = None" "x' = x\<lparr>x_counter := x_counter x + 1, x_world := w2, x_heap := x_heap x @ [inst],
           x_phase := Built (x_instance x) (length (x_heap x)) ?c\<rparr>"
      by (auto simp: reload_build_def)
    obtain ts where ts: "be_tree be (the (TemplatesFS (i_config inst))) = TDir ts" "tree_ok (TDir ts)" using assms(3) by auto
    have inv: "instance_inv env be inst" by (rule instance_built [OF ci [unfolded Inr] ts])
    have ctx_inst: "Ctx (i_config inst) = Some ?c"
      using Config_Instance_Ctx [OF ci [unfolded Inr] opts] by (simp add: Defaults_def)
    have ident: "i_id inst = n"
    proof -
      obtain b where "finish_instance env (be_nats be) (i_config inst) n (instance_funcs be (FuncMaps (i_config inst))) b ?w1 = Inr (Inr inst, w2)"
        by (rule config_instance_ok [OF ci [unfolded Inr]])
      then show ?thesis by (rule finish_instance_ok)
    qed
    show ?thesis by (rule builds [OF x' ctx ctx_inst inv]) (use quiet Inr ident n srvs in simp_all)
  qed
qed

lemma server_inv_build:
  assumes "server_inv env x" and "x_phase x = Free" and "sane (Build be cfgs)" and "reload_build env be bg cfgs x = Inr (err, x')"
    and "0 \<le> x_counter x" and "x_counter x < 2 ^ 63 - 1"
  shows "server_inv env x' \<and> x_counter x' = x_counter x + 1"
  using assms
proof (cases rule: reload_build_cases)
  case (fails e w)
  have "ctx_inv x'" using reload_fails_ctx [OF _ fails(3,4)] assms(1) by (simp add: fails(2) server_inv_def)
  with assms(1,2) show ?thesis
    by (auto simp: fails(2) server_inv_def phase_inv_def heap_inv_def heap_ctxs_def intro: order_trans)
next
  case (builds inst w)
  have ctx: "ctx_inv x'" using reload_builds_ctx [OF _ assms(2) builds(3-5)] assms(1) by (simp add: builds(2) server_inv_def)
  have "phase_inv x'"
    using assms(1,2) builds(5) by (auto simp: builds(2) server_inv_def phase_inv_def heap_ctxs_def nth_append option.map_comp
        intro!: option.map_cong0 option.map_cong)
  moreover have "heap_inv env x'"
    using assms(1) builds(6-8) by (fastforce simp: builds(2) server_inv_def heap_inv_def sorted_wrt_append)
  ultimately show ?thesis using ctx assms(1) by (simp add: builds(2) server_inv_def)
qed

text \<open>Actions that only cancel contexts and move the pointers.\<close>

lemma ctx_inv_move:
  assumes "ctx_inv x" and "x_config x' = x_config x" and "x_heap x' = x_heap x" and "w_parents (x_world x') = w_parents (x_world x)"
    and "\<forall>a \<in> set (w_cancelled (x_world x')). a \<in> set (w_cancelled (x_world x)) \<or> a < length (w_parents (x_world x))"
    and "\<forall>c \<in> set (heap_ctxs x). (c \<in> set (w_cancelled (x_world x)) \<longleftrightarrow> c \<notin> open_ctxs x)
           \<longrightarrow> (c \<in> set (w_cancelled (x_world x')) \<longleftrightarrow> c \<notin> open_ctxs x')"
  shows "ctx_inv x'"
proof -
  have same: "root_ctx x' = root_ctx x" "heap_ctxs x' = heap_ctxs x" using assms(2,3) by (simp_all add: root_ctx_def heap_ctxs_def)
  show ?thesis using assms(1,5,6) unfolding ctx_inv_def same assms(4) by blast
qed

lemma heap_ctxs_length [simp]: "length (heap_ctxs x) = length (x_heap x)"
  by (simp add: heap_ctxs_def)

lemma server_inv_swap:
  assumes "server_inv env x" and "x_phase x = Built old new c"
  shows "server_inv env (reload_swap x) \<and> x_instance (reload_swap x) = Some new"
proof -
  have p: "x_instance x = old" "x_cancel x = map_option (\<lambda>i. heap_ctxs x ! i) old" "new < length (x_heap x)" "heap_ctxs x ! new = c"
    "old \<noteq> Some new" "\<forall>i. old = Some i \<longrightarrow> i < length (x_heap x)"
    using assms by (auto simp: server_inv_def phase_inv_def)
  have x': "reload_swap x = x\<lparr>x_instance := Some new, x_phase := Swapped c\<rparr>" by (simp add: reload_swap_def assms(2) p(1))
  have "ctx_inv x" using assms(1) by (simp add: server_inv_def)
  then have "ctx_inv (reload_swap x)"
    by (rule ctx_inv_move) (simp_all add: x' open_ctxs_def assms(2))
  moreover have "distinct (heap_ctxs x)" using assms(1) by (simp add: server_inv_def ctx_inv_def)
  moreover have "heap_ctxs (x\<lparr>x_instance := Some new, x_phase := Swapped c\<rparr>) = heap_ctxs x" by (simp add: heap_ctxs_def)
  ultimately have "ctx_inv (reload_swap x) \<and> phase_inv (reload_swap x)"
    using p by (auto simp: x' phase_inv_def nth_eq_iff_index_eq)
  then show ?thesis using assms(1) by (simp add: x' server_inv_def heap_inv_def)
qed

lemma run_cancel_world [simp]: "w_parents (run_cancel f w) = w_parents w"
  "set (w_cancelled (run_cancel f w)) = set_option f \<union> set (w_cancelled w)"
  by (simp_all add: run_cancel_def split: option.split)

lemma server_inv_finish:
  assumes "server_inv env x" and "x_phase x = Swapped c"
  shows "server_inv env (reload_finish x)"
proof -
  have p: "x_cancel x \<noteq> Some c" "set_option (x_cancel x) \<subseteq> set (heap_ctxs x)"
    using assms by (auto simp: server_inv_def phase_inv_def)
  have x': "reload_finish x = x\<lparr>x_world := run_cancel (x_cancel x) (x_world x), x_cancel := Some c, x_phase := Free\<rparr>"
    by (simp add: reload_finish_def assms(2))
  have ctx: "ctx_inv x" using assms(1) by (simp add: server_inv_def)
  then have "ctx_inv (reload_finish x)"
  proof (rule ctx_inv_move)
    have "\<forall>c \<in> set (heap_ctxs x). c < length (w_parents (x_world x))" using ctx by (simp add: ctx_inv_def)
    with p(2) show "\<forall>a \<in> set (w_cancelled (x_world (reload_finish x))). a \<in> set (w_cancelled (x_world x)) \<or> a < length (w_parents (x_world x))"
      by (auto simp: x')
  qed (use p(1) in \<open>auto simp: x' open_ctxs_def assms(2)\<close>)
  moreover have "phase_inv (reload_finish x)"
    using assms by (auto simp: x' server_inv_def phase_inv_def heap_ctxs_def)
  ultimately show ?thesis using assms(1) by (simp add: x' server_inv_def heap_inv_def)
qed

lemma server_inv_stop:
  assumes "server_inv env x" and "x_phase x = Free"
  shows "server_inv env (stop_cancel x)"
proof -
  have p: "x_cancel x = map_option (\<lambda>i. heap_ctxs x ! i) (x_instance x)" "\<forall>i. x_instance x = Some i \<longrightarrow> i < length (x_heap x)"
    using assms by (auto simp: server_inv_def phase_inv_def)
  have sub: "set_option (x_cancel x) \<subseteq> set (heap_ctxs x)" using p by (cases "x_instance x") simp_all
  have ctx: "ctx_inv x" using assms(1) by (simp add: server_inv_def)
  then have "ctx_inv (stop_cancel x)"
  proof (rule ctx_inv_move)
    have "\<forall>c \<in> set (heap_ctxs x). c < length (w_parents (x_world x))" using ctx by (simp add: ctx_inv_def)
    with sub show "\<forall>a \<in> set (w_cancelled (x_world (stop_cancel x))). a \<in> set (w_cancelled (x_world x)) \<or> a < length (w_parents (x_world x))"
      by (auto simp: stop_cancel_def)
  qed (auto simp: stop_cancel_def open_ctxs_def assms(2))
  moreover have "phase_inv (stop_cancel x)" using p by (simp add: stop_cancel_def phase_inv_def)
  ultimately show ?thesis using assms(1) by (simp add: stop_cancel_def server_inv_def heap_inv_def)
qed

lemma server_inv_store:
  assumes "server_inv env x" and "x_phase x = Stopping"
  shows "server_inv env (stop_store x)"
proof -
  have "ctx_inv x" using assms(1) by (simp add: server_inv_def)
  then have "ctx_inv (stop_store x)" by (rule ctx_inv_move) (simp_all add: stop_store_def open_ctxs_def assms(2))
  with assms show ?thesis by (simp add: stop_store_def server_inv_def phase_inv_def heap_inv_def)
qed

lemma server_inv_requests:
  assumes "server_inv env x" and "\<forall>i. Some i \<in> set rs \<longrightarrow> Some i \<in> set (x_requests x) \<or> x_instance x = Some i"
  shows "server_inv env (x\<lparr>x_requests := rs\<rparr>)"
proof -
  have same: "heap_ctxs (x\<lparr>x_requests := rs\<rparr>) = heap_ctxs x" by (simp add: heap_ctxs_def)
  have "ctx_inv x" using assms(1) by (simp add: server_inv_def)
  then have "ctx_inv (x\<lparr>x_requests := rs\<rparr>)" by (rule ctx_inv_move) (simp_all add: open_ctxs_def)
  moreover have "\<forall>i. Some i \<in> set rs \<longrightarrow> i < length (x_heap x)"
    using assms by (auto simp: server_inv_def heap_inv_def phase_inv_def)
  ultimately show ?thesis using assms(1) by (simp add: server_inv_def phase_inv_def heap_inv_def same cong: phase.case_cong)
qed

text \<open>Serving a request changes neither the contexts nor what an instance is.\<close>

lemma handler_serve_keeps:
  assumes "heap_inv env x" and "k < length (x_requests x)" and "handler_serve env pf other k r fl uuid x = Inr x'"
  obtains be i inst' w' where "x' = drop_request k (x\<lparr>x_heap := (x_heap x)[i := inst'], x_world := w'\<rparr>)" and "i < length (x_heap x)"
    and "instance_inv env be inst'" and "same_instance (x_heap x ! i) inst'" and "same_ctxs (x_world x) w'"
    and "heap_ctxs (x\<lparr>x_heap := (x_heap x)[i := inst'], x_world := w'\<rparr>) = heap_ctxs x"
proof -
  obtain i inst' w' where i: "x_requests x ! k = Some i"
    and s: "Instance_ServeHTTP env pf other uuid fl (x_heap x ! i) r ((x_world x)\<lparr>w_rw := new_response\<rparr>) = Inr (inst', w')"
    and x': "x' = drop_request k (x\<lparr>x_heap := (x_heap x)[i := inst'], x_world := w'\<rparr>)"
    using assms(3) by (auto simp: handler_serve_def split: option.splits)
  have "Some i \<in> set (x_requests x)" using assms(2) i nth_mem by metis
  with assms(1) have il: "i < length (x_heap x)" by (simp add: heap_inv_def)
  with assms(1) obtain be where be: "instance_inv env be (x_heap x ! i)" "list_all quiet_provider (i_providers (x_heap x ! i))"
    unfolding heap_inv_def by (metis nth_mem)
  note k = ctx_requests.serve_keeps [OF be s]
  have "heap_ctxs (x\<lparr>x_heap := (x_heap x)[i := inst'], x_world := w'\<rparr>) = heap_ctxs x"
    using k il by (simp add: heap_ctxs_def map_update same_instance_def list_update_same_conv)
  moreover have "same_ctxs (x_world x) w'" using k by (simp add: same_ctxs_def)
  ultimately show ?thesis using that [OF x' il] k by blast
qed

lemma server_inv_serve:
  assumes "server_inv env x" and "k < length (x_requests x)" and "handler_serve env pf other k r fl uuid x = Inr x'"
  shows "server_inv env x' \<and> x_counter x' = x_counter x"
proof -
  have heap: "heap_inv env x" using assms(1) by (simp add: server_inv_def)
  obtain be i inst' w' where x': "x' = drop_request k (x\<lparr>x_heap := (x_heap x)[i := inst'], x_world := w'\<rparr>)" and il: "i < length (x_heap x)"
    and inst': "instance_inv env be inst'" "same_instance (x_heap x ! i) inst'" and w': "same_ctxs (x_world x) w'"
    and ctxs: "heap_ctxs (x\<lparr>x_heap := (x_heap x)[i := inst'], x_world := w'\<rparr>) = heap_ctxs x"
    by (rule handler_serve_keeps [OF heap assms(2,3)])
  let ?y = "x\<lparr>x_heap := (x_heap x)[i := inst'], x_world := w'\<rparr>"
  have ids: "map i_id (x_heap ?y) = map i_id (x_heap x)"
    using inst'(2) il by (simp add: map_update same_instance_def list_update_same_conv)
  have "ctx_inv ?y"
    using assms(1) w' unfolding server_inv_def ctx_inv_def ctxs by (simp add: same_ctxs_def root_ctx_def open_ctxs_def)
  moreover have "phase_inv ?y" using assms(1) by (simp add: server_inv_def phase_inv_def ctxs cong: phase.case_cong)
  moreover have "heap_inv env ?y"
    using heap inst' il unfolding heap_inv_def ids same_instance_def
    by (auto dest!: set_update_subset_insert [THEN subsetD])
  ultimately have "server_inv env ?y" using assms(1) by (simp add: server_inv_def)
  then have "server_inv env x'"
    unfolding x' drop_request_def by (rule server_inv_requests) (auto dest: in_set_takeD in_set_dropD)
  then show ?thesis by (simp add: x' drop_request_def)
qed

lemma server_inv_interrupt:
  assumes "server_inv env x"
  shows "server_inv env (x\<lparr>x_world := cancel (the (Ctx (x_config x))) (x_world x)\<rparr>)" (is "server_inv env ?x")
proof -
  have ctx: "ctx_inv x" using assms by (simp add: server_inv_def)
  then have "ctx_inv ?x"
  proof (rule ctx_inv_move)
    show "\<forall>c \<in> set (heap_ctxs x). (c \<in> set (w_cancelled (x_world x)) \<longleftrightarrow> c \<notin> open_ctxs x)
        \<longrightarrow> (c \<in> set (w_cancelled (x_world ?x)) \<longleftrightarrow> c \<notin> open_ctxs ?x)"
      using ctx by (auto simp: ctx_inv_def open_ctxs_def root_ctx_def)
  qed (use ctx in \<open>auto simp: ctx_inv_def root_ctx_def\<close>)
  moreover have "heap_ctxs ?x = heap_ctxs x" by (simp add: heap_ctxs_def)
  ultimately show ?thesis using assms by (simp add: server_inv_def phase_inv_def heap_inv_def cong: phase.case_cong)
qed

lemma server_inv_shutdown: "server_inv env x \<Longrightarrow> server_inv env (x\<lparr>x_world := shutdown_server s (x_world x)\<rparr>)"
  by (simp add: server_inv_def ctx_inv_def phase_inv_def heap_inv_def heap_ctxs_def root_ctx_def open_ctxs_def shutdown_server_def
      cong: phase.case_cong)

lemma server_step_inv:
  assumes "server_step env bg pf other e x x'" and "server_inv env x" and "sane e" and "0 \<le> x_counter x" and "x_counter x < 2 ^ 63 - 1"
  shows "server_inv env x' \<and> x_counter x \<le> x_counter x' \<and> x_counter x' \<le> x_counter x + 1"
  using assms
proof (cases rule: server_step.cases)
  case (build be cfgs err)
  from server_inv_build [OF assms(2) build(2) assms(3) [unfolded build(1)] build(3) assms(4,5)] show ?thesis by simp
next
  case (swap old new c)
  have "x_counter (reload_swap x) = x_counter x" by (simp add: reload_swap_def split: phase.split)
  with server_inv_swap [OF assms(2) swap(3)] show ?thesis by (simp add: swap(2))
next
  case (finish c)
  from server_inv_finish [OF assms(2) finish(3)] show ?thesis by (simp add: finish(2,3) reload_finish_def)
next
  case stop
  from server_inv_stop [OF assms(2) stop(3)] show ?thesis by (simp add: stop(2) stop_cancel_def)
next
  case store
  from server_inv_store [OF assms(2) store(3)] show ?thesis by (simp add: store(2) stop_store_def)
next
  case interrupt
  from server_inv_interrupt [OF assms(2)] show ?thesis by (simp add: interrupt(2))
next
  case load
  have "server_inv env (handler_load x)" unfolding handler_load_def by (rule server_inv_requests [OF assms(2)]) auto
  then show ?thesis by (simp add: load(2) handler_load_def)
next
  case (serve k r fl uuid)
  from server_inv_serve [OF assms(2) serve(2,3)] show ?thesis by simp
next
  case (abort k)
  have "server_inv env (drop_request k x)"
    unfolding drop_request_def by (rule server_inv_requests [OF assms(2)]) (auto dest: in_set_takeD in_set_dropD)
  then show ?thesis by (simp add: abort(2) drop_request_def)
next
  case (shutdown srv c)
  from server_inv_shutdown [OF assms(2)] show ?thesis by (simp add: shutdown(2))
qed

lemma server_run_inv:
  assumes "server_run env bg pf other evs x x'" and "server_inv env x" and "\<forall>e \<in> set evs. sane e"
    and "0 \<le> x_counter x" and "x_counter x + int (length evs) < 2 ^ 63"
  shows "server_inv env x' \<and> x_counter x \<le> x_counter x' \<and> x_counter x' \<le> x_counter x + int (length evs)"
  using assms
proof (induction rule: server_run.induct)
  case (2 evs x x' e x'')
  then have ih: "server_inv env x' \<and> x_counter x \<le> x_counter x' \<and> x_counter x' \<le> x_counter x + int (length evs)" by simp
  have "sane e" "0 \<le> x_counter x'" "x_counter x' < 2 ^ 63 - 1" using ih 2 by simp_all
  with server_step_inv [OF 2(2)] ih show ?case by fastforce
qed simp

section \<open>What the server guarantees\<close>

lemma Reload_ok:
  assumes "server_inv env x" and "x_phase x = Free" and "sane (Build be cfgs)" and "Reload env be bg cfgs x = Inr (err, x')"
    and "0 \<le> x_counter x" and "x_counter x < 2 ^ 63 - 1"
  shows "server_inv env x' \<and> x_phase x' = Free \<and> x_counter x' = x_counter x + 1 \<and> x_config x' = x_config x \<and> x_requests x' = x_requests x
    \<and> (err \<noteq> None \<longrightarrow> x_instance x' = x_instance x \<and> x_cancel x' = x_cancel x \<and> x_heap x' = x_heap x)
    \<and> (err = None \<longrightarrow> x_instance x' = Some (length (x_heap x)) \<and> (\<exists>inst. x_heap x' = x_heap x @ [inst] \<and> i_id inst = x_counter x + 1))"
proof -
  obtain e1 x1 where b: "reload_build env be bg cfgs x = Inr (e1, x1)" using assms(4) by (auto simp: Reload_def split: sum.splits)
  have inv1: "server_inv env x1" "x_counter x1 = x_counter x + 1"
    using server_inv_build [OF assms(1-3) b assms(5,6)] by simp_all
  from assms(1-3) b assms(5,6) show ?thesis
  proof (cases rule: reload_build_cases)
    case (fails e w)
    with assms(2,4) b inv1 show ?thesis by (auto simp: Reload_def)
  next
    case (builds inst w)
    let ?c = "length (w_parents (x_world x))"
    have ph: "x_phase x1 = Built (x_instance x) (length (x_heap x)) ?c" by (simp add: builds(2))
    have x': "err = None" "x' = reload_finish (reload_swap x1)" using assms(4) b builds(1) by (auto simp: Reload_def)
    have x1i: "x_instance x1 = x_instance x" by (simp add: builds(2))
    have sw: "reload_swap x1 = x1\<lparr>x_instance := Some (length (x_heap x)), x_phase := Swapped ?c\<rparr>"
      using ph by (simp add: reload_swap_def x1i)
    have "server_inv env x'"
      unfolding x'(2) using server_inv_swap [OF inv1(1) ph] server_inv_finish [of env "reload_swap x1" ?c] by (simp add: sw)
    moreover have "x_phase x' = Free" "x_counter x' = x_counter x + 1" "x_config x' = x_config x" "x_requests x' = x_requests x"
      "x_instance x' = Some (length (x_heap x))" "x_heap x' = x_heap x @ [inst]"
      unfolding x'(2) by (simp_all add: reload_finish_def reload_swap_def builds(2))
    ultimately show ?thesis using x'(1) builds(8) by simp
  qed
qed

lemma Free_open:
  assumes "server_inv env x" and "x_phase x = Free" and "i < length (x_heap x)"
  shows "heap_ctxs x ! i \<in> open_ctxs x \<longleftrightarrow> x_instance x = Some i"
proof -
  have "distinct (heap_ctxs x)" "x_cancel x = map_option (\<lambda>i. heap_ctxs x ! i) (x_instance x)"
    "\<forall>j. x_instance x = Some j \<longrightarrow> j < length (x_heap x)"
    using assms by (auto simp: server_inv_def ctx_inv_def phase_inv_def)
  with assms(2,3) show ?thesis by (cases "x_instance x") (auto simp: open_ctxs_def nth_eq_iff_index_eq)
qed

lemma Free_done:
  assumes "server_inv env x" and "x_phase x = Free" and "i < length (x_heap x)"
  shows "is_done (x_world x) (heap_ctxs x ! i) \<longleftrightarrow> is_done (x_world x) (root_ctx x) \<or> x_instance x \<noteq> Some i"
  using instance_done [of x "heap_ctxs x ! i"] Free_open [OF assms] assms by (simp add: server_inv_def)

text \<open>What a server can be started with: quiet providers, and a context that exists.\<close>

definition start_ok :: "nat \<Rightarrow> 'd option_fun list \<Rightarrow> 'd Config \<Rightarrow> int \<Rightarrow> 'd world \<Rightarrow> bool" where
  "start_ok bg cfgs config counter w \<longleftrightarrow> quiet_options cfgs \<and> quiet_config config
     \<and> the (Ctx (Defaults bg config)) < length (w_parents w) \<and> (\<forall>a \<in> set (w_cancelled w). a < length (w_parents w)) \<and> 0 \<le> counter"

lemma Config_Server_start:
  assumes "Config_Server env be bg cfgs config counter w = Inr (Inr x)" and "start_ok bg cfgs config counter w"
  obtains x0 where "server_inv env x0" and "x_phase x0 = Free" and "x_counter x0 = counter" and "x_world x0 = w" and "x_heap x0 = []"
    and "x_requests x0 = []" and "Reload env be bg [] x0 = Inr (None, x :: 'd sys)"
proof -
  obtain c where o: "Options cfgs (Defaults bg config) = (None, c)"
    using assms(1) by (auto simp: Config_Server_def split: prod.splits option.splits)
  define x0 where "x0 = \<lparr>x_config = c\<lparr>Logger := map_option (\<lambda>l. l @ '' xtemplate:'') (Logger c)\<rparr>, x_instance = None, x_cancel = None,
     x_phase = Free, x_heap = [], x_counter = counter, x_world = w, x_requests = []\<rparr>"
  have r: "Reload env be bg [] x0 = Inr (None, x)"
    using assms(1) o by (auto simp: Config_Server_def simp flip: x0_def split: sum.splits option.splits)
  have "quiet_config (Defaults bg config)" using assms(2) by (simp add: start_ok_def quiet_config_def Defaults_def)
  then have "quiet_config c" "Ctx c = Ctx (Defaults bg config)"
    using Options_quiet [of cfgs "Defaults bg config"] Options_keeps_Ctx [of cfgs "Defaults bg config"] assms(2) o by (simp_all add: start_ok_def)
  then have "server_inv env x0"
    using assms(2) by (auto simp: x0_def server_inv_def start_ok_def quiet_config_def ctx_inv_def phase_inv_def heap_inv_def root_ctx_def
        heap_ctxs_def Defaults_def)
  then show ?thesis by (rule that) (simp_all add: x0_def r [unfolded x0_def])
qed

lemma Config_Server_ok:
  assumes "Config_Server env be bg cfgs config counter w = Inr (Inr x)" and "start_ok bg cfgs config counter w"
    and "sane (Build be ([] :: 'd option_fun list))" and "counter < 2 ^ 63 - 1"
  shows "server_inv env (x :: 'd sys) \<and> x_phase x = Free \<and> x_counter x = counter + 1 \<and> x_instance x = Some 0 \<and> x_requests x = []
    \<and> length (x_heap x) = 1"
proof -
  obtain x0 where x0: "server_inv env x0" "x_phase x0 = Free" "x_counter x0 = counter" "x_heap x0 = []" "x_requests x0 = []"
    and r: "Reload env be bg [] x0 = Inr (None, x)" by (rule Config_Server_start [OF assms(1,2)])
  from Reload_ok [OF x0(1,2) assms(3) r] x0 assms(2,4) show ?thesis by (auto simp: start_ok_def)
qed

text \<open>C4. In every interleaving of reloads, stops and requests the server keeps its invariant; in particular, whenever no goroutine holds
  the mutex, the context of an instance is done exactly when the server's own context is or the instance is not the current one. So
  the current instance is never cancelled by a reload and every superseded instance is; the ids of the instances increase.\<close>

theorem server_invariant:
  assumes "Config_Server env be bg cfgs config counter w = Inr (Inr (x0 :: 'd sys))" and "start_ok bg cfgs config counter w"
    and "\<forall>e \<in> set (Build be [] # evs). sane e" and "server_run env bg pf other evs x0 x" and "counter + 1 + int (length evs) < 2 ^ 63"
  shows "server_inv env x \<and> sorted_wrt (<) (map i_id (x_heap x))
    \<and> (x_phase x = Free \<longrightarrow> (\<forall>i < length (x_heap x).
         is_done (x_world x) (heap_ctxs x ! i) \<longleftrightarrow> is_done (x_world x) (root_ctx x) \<or> x_instance x \<noteq> Some i))"
proof -
  have "server_inv env x0 \<and> x_counter x0 = counter + 1" using Config_Server_ok [OF assms(1,2)] assms(3,5) by simp
  then have inv: "server_inv env x" using server_run_inv [OF assms(4)] assms(2,3,5) by (simp add: start_ok_def)
  then have "sorted_wrt (<) (map i_id (x_heap x))" by (simp add: server_inv_def heap_inv_def)
  with inv Free_done [OF inv] show ?thesis by blast
qed

text \<open>A run without \<^verbatim>\<open>Stop\<close>: there is always an instance, and every request has read one.\<close>

definition has_instance :: "'d sys \<Rightarrow> bool" where
  "has_instance x \<longleftrightarrow> x_instance x \<noteq> None \<and> None \<notin> set (x_requests x) \<and> x_phase x \<noteq> Stopping"

lemma server_step_has_instance:
  assumes "server_step env bg pf other e x x'" and "has_instance x" and "e \<noteq> StopCancel"
  shows "has_instance x'"
  using assms
proof (cases rule: server_step.cases)
  case (build be cfgs err)
  with assms(2) show ?thesis by (auto simp: has_instance_def reload_build_def split: prod.splits sum.splits)
next
  case (serve k r fl uuid)
  with assms(2) show ?thesis
    by (auto simp: has_instance_def handler_serve_def drop_request_def split: option.splits dest: in_set_takeD in_set_dropD)
qed (auto simp: has_instance_def reload_swap_def reload_finish_def stop_store_def handler_load_def drop_request_def
    dest: in_set_takeD in_set_dropD)

lemma server_run_has_instance:
  "server_run env bg pf other evs x x' \<Longrightarrow> has_instance x \<Longrightarrow> StopCancel \<notin> set evs \<Longrightarrow> has_instance x'"
  by (induction rule: server_run.induct) (auto dest: server_step_has_instance)

text \<open>C10. Until the server is stopped there is no interleaving in which a request finds no instance, and \<^verbatim>\<open>CompareAndSwap\<close>, whose result \<^verbatim>\<open>Reload\<close>
  ignores, always stores the new instance.\<close>

theorem reload_never_drops:
  assumes "Config_Server env be bg cfgs config counter w = Inr (Inr (x0 :: 'd sys))" and "start_ok bg cfgs config counter w"
    and "\<forall>e \<in> set (Build be [] # evs). sane e" and "server_run env bg pf other evs x0 x" and "counter + 1 + int (length evs) < 2 ^ 63"
    and "StopCancel \<notin> set evs"
  shows "x_instance x \<noteq> None \<and> None \<notin> set (x_requests x)
    \<and> (\<forall>old new c. x_phase x = Built old new c \<longrightarrow> x_instance (reload_swap x) = Some new)"
proof -
  have x0: "server_inv env x0 \<and> x_counter x0 = counter + 1" "has_instance x0"
    using Config_Server_ok [OF assms(1,2)] assms(3,5) by (simp_all add: has_instance_def)
  have inv: "server_inv env x" using server_run_inv [OF assms(4)] x0(1) assms(2,3,5) by (simp add: start_ok_def)
  have "has_instance x" by (rule server_run_has_instance [OF assms(4) x0(2) assms(6)])
  with server_inv_swap [OF inv] show ?thesis by (auto simp: has_instance_def)
qed

text \<open>C14. \<^verbatim>\<open>Reload\<close>, when it returns an error, leaves the pointer, the instances and the function that cancels the current one as they were,
  and the current instance keeps serving; when it succeeds the new instance, with the highest id so far, is current and the
  one before it is cancelled.\<close>

theorem Reload_outcome:
  assumes "server_inv env x" and "x_phase x = Free" and "sane (Build be cfgs)" and "Reload env be bg cfgs x = Inr (err, x')"
    and "0 \<le> x_counter x" and "x_counter x < 2 ^ 63 - 1"
  shows "x_phase x' = Free \<and>
    (case err of
       Some e \<Rightarrow> x_instance x' = x_instance x \<and> x_cancel x' = x_cancel x \<and> x_heap x' = x_heap x
         \<and> (\<forall>i < length (x_heap x). is_done (x_world x') (heap_ctxs x ! i) \<longleftrightarrow> is_done (x_world x') (root_ctx x') \<or> x_instance x \<noteq> Some i)
     | None \<Rightarrow> (\<exists>inst. x_heap x' = x_heap x @ [inst] \<and> x_instance x' = Some (length (x_heap x)) \<and> i_id inst = x_counter x + 1
         \<and> (\<forall>i < length (x_heap x). i_id (x_heap x ! i) < i_id inst \<and> is_done (x_world x') (heap_ctxs x' ! i))))"
proof -
  note ok = Reload_ok [OF assms]
  then have inv: "server_inv env x'" "x_phase x' = Free" by simp_all
  note stopped = Free_done [OF inv]
  show ?thesis
  proof (cases err)
    case (Some e)
    with ok stopped show ?thesis by (simp add: heap_ctxs_def)
  next
    case None
    with ok obtain inst where inst: "x_heap x' = x_heap x @ [inst]" "i_id inst = x_counter x + 1" "x_instance x' = Some (length (x_heap x))"
      by blast
    have "\<forall>i < length (x_heap x). i_id (x_heap x ! i) < i_id inst"
      using assms(1) inst(2) unfolding server_inv_def heap_inv_def by (metis nth_mem zle_add1_eq_le)
    moreover have "\<forall>i < length (x_heap x). is_done (x_world x') (heap_ctxs x' ! i)" using stopped inst(1,3) by auto
    ultimately show ?thesis using None inv(2) inst by auto
  qed
qed

text \<open>C35. A request that read the pointer before a reload finished and begins to serve after it is answered with status 500 by the
  cancelled instance, although the new instance is ready; after \<^verbatim>\<open>Stop\<close> every new request panics on the nil pointer.\<close>

theorem late_request_fails:
  assumes "server_inv env x" and "x_phase x = Free" and "x_requests x ! k = Some i" and "i < length (x_heap x)" and "x_instance x \<noteq> Some i"
  shows "(\<exists>x'. handler_serve env pf other k r fl uuid x = Inr x' \<and> final_status (w_rw (x_world x')) = 500
      \<and> rw_body (w_rw (x_world x')) = ''server stopped'' @ [newline])
    \<and> Handler env pf other r fl uuid (Stop y) = Inl ''nil pointer dereference''"
proof -
  let ?w = "(x_world x)\<lparr>w_rw := new_response\<rparr>"
  have "is_done (x_world x) (heap_ctxs x ! i)" using Free_done [OF assms(1,2,4)] assms(5) by simp
  then have d: "is_done ?w (the (Ctx (i_config (x_heap x ! i))))" using assms(4) by (simp add: heap_ctxs_def is_done_def)
  obtain rw where rw: "http_Error ''server stopped'' 500 new_response = Inr rw" "final_status rw = 500" "rw_body rw = ''server stopped'' @ [newline]"
    using http_Error_untouched [of new_response 500 "''server stopped''"] by (auto simp: bodyAllowedForStatus_def in_range_def)
  have "Instance_ServeHTTP env pf other uuid fl (x_heap x ! i) r ?w = Inr (x_heap x ! i, ?w\<lparr>w_rw := rw\<rparr>)"
    using d rw(1) by (simp add: Instance_ServeHTTP_def with_response_def)
  then have 1: "handler_serve env pf other k r fl uuid x
      = Inr (drop_request k (x\<lparr>x_heap := (x_heap x)[i := x_heap x ! i], x_world := ?w\<lparr>w_rw := rw\<rparr>\<rparr>))"
    using assms(3) by (simp add: handler_serve_def)
  have 2: "Handler env pf other r fl uuid (Stop y) = Inl ''nil pointer dereference''"
    by (simp add: Handler_def handler_serve_def handler_load_def Stop_def stop_store_def stop_cancel_def nth_append)
  show ?thesis using 1 2 rw(2,3) by (simp add: drop_request_def)
qed

section \<open>Examples\<close>

text \<open>The site of \<open>Instance\<close> is started; a request reads the pointer; the server is reloaded.\<close>

definition server_world :: "string list world" where
  "server_world = toy_world\<lparr>w_parents := [None]\<rparr>"

definition site_start :: "(gerror + string list sys) panics" where
  "site_start = Config_Server toy_env site_env 0 site_options empty_config 0 server_world"

definition site_reload :: "string list sys \<Rightarrow> (gerror option \<times> string list sys) panics" where
  "site_reload x = reload_build toy_env site_env 0 [] (handler_load x)"

definition site_check :: bool where
  "site_check = (case site_start of
     Inr (Inr x) \<Rightarrow>
       (case site_reload x of
          Inr (None, x1) \<Rightarrow> (let x2 = reload_finish (reload_swap x1) in
            x_phase x = Free \<and> x_instance x1 = Some 0 \<and> x_phase x1 = Built (Some 0) 1 2
            \<and> x_phase x2 = Free \<and> x_instance x2 = Some 1 \<and> length (x_heap x2) = 2 \<and> x_requests x2 = [Some 0])
        | _ \<Rightarrow> False)
   | _ \<Rightarrow> False)"

lemma site_check: site_check
  by code_simp

definition site_server :: "string list sys" where
  "site_server = (case site_start of Inr (Inr x) \<Rightarrow> x | _ \<Rightarrow> undefined)"

definition site_built :: "string list sys" where
  "site_built = (case site_reload site_server of Inr (_, x) \<Rightarrow> x | _ \<Rightarrow> undefined)"

definition site_reloaded :: "string list sys" where
  "site_reloaded = reload_finish (reload_swap site_built)"

lemma site_server_ok:
  "Config_Server toy_env site_env 0 site_options empty_config 0 server_world = Inr (Inr site_server)"
  "reload_build toy_env site_env 0 [] (handler_load site_server) = Inr (None, site_built)"
proof -
  obtain x x1 where x: "site_start = Inr (Inr x)" "site_reload x = Inr (None, x1)"
    using site_check by (auto simp: site_check_def split: sum.splits option.splits)
  have "site_server = x" unfolding site_server_def x(1) by simp
  moreover have "site_built = x1" unfolding site_built_def \<open>site_server = x\<close> x(2) by simp
  ultimately show "Config_Server toy_env site_env 0 site_options empty_config 0 server_world = Inr (Inr site_server)"
    and "reload_build toy_env site_env 0 [] (handler_load site_server) = Inr (None, site_built)"
    using x by (simp_all add: site_start_def site_reload_def)
qed

lemma site_states: "x_phase site_server = Free" "x_phase site_built = Built (Some 0) 1 2" "x_instance site_built = Some 0"
  "x_phase site_reloaded = Free" "x_instance site_reloaded = Some 1" "length (x_heap site_reloaded) = 2" "x_requests site_reloaded = [Some 0]"
  using site_check unfolding site_check_def site_start_def site_reload_def
  by (simp_all add: site_server_ok site_reloaded_def Let_def)

lemma site_start_ok: "start_ok 0 site_options empty_config 0 server_world"
  "\<forall>e \<in> set (Build site_env [] # [Load, Build site_env [], Swap, Finish]). sane (e :: string list event)"
proof -
  have "quiet_option (WithTemplateFS (Some 7) :: string list option_fun)" "quiet_option (WithDB ''DB'' (Some 0) '''' :: string list option_fun)"
    by (auto intro!: quiet_option.intros std_option.intros simp: option_defs)
  then show "start_ok 0 site_options empty_config 0 server_world"
    by (simp add: start_ok_def site_options_def quiet_options_def quiet_config_def server_world_def Defaults_def empty_config_def toy_world_def)
  show "\<forall>e \<in> set (Build site_env [] # [Load, Build site_env [], Swap, Finish]). sane (e :: string list event)"
    using site_tree by (simp add: quiet_options_def site_env_def del: tree_ok.simps)
qed

lemma site_run: "server_run toy_env 0 pf other [Load, Build site_env [], Swap] site_server (reload_swap site_built)"
proof -
  have "server_run toy_env 0 pf other ([] @ [Load]) site_server (handler_load site_server)" by (rule server_run.intros(2) [OF server_run.intros(1) server_step.load])
  moreover have "server_step toy_env 0 pf other (Build site_env []) (handler_load site_server) site_built"
    by (rule server_step.build [OF _ site_server_ok(2)]) (simp add: handler_load_def site_states)
  ultimately have "server_run toy_env 0 pf other (([] @ [Load]) @ [Build site_env []]) site_server site_built" by (rule server_run.intros)
  moreover have "server_step toy_env 0 pf other Swap site_built (reload_swap site_built)" by (rule server_step.swap [OF site_states(2)])
  ultimately have "server_run toy_env 0 pf other ((([] @ [Load]) @ [Build site_env []]) @ [Swap]) site_server (reload_swap site_built)"
    by (rule server_run.intros)
  then show ?thesis by simp
qed

lemma site_full_run: "server_run toy_env 0 pf other [Load, Build site_env [], Swap, Finish] site_server site_reloaded"
proof -
  have "x_phase (reload_swap site_built) = Swapped 2" by (simp add: reload_swap_def site_states)
  from server_run.intros(2) [OF site_run server_step.finish [OF this]] show ?thesis by (simp add: site_reloaded_def)
qed

lemma site_inv: "server_inv toy_env site_server" "server_inv toy_env site_reloaded"
proof -
  have 0: "server_inv toy_env site_server \<and> x_counter site_server = 1"
    using Config_Server_ok [OF site_server_ok(1) site_start_ok(1)] site_start_ok(2) by simp
  then show "server_inv toy_env site_server" by simp
  show "server_inv toy_env site_reloaded" using server_run_inv [OF site_full_run] 0 site_start_ok(2) by simp
qed

lemma server_invariant_witness: "server_inv toy_env site_reloaded \<and> is_done (x_world site_reloaded) (heap_ctxs site_reloaded ! 0)"
  using server_invariant [OF site_server_ok(1) site_start_ok site_full_run] by (simp add: site_states)

lemma reload_never_drops_witness: "x_instance (reload_swap site_built) \<noteq> None \<and> None \<notin> set (x_requests (reload_swap site_built))"
proof -
  have "\<forall>e \<in> set (Build site_env [] # [Load, Build site_env [], Swap]). sane (e :: string list event)" using site_start_ok(2) by simp
  from reload_never_drops [OF site_server_ok(1) site_start_ok(1) this site_run] show ?thesis by simp
qed

lemma Reload_outcome_witness: "\<exists>x'. Reload toy_env site_env 0 [] site_server = Inr (None, x') \<and> x_instance x' = Some 1"
proof -
  have inv: "server_inv toy_env site_server" "x_phase site_server = Free" "x_counter site_server = 1" "sane (Build site_env ([] :: string list option_fun list))"
    using Config_Server_ok [OF site_server_ok(1) site_start_ok(1)] site_start_ok(2) by simp_all
  define r where "r = Reload toy_env site_env 0 [] site_server"
  have "(case Config_Server toy_env site_env 0 site_options empty_config 0 server_world of
      Inr (Inr x) \<Rightarrow> (case Reload toy_env site_env 0 [] x of Inr (None, _) \<Rightarrow> length (x_heap x) = 1 | _ \<Rightarrow> False) | _ \<Rightarrow> False)" by code_simp
  then obtain x' where x': "Reload toy_env site_env 0 [] site_server = Inr (None, x')" "length (x_heap site_server) = 1"
    by (auto simp: site_server_ok split: sum.splits option.splits)
  from Reload_outcome [OF inv(1,2,4) x'(1)] inv(3) x' show ?thesis by auto
qed

lemma late_request_fails_witness:
  "\<exists>x'. handler_serve toy_env (\<lambda>_. None) (\<lambda>_ _ rw. Inr rw) 0 (get_request ''/'') True '''' site_reloaded = Inr x' \<and> final_status (w_rw (x_world x')) = 500"
proof -
  have "x_requests site_reloaded ! 0 = Some 0" "0 < length (x_heap site_reloaded)" "x_instance site_reloaded \<noteq> Some 0"
    by (simp_all add: site_states)
  from late_request_fails [OF _ site_states(4) this, of toy_env "\<lambda>_. None" "\<lambda>_ _ rw. Inr rw" "get_request ''/''" True "''''" site_reloaded]
    site_inv(2) show ?thesis by blast
qed

end
