(* ===== verification/App.thy ===== *)
theory App
  imports Server
begin

text \<open>
  The default program (\<^verbatim>\<open>app/app.go\<close>): how \<^verbatim>\<open>Main\<close> puts its configuration together, starts the server, watches directories and serves. The command
  line parser, reading a file, decoding JSON into the arguments and watching directories are the fields of \<open>appEnv\<close>; a function that ends the
  process gives the exit code. \<^verbatim>\<open>http.ListenAndServe\<close> is the end of the model.
\<close>

record 'd Args =
  a_config :: "'d Config"
  Watch :: "string list"
  WatchTemplates :: bool
  Listen :: string
  LogLevel :: int
  Configs :: "string list"
  ConfigFiles :: "string list"

definition defaultArgs :: "'d Args" where
  "defaultArgs = \<lparr>a_config = empty_config, Watch = [], WatchTemplates = True, Listen = ''0.0.0.0:8080'', LogLevel = 0, Configs = [], ConfigFiles = []\<rparr>"

record 'd appEnv =
  ap_parse :: "'d Args \<Rightarrow> int + 'd Args"
  ap_open :: "string \<Rightarrow> string result"
  ap_decode :: "string \<Rightarrow> 'd Args \<Rightarrow> gerror option \<times> 'd Args"
  ap_watch :: "string list \<Rightarrow> gerror option"

text \<open>The loops over the files and over the JSON texts of the command line. They share \<^verbatim>\<open>jsonConfig\<close> and \<^verbatim>\<open>decoded\<close>.\<close>

fun read_configs :: "'d appEnv \<Rightarrow> string list \<Rightarrow> 'd Args \<times> bool \<Rightarrow> int + ('d Args \<times> bool)" where
  "read_configs ap [] st = Inr st"
| "read_configs ap (conf # confs) (jsonConfig, isDecoded) =
     (case ap_decode ap conf jsonConfig of
        (Some err, _) \<Rightarrow> Inl 1
      | (None, jsonConfig') \<Rightarrow> read_configs ap confs (jsonConfig', True))"

fun read_files :: "'d appEnv \<Rightarrow> string list \<Rightarrow> 'd Args \<times> bool \<Rightarrow> int + ('d Args \<times> bool)" where
  "read_files ap [] st = Inr st"
| "read_files ap (name # names) (jsonConfig, isDecoded) =
     (case ap_open ap name of
        Inl err \<Rightarrow> Inl 1
      | Inr content \<Rightarrow>
          (case ap_decode ap content jsonConfig of
             (Some err, _) \<Rightarrow> Inl 1
           | (None, jsonConfig') \<Rightarrow> read_files ap names (jsonConfig', True)))"

text \<open>The block that loads the configuration. The logger only differs by its level.\<close>

definition load_args :: "'d appEnv \<Rightarrow> nat \<Rightarrow> int + 'd Args" where
  "load_args ap bg =
     (case ap_parse ap defaultArgs of
        Inl code \<Rightarrow> Inl code
      | Inr config0 \<Rightarrow>
          (let config = config0\<lparr>a_config := Defaults bg (a_config config0)\<rparr> in
           case read_files ap (ConfigFiles config) (defaultArgs, False) of
             Inl code \<Rightarrow> Inl code
           | Inr st \<Rightarrow>
               (case read_configs ap (Configs config) st of
                  Inl code \<Rightarrow> Inl code
                | Inr (jsonConfig, isDecoded) \<Rightarrow>
                    (case (if isDecoded then ap_parse ap jsonConfig else Inr config) of
                       Inl code \<Rightarrow> Inl code
                     | Inr args \<Rightarrow> Inr (args\<lparr>a_config := (a_config args)\<lparr>Logger := Some (''level='' @ Itoa (LogLevel args))\<rparr>\<rparr>)))))"

datatype 'd outcome = Exit int | Serving string "string list" "'d sys"

definition Main ::
  "'d appEnv \<Rightarrow> 'd env \<Rightarrow> build_env \<Rightarrow> nat \<Rightarrow> 'd option_fun list \<Rightarrow> int \<Rightarrow> 'd world \<Rightarrow> 'd outcome panics" where
  "Main ap env be bg overrides counter w =
     (case load_args ap bg of
        Inl code \<Rightarrow> Inr (Exit code)
      | Inr config \<Rightarrow>
          (case Config_Server env be bg overrides (a_config config) counter w of
             Inl p \<Rightarrow> Inl p
           | Inr (Inl err) \<Rightarrow> Inr (Exit 2)
           | Inr (Inr server) \<Rightarrow>
               (let watch = (if WatchTemplates config \<and> TemplatesFS (a_config config) = None
                             then Watch config @ [TemplatesDir (a_config config)] else Watch config) in
                if watch \<noteq> [] \<and> ap_watch ap watch \<noteq> None then Inr (Exit 4)
                else Inr (Serving (Listen config) watch server))))"

section \<open>What Main guarantees\<close>

definition decode_all :: "'d appEnv \<Rightarrow> string list \<Rightarrow> 'd Args \<Rightarrow> 'd Args" where
  "decode_all ap cs j = foldl (\<lambda>j c. snd (ap_decode ap c j)) j cs"

text \<open>Every text can be decoded, whatever was decoded before it.\<close>

definition decodable :: "'d appEnv \<Rightarrow> string list \<Rightarrow> bool" where
  "decodable ap cs \<longleftrightarrow> (\<forall>c \<in> set cs. \<forall>j. fst (ap_decode ap c j) = None)"

lemma read_configs_all:
  "decodable ap cs \<Longrightarrow> read_configs ap cs (j, d) = Inr (decode_all ap cs j, d \<or> cs \<noteq> [])"
proof (induction cs arbitrary: j d)
  case (Cons c cs)
  obtain e j' where d: "ap_decode ap c j = (e, j')" by force
  have "e = None" using Cons.prems d unfolding decodable_def by (metis fst_conv list.set_intros(1))
  with Cons d show ?case by (simp add: decodable_def decode_all_def)
qed (simp add: decode_all_def)

lemma read_files_all:
  "decodable ap cs \<Longrightarrow> map (ap_open ap) names = map Inr cs \<Longrightarrow> read_files ap names (j, d) = Inr (decode_all ap cs j, d \<or> names \<noteq> [])"
proof (induction names arbitrary: j d cs)
  case (Cons n names)
  then obtain c cs' where cs: "cs = c # cs'" "ap_open ap n = Inr c" "map (ap_open ap) names = map Inr cs'" by (cases cs) auto
  obtain e j' where d: "ap_decode ap c j = (e, j')" by force
  have "e = None" using Cons.prems(1) d cs(1) unfolding decodable_def by (metis fst_conv list.set_intros(1))
  with Cons.IH [of cs' j' True] Cons.prems(1) cs d show ?case by (simp add: decodable_def decode_all_def)
qed (simp add: decode_all_def)

text \<open>C19. The precedence of the configuration: JSON files in the order of the command line, then the JSON texts of the command line, each
  over what came before and the first over the defaults, and the command line over all of them. Without any JSON the command line
  alone decides.\<close>

theorem load_args_precedence:
  assumes "ap_parse ap defaultArgs = Inr args" and "map (ap_open ap) (ConfigFiles args) = map Inr cs" and "decodable ap (cs @ Configs args)"
  shows "(cs @ Configs args \<noteq> [] \<longrightarrow>
       (case ap_parse ap (decode_all ap (cs @ Configs args) defaultArgs) of
          Inl code \<Rightarrow> load_args ap bg = Inl code
        | Inr args' \<Rightarrow> \<exists>log. load_args ap bg = Inr (args'\<lparr>a_config := (a_config args')\<lparr>Logger := Some log\<rparr>\<rparr>)))
    \<and> (cs @ Configs args = [] \<longrightarrow>
       (\<exists>log. load_args ap bg = Inr (args\<lparr>a_config := (Defaults bg (a_config args))\<lparr>Logger := Some log\<rparr>\<rparr>)))"
proof -
  let ?cs = "cs @ Configs args"
  have f: "read_files ap (ConfigFiles args) (defaultArgs, False) = Inr (decode_all ap cs defaultArgs, ConfigFiles args \<noteq> [])"
    using read_files_all [of ap cs "ConfigFiles args" defaultArgs False] assms(2,3) by (simp add: decodable_def)
  have c: "read_configs ap (Configs args) (decode_all ap cs defaultArgs, ConfigFiles args \<noteq> [])
      = Inr (decode_all ap ?cs defaultArgs, ?cs \<noteq> [])"
    using read_configs_all [of ap "Configs args" "decode_all ap cs defaultArgs" "ConfigFiles args \<noteq> []"] assms(2,3)
    by (auto simp: decodable_def decode_all_def)
  have l: "load_args ap bg = (case (if ?cs \<noteq> [] then ap_parse ap (decode_all ap ?cs defaultArgs) else Inr (args\<lparr>a_config := Defaults bg (a_config args)\<rparr>)) of
      Inl code \<Rightarrow> Inl code
    | Inr args' \<Rightarrow> Inr (args'\<lparr>a_config := (a_config args')\<lparr>Logger := Some (''level='' @ Itoa (LogLevel args'))\<rparr>\<rparr>))"
    unfolding load_args_def assms(1) by (simp add: f c)
  show ?thesis
  proof (intro conjI impI)
    assume "?cs \<noteq> []"
    with l show "case ap_parse ap (decode_all ap ?cs defaultArgs) of
          Inl code \<Rightarrow> load_args ap bg = Inl code
        | Inr args' \<Rightarrow> \<exists>log. load_args ap bg = Inr (args'\<lparr>a_config := (a_config args')\<lparr>Logger := Some log\<rparr>\<rparr>)"
      by (auto split: sum.split)
  next
    assume "?cs = []"
    with l show "\<exists>log. load_args ap bg = Inr (args\<lparr>a_config := (Defaults bg (a_config args))\<lparr>Logger := Some log\<rparr>\<rparr>)" by auto
  qed
qed

text \<open>A file that cannot be read, or holds JSON that cannot be decoded, ends the process before anything is started.\<close>

lemma unreadable_config_exits:
  assumes "ap_parse ap defaultArgs = Inr args" and "ConfigFiles args = name # names"
    and "(\<exists>e. ap_open ap name = Inl e) \<or> (\<exists>c. ap_open ap name = Inr c \<and> fst (ap_decode ap c defaultArgs) \<noteq> None)"
  shows "Main ap env be bg overrides counter w = Inr (Exit 1)"
  using assms by (auto simp: Main_def load_args_def split: prod.splits)

text \<open>What is served is a server in its initial state over the loaded configuration; without a file system the directory of the templates is watched.\<close>

lemma Main_serves:
  assumes "Main ap env be bg overrides counter w = Inr (Serving l watch x)"
  shows "\<exists>config. load_args ap bg = Inr config \<and> Config_Server env be bg overrides (a_config config) counter w = Inr (Inr x)
     \<and> l = Listen config \<and> (WatchTemplates config \<and> TemplatesFS (a_config config) = None \<longrightarrow> TemplatesDir (a_config config) \<in> set watch)
     \<and> (watch \<noteq> [] \<longrightarrow> ap_watch ap watch = None)"
  using assms by (auto simp: Main_def Let_def split: sum.splits if_splits)

section \<open>Examples\<close>

text \<open>A command line with one file and one text, and a decoder that stores a text as the address to listen on.\<close>

definition toy_app :: "string list appEnv" where
  "toy_app = \<lparr>ap_parse = (\<lambda>a. Inr (a\<lparr>ConfigFiles := [''f''], Configs := [''cli'']\<rparr>)), ap_open = (\<lambda>n. if n = ''f'' then Inr ''file'' else Inl (ErrMsg n)),
     ap_decode = (\<lambda>s a. (None, a\<lparr>Listen := s\<rparr>)), ap_watch = (\<lambda>_. None)\<rparr>"

lemma load_args_precedence_witness: "\<exists>a. load_args toy_app 0 = Inr a \<and> Listen a = ''cli''"
proof -
  let ?args = "(defaultArgs :: string list Args)\<lparr>ConfigFiles := [''f''], Configs := [''cli'']\<rparr>"
  have "ap_parse toy_app defaultArgs = Inr ?args" "map (ap_open toy_app) (ConfigFiles ?args) = map Inr [''file'']"
    "decodable toy_app ([''file''] @ Configs ?args)" by (simp_all add: toy_app_def decodable_def)
  from load_args_precedence [OF this, of 0] show ?thesis by (auto simp: decode_all_def toy_app_def)
qed

end
