(* ===== verification/FrontMatter.thy ===== *)
theory FrontMatter
  imports Go_Strings Go_Errors
begin

text \<open>
  Front matter (\<^verbatim>\<open>frontmatter.go\<close>): the first line that is not blank may open a block of metadata, which a closing fence ends; the rest
  is the body. The parsers of YAML, TOML and JSON are arguments. A slice with bad bounds would panic.
\<close>

type_synonym 'm parser = "string \<Rightarrow> 'm result"

record 'm frontMatterType =
  FenceOpen :: string
  FenceClose :: "string list"
  ParseFunc :: "'m parser"

definition jsonFrontMatter :: "'m parser \<Rightarrow> 'm parser" where
  "jsonFrontMatter unmarshal input = unmarshal (''{'' @ input @ ''}'')"

definition supportedFrontMatterTypes :: "'m parser \<Rightarrow> 'm parser \<Rightarrow> 'm parser \<Rightarrow> 'm frontMatterType list" where
  "supportedFrontMatterTypes yaml toml json =
     [\<lparr>FenceOpen = ''---'', FenceClose = [''---'', ''...''], ParseFunc = yaml\<rparr>,
      \<lparr>FenceOpen = ''+++'', FenceClose = [''+++''], ParseFunc = toml\<rparr>,
      \<lparr>FenceOpen = ''{'', FenceClose = [''}''], ParseFunc = jsonFrontMatter json\<rparr>]"

lemma decode_rune_pos: "(b, n) = decode_rune s \<Longrightarrow> 0 < n"
  by (metis decode_rune_width snd_conv)

text \<open>The loop over the runes of the input; it gives the bounds of the line.\<close>

function first_line_loop :: "string \<Rightarrow> nat \<Rightarrow> nat \<Rightarrow> nat \<Rightarrow> bool \<Rightarrow> nat \<times> nat" where
  "first_line_loop s i lineStart lineEnd lineEmpty =
     (if s = [] then (lineStart, lineEnd)
      else let (b, n) = decode_rune s in
        if b = 10 then
          (let lineStart = (if lineEnd > 0 then lineEnd + 1 else lineEnd) in
           if \<not> lineEmpty then (lineStart, i) else first_line_loop (drop n s) (i + n) lineStart i lineEmpty)
        else first_line_loop (drop n s) (i + n) lineStart lineEnd (lineEmpty \<and> IsSpace b))"
  by pat_completeness auto
termination
  by (relation "measure (\<lambda>(s, _). length s)") (auto dest: decode_rune_pos)

declare first_line_loop.simps [simp del]

definition slice :: "string \<Rightarrow> nat \<Rightarrow> nat \<Rightarrow> string panics" where
  "slice s a b = (if a \<le> b \<and> b \<le> length s then Inr (take (b - a) (drop a s)) else Inl ''slice bounds out of range'')"

text \<open>The loop over the supported types has no \<^verbatim>\<open>break\<close>: the last one that fits is taken.\<close>

definition find_type :: "'m frontMatterType list \<Rightarrow> string \<Rightarrow> 'm frontMatterType option" where
  "find_type types firstLine = foldl (\<lambda>found ty. if firstLine = FenceOpen ty then Some ty else found) None types"

fun find_fence :: "string list \<Rightarrow> string \<Rightarrow> (nat \<times> string) option" where
  "find_fence [] rest = None"
| "find_fence (fence # fences) rest =
     (case Index rest (newline # fence) of Some index \<Rightarrow> Some (index, fence) | None \<Rightarrow> find_fence fences rest)"

definition extractFrontMatter :: "'m frontMatterType list \<Rightarrow> string \<Rightarrow> ('m option \<times> string) result panics" where
  "extractFrontMatter types input =
     (let (firstLineStart, firstLineEnd) = first_line_loop input 0 0 0 True in
      case slice input firstLineStart firstLineEnd of
        Inl p \<Rightarrow> Inl p
      | Inr line \<Rightarrow>
          (case find_type types (TrimSpace line) of
             None \<Rightarrow> Inr (Inr (None, input))
           | Some ty \<Rightarrow>
               (case slice input firstLineEnd (length input) of
                  Inl p \<Rightarrow> Inl p
                | Inr rest \<Rightarrow>
                    (case find_fence (FenceClose ty) rest of
                       None \<Rightarrow> Inr (Inl (ErrMsg ''unterminated front matter''))
                     | Some (index, fence) \<Rightarrow>
                         (let fmEndFenceStart = index + firstLineEnd + 1 in
                          case slice input firstLineEnd fmEndFenceStart of
                            Inl p \<Rightarrow> Inl p
                          | Inr frontMatter \<Rightarrow>
                              (case ParseFunc ty frontMatter of
                                 Inl err \<Rightarrow> Inr (Inl err)
                               | Inr fm \<Rightarrow>
                                   (case slice input (fmEndFenceStart + length fence) (length input) of
                                      Inl p \<Rightarrow> Inl p
                                    | Inr body \<Rightarrow> Inr (Inr (Some fm, body)))))))))"

record 'm parsedMarkdownDoc =
  Meta :: "'m option"
  Body :: string

definition FuncSplitFrontMatter :: "'m frontMatterType list \<Rightarrow> string \<Rightarrow> 'm parsedMarkdownDoc result panics" where
  "FuncSplitFrontMatter types input =
     map_sum id (map_sum id (\<lambda>(meta, body). \<lparr>Meta = meta, Body = body\<rparr>)) (extractFrontMatter types input)"

section \<open>The first line\<close>

text \<open>The bounds the loop gives are in order and within the input.\<close>

lemma first_line_loop_bounds:
  "lineStart \<le> lineEnd \<Longrightarrow> lineEnd \<le> i \<Longrightarrow> lineEnd = i \<longrightarrow> i = 0 \<Longrightarrow> first_line_loop s i lineStart lineEnd lineEmpty = (a, b) \<Longrightarrow>
   a \<le> b \<and> b \<le> i + length s"
proof (induction s i lineStart lineEnd lineEmpty rule: first_line_loop.induct)
  case (1 s i lineStart lineEnd lineEmpty)
  show ?case
  proof (cases "s = []")
    case True
    with "1.prems" show ?thesis by (simp add: first_line_loop.simps)
  next
    case False
    obtain r n where d: "decode_rune s = (r, n)" by force
    have n: "0 < n" "n \<le> length s" using decode_rune_width [of s] decode_rune_width_le [OF False] d by simp_all
    let ?start = "if lineEnd > 0 then lineEnd + 1 else lineEnd"
    have start: "?start \<le> i" using "1.prems"(2,3) by auto
    show ?thesis
    proof (cases "r = 10")
      case nl: True
      show ?thesis
      proof (cases lineEmpty)
        case True
        have step: "first_line_loop (drop n s) (i + n) ?start i lineEmpty = (a, b)"
          using "1.prems"(4) False d nl True by (subst (asm) first_line_loop.simps) (simp add: Let_def)
        have "a \<le> b \<and> b \<le> i + n + length (drop n s)"
          by (rule "1.IH"(1) [OF False d [symmetric] refl nl refl _ start _ _ step]) (use True n in simp_all)
        with n show ?thesis by simp
      next
        case False
        with "1.prems"(4) \<open>s \<noteq> []\<close> d nl start show ?thesis by (subst (asm) first_line_loop.simps) (simp add: Let_def)
      qed
    next
      case other: False
      have step: "first_line_loop (drop n s) (i + n) lineStart lineEnd (lineEmpty \<and> IsSpace r) = (a, b)"
        using "1.prems"(4) False d other by (subst (asm) first_line_loop.simps) (simp add: Let_def)
      have "a \<le> b \<and> b \<le> i + n + length (drop n s)"
        by (rule "1.IH"(2) [OF False d [symmetric] refl other _ _ _ step]) (use "1.prems" n in simp_all)
      with n show ?thesis by simp
    qed
  qed
qed

section \<open>What extraction guarantees\<close>

lemma find_fence_Some: "find_fence fences rest = Some (i, f) \<Longrightarrow> f \<in> set fences \<and> Index rest (newline # f) = Some i"
  by (induction fences) (auto split: option.splits)

lemma find_type_Some: "find_type types l = Some ty \<Longrightarrow> ty \<in> set types \<and> FenceOpen ty = l"
  unfolding find_type_def by (induction types rule: rev_induct) (auto split: if_splits)

lemma slice_ok: "a \<le> b \<Longrightarrow> b \<le> length s \<Longrightarrow> slice s a b = Inr (take (b - a) (drop a s))"
  by (simp add: slice_def)

lemma Index_splits:
  assumes "Index s p = Some i"
  shows "s = take i s @ p @ drop (i + length p) s"
proof -
  have "drop i s = take (length p) (drop i s) @ drop (length p) (drop i s)" by (rule append_take_drop_id [symmetric])
  also have "\<dots> = p @ drop (i + length p) s" using Index_Some [OF assms] by (simp add: add_ac)
  finally show ?thesis by (metis append_take_drop_id)
qed

lemma extractFrontMatter_block:
  assumes l: "first_line_loop input 0 0 0 True = (a, b)" and ty: "find_type types (TrimSpace (take (b - a) (drop a input))) = Some ty"
    and fence: "find_fence (FenceClose ty) (drop b input) = Some (i, f)"
  obtains before line front body where "input = before @ line @ front @ newline # f @ body" and "TrimSpace line = FenceOpen ty"
    and "extractFrontMatter types input = Inr (map_sum id (\<lambda>m. (Some m, body)) (ParseFunc ty (front @ [newline])))"
proof -
  let ?line = "take (b - a) (drop a input)" and ?rest = "drop b input"
  let ?front = "take (Suc i) ?rest" and ?body = "drop (i + Suc (length f)) ?rest"
  have ab: "a \<le> b" "b \<le> length input" using first_line_loop_bounds [OF _ _ _ l] by simp_all
  have f: "Index ?rest (newline # f) = Some i" using find_fence_Some [OF fence] by simp
  have bound: "i + Suc (length f) \<le> length ?rest" using Index_Some [OF f] by simp
  have rest: "?rest = take i ?rest @ newline # f @ ?body" by (rule Index_splits [OF f, unfolded append_Cons length_Cons])
  have front: "?front = take i ?rest @ [newline]" by (subst rest) (use bound in simp)
  have "input = take a input @ ?line @ ?rest" using ab by (metis append_assoc append_take_drop_id le_add_diff_inverse take_add)
  then have input: "input = take a input @ ?line @ take i ?rest @ newline # f @ ?body" using rest by simp
  have "slice input b (Suc (i + b)) = Inr ?front" "slice input (Suc (i + b + length f)) (length input) = Inr ?body"
    using bound ab by (simp_all add: slice_def add_ac)
  then have "extractFrontMatter types input = Inr (map_sum id (\<lambda>m. (Some m, ?body)) (ParseFunc ty ?front))"
    using ab by (simp add: extractFrontMatter_def l slice_ok ty fence split: sum.split)
  from that [OF input _ this [unfolded front]] find_type_Some [OF ty] show ?thesis by simp
qed

text \<open>C16. \<^verbatim>\<open>extractFrontMatter\<close> never panics, whatever bytes it is given. Without an opening fence the whole input is the body. When there is
  metadata, the input consists of some first part, the line that opens the block, the text the parser is given up to a line break,
  a closing fence of the type that was opened and the body, in this order and with nothing lost. The only error of its own is the missing fence.\<close>

theorem extractFrontMatter_splits:
  "\<exists>r. extractFrontMatter types input = Inr r \<and>
     (case r of
        Inr (None, body) \<Rightarrow> body = input
      | Inr (Some m, body) \<Rightarrow>
          (\<exists>ty \<in> set types. \<exists>fence \<in> set (FenceClose ty). \<exists>before line front.
             input = before @ line @ front @ newline # fence @ body \<and> TrimSpace line = FenceOpen ty
             \<and> ParseFunc ty (front @ [newline]) = Inr m)
      | Inl e \<Rightarrow> e = ErrMsg ''unterminated front matter'' \<or> (\<exists>ty \<in> set types. \<exists>front. ParseFunc ty front = Inl e))"
proof -
  obtain a b where l: "first_line_loop input 0 0 0 True = (a, b)" by force
  have ab: "a \<le> b" "b \<le> length input" using first_line_loop_bounds [OF _ _ _ l] by simp_all
  let ?line = "take (b - a) (drop a input)" and ?rest = "drop b input"
  have s1: "slice input a b = Inr ?line" "slice input b (length input) = Inr ?rest" using ab by (simp_all add: slice_ok)
  note defs = extractFrontMatter_def l s1
  show ?thesis
  proof (cases "find_type types (TrimSpace ?line)")
    case None
    then show ?thesis by (simp add: defs)
  next
    case (Some ty)
    note ty = find_type_Some [OF Some]
    show ?thesis
    proof (cases "find_fence (FenceClose ty) ?rest")
      case None
      then show ?thesis by (simp add: defs Some)
    next
      case (Some x)
      obtain i f where x: "x = (i, f)" by force
      have f: "f \<in> set (FenceClose ty)" using find_fence_Some Some x by simp
      obtain before line front body where input: "input = before @ line @ front @ newline # f @ body" "TrimSpace line = FenceOpen ty"
        and r: "extractFrontMatter types input = Inr (map_sum id (\<lambda>m. (Some m, body)) (ParseFunc ty (front @ [newline])))"
        by (rule extractFrontMatter_block [OF l \<open>find_type types (TrimSpace ?line) = Some ty\<close> Some [unfolded x]])
      show ?thesis
      proof (cases "ParseFunc ty (front @ [newline])")
        case (Inl e)
        then show ?thesis unfolding r using ty by auto
      next
        case (Inr m)
        with input ty f have "\<exists>ty \<in> set types. \<exists>fence \<in> set (FenceClose ty). \<exists>before line front.
            input = before @ line @ front @ newline # fence @ body \<and> TrimSpace line = FenceOpen ty
            \<and> ParseFunc ty (front @ [newline]) = Inr m" by blast
        then show ?thesis by (simp add: r Inr)
      qed
    qed
  qed
qed

section \<open>Round trip\<close>

definition blank :: "char \<Rightarrow> bool" where
  "blank c \<longleftrightarrow> byte_val c \<in> {0x09, 0x0B, 0x0C, 0x0D, 0x20}"

lemma blank_facts: "blank c \<Longrightarrow> decode_rune (c # s) = (byte_val c, 1)" "blank c \<Longrightarrow> IsSpace (byte_val c)" "blank c \<Longrightarrow> byte_val c \<noteq> 10"
  by (auto simp: blank_def decode_rune_ascii IsSpace_def)

lemma newline_facts: "byte_val newline = 10" "decode_rune (newline # s) = (10, 1)"
  by (simp_all add: byte_val_of_char decode_rune_ascii)

lemma TrimLeft_blank: "blank c \<or> c = newline \<Longrightarrow> TrimLeft (c # s) = TrimLeft s"
  by (rule TrimLeft_space) (auto simp: blank_def newline_facts)

lemma TrimRight_blank: "\<forall>c \<in> set t. blank c \<Longrightarrow> TrimRight (s @ t) = TrimRight s"
proof (induction t rule: rev_induct)
  case (snoc c t)
  have "TrimRight (s @ t @ [c]) = TrimRight (s @ t)"
    using TrimRight_space [of c "s @ t"] snoc.prems by (auto simp: blank_def)
  with snoc show ?case by simp
qed simp

text \<open>Blank lines before the first line, and the first line.\<close>

lemma loop_blanks:
  "\<forall>c \<in> set t. blank c \<Longrightarrow> first_line_loop (t @ s) i a e lineEmpty = first_line_loop s (i + length t) a e lineEmpty"
proof (induction t arbitrary: i)
  case (Cons c t)
  then show ?case by (subst first_line_loop.simps) (simp add: blank_facts)
qed simp

definition line_char :: "char \<Rightarrow> bool" where
  "line_char c \<longleftrightarrow> byte_val c < 128 \<and> c \<noteq> newline"

lemma line_char_facts: "line_char c \<Longrightarrow> decode_rune (c # s) = (byte_val c, 1)" "line_char c \<Longrightarrow> byte_val c \<noteq> 10"
proof -
  show "decode_rune (c # s) = (byte_val c, 1)" if "line_char c" using that by (simp add: line_char_def decode_rune_ascii)
  show "byte_val c \<noteq> 10" if "line_char c"
  proof
    assume "byte_val c = 10"
    then have "c = newline" by (metis byte_val_of_char newline_facts(1) of_char_eq_iff)
    with that show False by (simp add: line_char_def)
  qed
qed

lemma loop_line:
  "\<forall>c \<in> set t. line_char c \<Longrightarrow> first_line_loop (t @ newline # s) i a e False = ((if e > 0 then e + 1 else e), i + length t)"
proof (induction t arbitrary: i)
  case Nil
  then show ?case by (subst first_line_loop.simps) (simp add: newline_facts Let_def)
next
  case (Cons c t)
  then show ?case by (subst first_line_loop.simps) (simp add: line_char_facts)
qed

text \<open>\<open>pre\<close> is a sequence of blank lines, each with its line break.\<close>

fun blank_lines :: "string list \<Rightarrow> string" where
  "blank_lines [] = ''''"
| "blank_lines (l # ls) = l @ newline # blank_lines ls"

lemma loop_blank_lines:
  "\<forall>l \<in> set ls. \<forall>c \<in> set l. blank c \<Longrightarrow> ls \<noteq> [] \<Longrightarrow>
   \<exists>a'. first_line_loop (blank_lines ls @ s) i a e True
     = first_line_loop s (i + length (blank_lines ls)) a' (i + length (blank_lines ls) - 1) True"
proof (induction ls arbitrary: i a e)
  case (Cons l ls)
  let ?a = "if e > 0 then e + 1 else e" and ?i = "i + length l"
  have "first_line_loop (blank_lines (l # ls) @ s) i a e True = first_line_loop (newline # blank_lines ls @ s) ?i a e True"
    using Cons.prems(1) loop_blanks [of l "newline # blank_lines ls @ s" i a e True] by simp
  also have "\<dots> = first_line_loop (blank_lines ls @ s) (Suc ?i) ?a ?i True"
    by (subst first_line_loop.simps) (simp add: newline_facts Let_def)
  finally have 1: "first_line_loop (blank_lines (l # ls) @ s) i a e True = first_line_loop (blank_lines ls @ s) (Suc ?i) ?a ?i True" .
  show ?case
  proof (cases "ls = []")
    case True
    with 1 show ?thesis by auto
  next
    case False
    from Cons.IH [OF _ False, of "Suc ?i" ?a ?i] Cons.prems(1)
    obtain a' where "first_line_loop (blank_lines ls @ s) (Suc ?i) ?a ?i True
        = first_line_loop s (Suc ?i + length (blank_lines ls)) a' (Suc ?i + length (blank_lines ls) - 1) True" by auto
    with 1 show ?thesis by (auto simp: add_ac)
  qed
qed simp

lemma blank_line_char: "blank c \<Longrightarrow> line_char c"
  by (auto simp: blank_def line_char_def newline_facts)

text \<open>The bounds of a first line \<open>fence @ trail\<close> behind blank lines; a line break at position 0 is not skipped.\<close>

lemma first_line_bounds:
  assumes "\<forall>l \<in> set ls. \<forall>c \<in> set l. blank c" and "printable (hd fence)" and "fence \<noteq> []" and "\<forall>c \<in> set fence. line_char c" and "\<forall>c \<in> set trail. blank c"
  shows "first_line_loop (blank_lines ls @ fence @ trail @ newline # s) 0 0 0 True
     = (if ls = [[]] then 0 else length (blank_lines ls), length (blank_lines ls) + length fence + length trail)"
proof -
  obtain c fs where fence: "fence = c # fs" using assms(3) by (cases fence) auto
  let ?tail = "fs @ trail @ newline # s"
  have line: "\<forall>x \<in> set (fs @ trail). line_char x" using assms(4,5) blank_line_char by (auto simp: fence)
  have head: "first_line_loop (c # ?tail) i a e True = ((if e > 0 then e + 1 else e), Suc i + length (fs @ trail))" for i a e
    using loop_line [OF line, of s "Suc i" a e] assms(2,4)
    by (subst first_line_loop.simps) (simp add: fence line_char_facts IsSpace_printable)
  show ?thesis
  proof (cases "ls = []")
    case True
    then show ?thesis using head [of 0 0 0] by (simp add: fence)
  next
    case False
    obtain a' where "first_line_loop (blank_lines ls @ c # ?tail) 0 0 0 True
        = first_line_loop (c # ?tail) (length (blank_lines ls)) a' (length (blank_lines ls) - 1) True"
      using loop_blank_lines [OF assms(1) False, of "c # ?tail" 0 0 0] by auto
    moreover have "length (blank_lines ls) - 1 > 0 \<longleftrightarrow> ls \<noteq> [[]]"
      using False by (cases ls; cases "tl ls"; cases "hd ls") simp_all
    moreover have "0 < length (blank_lines ls)" using False by (cases ls) simp_all
    ultimately show ?thesis using head by (auto simp: fence)
  qed
qed

lemma TrimSpace_line:
  assumes "fence \<noteq> []" and "printable (hd fence)" and "printable (last fence)" and "\<forall>c \<in> set trail. blank c"
  shows "TrimSpace (fence @ trail) = fence" and "TrimSpace (newline # fence @ trail) = fence"
proof -
  have l: "TrimLeft (fence @ trail) = fence @ trail" using assms(1,2) by (cases fence) (simp_all add: TrimLeft_printable)
  moreover have "TrimRight (fence @ trail) = fence"
    using TrimRight_blank [OF assms(4)] assms(1,3) TrimRight_printable [of "last fence" "butlast fence"] by simp
  ultimately show "TrimSpace (fence @ trail) = fence" and "TrimSpace (newline # fence @ trail) = fence"
    by (simp_all add: TrimSpace_def TrimLeft_blank)
qed

lemma Index_fence:
  assumes "\<forall>j \<le> length fm. \<not> prefix (newline # close) (drop j (newline # fm @ newline # close))"
  shows "Index (newline # fm @ newline # close @ body) (newline # close) = Some (Suc (length fm))"
proof (rule Index_eqI)
  show "prefix (newline # close) (drop (Suc (length fm)) (newline # fm @ newline # close @ body))" by simp
  fix j assume j: "j < Suc (length fm)"
  show "\<not> prefix (newline # close) (drop j (newline # fm @ newline # close @ body))"
  proof
    assume "prefix (newline # close) (drop j (newline # fm @ newline # close @ body))"
    then have "prefix (newline # close) (drop j (newline # fm @ newline # close) @ body)"
      using j by (simp add: drop_Cons' split: if_splits)
    moreover have "length (newline # close) \<le> length (drop j (newline # fm @ newline # close))" using j by simp
    ultimately have "prefix (newline # close) (drop j (newline # fm @ newline # close))" by (metis prefixI prefix_length_prefix)
    with assms j show False by simp
  qed
qed

lemma supported_fences:
  assumes "ty \<in> set (supportedFrontMatterTypes yaml toml json)"
  shows "find_type (supportedFrontMatterTypes yaml toml json) (FenceOpen ty) = Some ty" "FenceOpen ty \<noteq> []"
    "printable (hd (FenceOpen ty))" "printable (last (FenceOpen ty))" "\<forall>c \<in> set (FenceOpen ty). line_char c" "FenceClose ty \<noteq> []"
  using assms by (auto simp: supportedFrontMatterTypes_def find_type_def printable_def line_char_def byte_val_of_char)

lemma extractFrontMatter_unfold:
  assumes "ty \<in> set (supportedFrontMatterTypes yaml toml json)" and "\<forall>l \<in> set ls. \<forall>c \<in> set l. blank c" and "\<forall>c \<in> set trail. blank c"
    and "close = hd (FenceClose ty)"
    and "\<forall>j \<le> length fm. \<not> prefix (newline # close) (drop j (newline # fm @ newline # close))"
  shows "extractFrontMatter (supportedFrontMatterTypes yaml toml json)
      (blank_lines ls @ FenceOpen ty @ trail @ newline # fm @ newline # close @ body)
    = Inr (map_sum id (\<lambda>m. (Some m, body)) (ParseFunc ty (newline # fm @ [newline])))"
proof -
  let ?types = "supportedFrontMatterTypes yaml toml json" and ?fence = "FenceOpen ty"
  let ?rest = "newline # fm @ newline # close @ body"
  let ?input = "blank_lines ls @ ?fence @ trail @ ?rest"
  let ?b = "length (blank_lines ls) + length ?fence + length trail"
  note sup = supported_fences [OF assms(1)]
  have loop: "first_line_loop ?input 0 0 0 True = (if ls = [[]] then 0 else length (blank_lines ls), ?b)"
    by (rule first_line_bounds [OF assms(2) sup(3,2,5) assms(3)])
  have line: "slice ?input (if ls = [[]] then 0 else length (blank_lines ls)) ?b = Inr ((if ls = [[]] then [newline] else []) @ ?fence @ trail)"
    by (auto simp: slice_def)
  have trim: "TrimSpace ((if ls = [[]] then [newline] else []) @ ?fence @ trail) = ?fence"
    using TrimSpace_line [OF sup(2-4) assms(3)] by simp
  have rest: "slice ?input ?b (length ?input) = Inr ?rest" by (simp add: slice_def)
  obtain fences where close: "FenceClose ty = close # fences" using sup(6) assms(4) by (cases "FenceClose ty") auto
  have fence: "find_fence (FenceClose ty) ?rest = Some (Suc (length fm), close)" unfolding close by (simp add: Index_fence [OF assms(5)] del: Index.simps)
  have front: "slice ?input ?b (Suc (length fm) + ?b + 1) = Inr (newline # fm @ [newline])" by (simp add: slice_def)
  have body: "slice ?input (Suc (length fm) + ?b + 1 + length close) (length ?input) = Inr body" by (simp add: slice_def)
  show ?thesis
    unfolding extractFrontMatter_def loop Let_def prod.case line sum.case trim sup(1) option.case rest fence front
    by (cases "ParseFunc ty (newline # fm @ [newline])") (simp_all add: body [simplified])
qed

text \<open>C15. A document with front matter is taken apart again: blank lines, an opening fence of any of the three types (perhaps with white space
  behind it, as a carriage return), the metadata, the closing fence on a line of its own and the body. The parser gets exactly the
  metadata with the line breaks around it, and the body comes back unchanged. The metadata may not contain a line that starts
  with the fence.\<close>

theorem extractFrontMatter_roundtrip:
  assumes "ty \<in> set (supportedFrontMatterTypes yaml toml json)" and "\<forall>l \<in> set ls. \<forall>c \<in> set l. blank c" and "\<forall>c \<in> set trail. blank c"
    and "close = hd (FenceClose ty)"
    and "\<forall>j \<le> length fm. \<not> prefix (newline # close) (drop j (newline # fm @ newline # close))"
  shows "extractFrontMatter (supportedFrontMatterTypes yaml toml json)
      (blank_lines ls @ FenceOpen ty @ trail @ newline # fm @ newline # close @ body)
    = Inr (map_sum id (\<lambda>m. (Some m, body)) (ParseFunc ty (newline # fm @ [newline])))"
  by (rule extractFrontMatter_unfold [OF assms])

text \<open>
  The order of the two closing fences of YAML: \<^verbatim>\<open>---\<close> is looked for in the whole rest of the document before \<^verbatim>\<open>...\<close> is. A block closed with
  \<^verbatim>\<open>...\<close> whose body has a line of dashes later gives the parser part of the body.
\<close>

lemma yaml_dots_swallow_body:
  assumes "\<forall>j \<le> length (fm @ newline # ''...'' @ text). \<not> prefix (newline # ''---'') (drop j (newline # (fm @ newline # ''...'' @ text) @ newline # ''---''))"
  shows "extractFrontMatter (supportedFrontMatterTypes yaml toml json) (''---'' @ newline # (fm @ newline # ''...'' @ text) @ newline # ''---'' @ later)
    = Inr (map_sum id (\<lambda>m. (Some m, later)) (yaml (newline # (fm @ newline # ''...'' @ text) @ [newline])))"
proof -
  let ?ty = "\<lparr>FenceOpen = ''---'', FenceClose = [''---'', ''...''], ParseFunc = yaml\<rparr>"
  have mem: "?ty \<in> set (supportedFrontMatterTypes yaml toml json)" by (simp add: supportedFrontMatterTypes_def)
  show ?thesis using extractFrontMatter_unfold [OF mem, of "[]" "[]" "''---''" "fm @ newline # ''...'' @ text" later] assms by simp
qed

section \<open>Examples\<close>

text \<open>A parser that gives back what it reads, and one that always fails.\<close>

abbreviation echo_types :: "string frontMatterType list" where
  "echo_types \<equiv> supportedFrontMatterTypes Inr Inr (\<lambda>_. Inl (ErrMsg ''bad json''))"

lemma extractFrontMatter_roundtrip_witness:
  "extractFrontMatter echo_types (newline # ''+++'' @ CHR 0x0D # newline # ''a = 1'' @ newline # ''+++'' @ newline # ''text'')
     = Inr (Inr (Some (newline # ''a = 1'' @ [newline]), newline # ''text''))"
proof -
  let ?ty = "\<lparr>FenceOpen = ''+++'', FenceClose = [''+++''], ParseFunc = Inr\<rparr> :: string frontMatterType"
  have mem: "?ty \<in> set echo_types" by (simp add: supportedFrontMatterTypes_def)
  have blank: "\<forall>l \<in> set [''''] . \<forall>c \<in> set l. blank c" "\<forall>c \<in> set [CHR 0x0D]. blank c" by (simp_all add: blank_def byte_val_of_char)
  have close: "''+++'' = hd (FenceClose ?ty)" by simp
  have free: "\<forall>j \<le> length ''a = 1''. \<not> prefix (newline # ''+++'') (drop j (newline # ''a = 1'' @ newline # ''+++''))"
    by (simp add: le_Suc_eq All_less_Suc numeral_eq_Suc)
  from extractFrontMatter_roundtrip [OF mem blank close free, of "newline # ''text''"] show ?thesis by simp
qed

end
