(* ===== verification/Funcs.thy ===== *)
theory Funcs
  imports Template FrontMatter
begin

text \<open>
  The functions of the package's template function map (\<^verbatim>\<open>funcs.go\<close>). The packages bluemonday, goldmark and go-humanize, the parsing of
  times and the formatting of \<^verbatim>\<open>fmt.Errorf\<close> are arguments; so is the type system of \<^verbatim>\<open>reflect\<close> that \<^verbatim>\<open>try\<close> and \<^verbatim>\<open>idx\<close> look at.
\<close>

text \<open>Strings that \<^verbatim>\<open>html/template\<close> does not escape, by the context they are trusted in.\<close>

datatype trusted = HTML string | HTMLAttr string | JS string | JSStr string | Srcset string

section \<open>Policies for HTML and configurations for markdown\<close>

type_synonym policies = "(string \<times> (string \<Rightarrow> string)) list"

definition blueMondayPolicies :: "(string \<Rightarrow> string) \<Rightarrow> (string \<Rightarrow> string) \<Rightarrow> (string \<Rightarrow> string) \<Rightarrow> policies" where
  "blueMondayPolicies strict ugc externalugc = [(''strict'', strict), (''ugc'', ugc), (''externalugc'', externalugc)]"

text \<open>Both registries refuse a name they have by a panic, whose message also shows the old entry.\<close>

definition add_entry :: "string \<Rightarrow> string \<Rightarrow> 'a \<Rightarrow> (string \<times> 'a) list \<Rightarrow> (string \<times> 'a) list panics" where
  "add_entry what name entry m =
     (case map_of m name of
        Some old \<Rightarrow> Inl (what @ '' policy with name '' @ name @ '' already exists'')
      | None \<Rightarrow> Inr ((name, entry) # m))"

definition AddBlueMondayPolicy :: "string \<Rightarrow> (string \<Rightarrow> string) \<Rightarrow> policies \<Rightarrow> policies panics" where
  "AddBlueMondayPolicy name policy m = add_entry ''bluemonday'' name policy m"

definition FuncSanitizeHtml :: "policies \<Rightarrow> string \<Rightarrow> string \<Rightarrow> trusted result" where
  "FuncSanitizeHtml m policyName html =
     (case map_of m policyName of
        None \<Rightarrow> Inl (ErrMsg (''failed to find policy name '' @ single_quoted policyName))
      | Some sanitize \<Rightarrow> Inr (HTML (sanitize html)))"

text \<open>\<^verbatim>\<open>Convert\<close> appends to a buffer and may fail after having written.\<close>

type_synonym markdown = "string \<Rightarrow> string \<Rightarrow> string \<times> gerror option"
type_synonym mdConfigs = "(string \<times> markdown) list"

text \<open>The options the two configurations are made with; \<open>gm\<close> is \<^verbatim>\<open>goldmark.New\<close>.\<close>

datatype mdExtension = GFM | Footnote | Highlighting bool

datatype mdOption = WithExtensions "mdExtension list" | WithAutoHeadingID | WithUnsafe

definition mdOpts :: "mdOption list" where
  "mdOpts = [WithExtensions [GFM, Footnote, Highlighting True], WithAutoHeadingID]"

definition markdownConfigs :: "(mdOption list \<Rightarrow> markdown) \<Rightarrow> mdConfigs" where
  "markdownConfigs gm = [(''default'', gm mdOpts), (''unsafe'', gm (mdOpts @ [WithUnsafe]))]"

definition AddMarkdownConifg :: "string \<Rightarrow> markdown \<Rightarrow> mdConfigs \<Rightarrow> mdConfigs panics" where
  "AddMarkdownConifg name md m = add_entry ''markdown'' name md m"

definition FuncMarkdown :: "mdConfigs \<Rightarrow> string \<Rightarrow> string list \<Rightarrow> 'd world \<Rightarrow> trusted result \<times> 'd world" where
  "FuncMarkdown m input configName w =
     (case (case configName of [] \<Rightarrow> Inr ''default'' | [c] \<Rightarrow> Inr c | _ \<Rightarrow> Inl (ErrMsg ''too many configName arguments provided'')) of
        Inl e \<Rightarrow> (Inl e, w)
      | Inr config \<Rightarrow>
          (case map_of m config of
             None \<Rightarrow> (Inl (ErrMsg (''unknown markdown config name: '' @ config)), w)
           | Some md \<Rightarrow>
               (let (b0, w1) = bufPool_Get w; buf = Reset b0 in
                case md input buf of
                  (buf', Some err) \<Rightarrow> (Inl err, bufPool_Put buf' w1)
                | (buf', None) \<Rightarrow> (Inr (HTML buf'), bufPool_Put buf' w1))))"

section \<open>Small functions\<close>

definition FuncReturn :: "string \<times> gerror option" where
  "FuncReturn = ('''', Some ReturnError)"

definition FuncFailf :: "(string \<Rightarrow> any list \<Rightarrow> gerror) \<Rightarrow> string \<Rightarrow> any list \<Rightarrow> string \<times> gerror option" where
  "FuncFailf errorf format args = ('''', Some (errorf format args))"

definition FuncTrustHtml :: "string \<Rightarrow> trusted" where "FuncTrustHtml s = HTML s"
definition FuncTrustAttr :: "string \<Rightarrow> trusted" where "FuncTrustAttr s = HTMLAttr s"
definition FuncTrustJS :: "string \<Rightarrow> trusted" where "FuncTrustJS s = JS s"
definition FuncTrustJSStr :: "string \<Rightarrow> trusted" where "FuncTrustJSStr s = JSStr s"
definition FuncTrustSrcSet :: "string \<Rightarrow> trusted" where "FuncTrustSrcSet s = Srcset s"

text \<open>\<open>arr\<close> is the elements of an array, slice or string, \<open>None\<close> a value of another kind.\<close>

definition FuncIdx :: "int \<Rightarrow> any list option \<Rightarrow> any panics" where
  "FuncIdx idx arr =
     (case arr of
        None \<Rightarrow> Inl ''reflect: call of reflect.Value.Index''
      | Some xs \<Rightarrow> (if 0 \<le> idx \<and> idx < int (length xs) then Inr (xs ! nat idx) else Inl ''reflect: slice index out of range''))"

section \<open>humanize\<close>

text \<open>\<open>bytes\<close> is \<^verbatim>\<open>humanize.Bytes\<close>; \<open>reltime\<close> is \<^verbatim>\<open>time.Parse\<close> with a layout followed by \<^verbatim>\<open>humanize.Time\<close>. The reason why a
  number cannot be parsed is left out of the message.\<close>

definition RFC1123Z :: string where
  "RFC1123Z = ''Mon, 02 Jan 2006 15:04:05 -0700''"

definition FuncHumanize ::
  "(int \<Rightarrow> string) \<Rightarrow> (string \<Rightarrow> string \<Rightarrow> string result) \<Rightarrow> string \<Rightarrow> string \<Rightarrow> string result" where
  "FuncHumanize bytes reltime formatType data =
     (let parts = Split formatType (CHR 0x3A) in
      if hd parts = ''size'' then
        (case ParseUint data of
           None \<Rightarrow> Inl (ErrMsg ''humanize: size cannot be parsed'')
         | Some n \<Rightarrow> Inr (bytes n))
      else if hd parts = ''time'' then
        (let timelayout = (if 1 < length parts then drop (length (hd parts) + 1) formatType else RFC1123Z) in
         case reltime timelayout data of
           Inl e \<Rightarrow> Inl (Opaquef ''humanize: time cannot be parsed'' e)
         | Inr s \<Rightarrow> Inr s)
      else Inl (ErrMsg ''no know function was given''))"

text \<open>A layout is everything behind the first colon, colons included; arguments of \<^verbatim>\<open>size\<close> are ignored.\<close>

lemma FuncHumanize_layout:
  "FuncHumanize bytes reltime (''time:'' @ layout) data = map_sum (Opaquef ''humanize: time cannot be parsed'') id (reltime layout data)"
  "FuncHumanize bytes reltime ''time'' data = map_sum (Opaquef ''humanize: time cannot be parsed'') id (reltime RFC1123Z data)"
proof -
  have s: "Split (''time'' @ CHR 0x3A # layout) (CHR 0x3A) = ''time'' # Split layout (CHR 0x3A)" by (rule Split_append) simp
  show "FuncHumanize bytes reltime (''time:'' @ layout) data = map_sum (Opaquef ''humanize: time cannot be parsed'') id (reltime layout data)"
    using s by (simp add: FuncHumanize_def Let_def split: sum.split)
  have "Split ''time'' (CHR 0x3A) = [''time'']" by (rule Split_no_sep) simp
  then show "FuncHumanize bytes reltime ''time'' data = map_sum (Opaquef ''humanize: time cannot be parsed'') id (reltime RFC1123Z data)"
    by (simp add: FuncHumanize_def Let_def split: sum.split)
qed

section \<open>try\<close>

text \<open>
  A function value as \<^verbatim>\<open>reflect\<close> sees it: the types of its parameters, the element type of a variadic last one (whose type in \<open>f_in\<close> is the slice),
  the types of its results, and what a call gives: a value and an error, of which the first is meaningless for one result.
\<close>

record gofunc =
  f_isNil :: bool
  f_in :: "nat list"
  f_variadic :: "nat option"
  f_out :: "nat list"
  f_call :: "any list \<Rightarrow> (any \<times> gerror option) panics"

record reflectEnv =
  re_type :: "any \<Rightarrow> nat"
  re_assignable :: "nat \<Rightarrow> nat \<Rightarrow> bool"
  re_zero :: "nat \<Rightarrow> any"
  re_error :: nat

datatype callee = CNil | CFunc gofunc | CValue "string \<Rightarrow> gofunc option"

record try_result =
  res_Value :: any
  res_Error :: "gerror option"

definition OK :: "try_result \<Rightarrow> bool" where
  "OK r \<longleftrightarrow> res_Error r = None"

text \<open>The function to call and its arguments.\<close>

definition resolve :: "callee \<Rightarrow> any list \<Rightarrow> (gofunc \<times> any list) result" where
  "resolve fn args =
     (case fn of
        CNil \<Rightarrow> Inl (ErrMsg ''nil func'')
      | CFunc f \<Rightarrow> Inr (f, args)
      | CValue methods \<Rightarrow>
          (case args of
             [] \<Rightarrow> Inl (ErrMsg ''not callable (no method name provided)'')
           | AStr methodName # rest \<Rightarrow>
               (case methods methodName of
                  Some f \<Rightarrow> Inr (f, rest)
                | None \<Rightarrow> Inl (ErrMsg ''not callable (method not found)''))
           | _ \<Rightarrow> Inl (ErrMsg ''not callable (non-string method name)'')))"

text \<open>The loop over the arguments: a nil becomes the zero value of the parameter's type.\<close>

fun reflect_args :: "reflectEnv \<Rightarrow> gofunc \<Rightarrow> nat \<Rightarrow> any list \<Rightarrow> (nat \<times> any) list panics" where
  "reflect_args re f i [] = Inr []"
| "reflect_args re f i (a # args) =
     (case (if a \<noteq> ANil then Inr (re_type re a, a)
            else if i < length (f_in f) then Inr (f_in f ! i, re_zero re (f_in f ! i))
            else Inl ''reflect: Func index out of bounds'') of
        Inl p \<Rightarrow> Inl p
      | Inr arg \<Rightarrow> map_sum id (Cons arg) (reflect_args re f (Suc i) args))"

text \<open>\<^verbatim>\<open>reflect.Value.Call\<close>.\<close>

definition param_types :: "gofunc \<Rightarrow> nat \<Rightarrow> nat list option" where
  "param_types f n =
     (case f_variadic f of
        None \<Rightarrow> (if n = length (f_in f) then Some (f_in f) else None)
      | Some elem \<Rightarrow> (if length (f_in f) \<le> n + 1 then Some (butlast (f_in f) @ replicate (n + 1 - length (f_in f)) elem) else None))"

definition reflect_Call :: "reflectEnv \<Rightarrow> gofunc \<Rightarrow> (nat \<times> any) list \<Rightarrow> (any \<times> gerror option) panics" where
  "reflect_Call re f args =
     (if f_isNil f then Inl ''reflect: call of nil function''
      else case param_types f (length args) of
        None \<Rightarrow> Inl ''reflect: Call with wrong number of input arguments''
      | Some ts \<Rightarrow>
          (if list_all2 (\<lambda>(t, _) t'. re_assignable re t t') args ts then f_call f (map snd args)
           else Inl ''reflect: Call using value of wrong type''))"

definition FuncTry :: "reflectEnv \<Rightarrow> callee \<Rightarrow> any list \<Rightarrow> try_result result panics" where
  "FuncTry re fn args =
     (case resolve fn args of
        Inl e \<Rightarrow> Inr (Inl e)
      | Inr (f, args) \<Rightarrow>
          (let n = length (f_out f) in
           if n \<noteq> 1 \<and> n \<noteq> 2 then Inr (Inl (ErrMsg (''cannot call func that has '' @ Itoa (int n) @ '' outputs'')))
           else if \<not> re_assignable re (f_out f ! (n - 1)) (re_error re) then Inr (Inl (ErrMsg ''cannot call func whose last arg is not error''))
           else case reflect_args re f 0 args of
             Inl p \<Rightarrow> Inl p
           | Inr rargs \<Rightarrow>
               (case reflect_Call re f rargs of
                  Inl p \<Rightarrow> Inl p
                | Inr (v, err) \<Rightarrow> Inr (Inr \<lparr>res_Value = (if 1 < n then v else ANil), res_Error = err\<rparr>))))"

text \<open>Arguments that fit the parameters of a function that is not variadic, and what it is then called with.\<close>

fun fits :: "reflectEnv \<Rightarrow> nat list \<Rightarrow> any list \<Rightarrow> bool" where
  "fits re [] [] \<longleftrightarrow> True"
| "fits re (t # ts) (a # as) \<longleftrightarrow> re_assignable re (if a = ANil then t else re_type re a) t \<and> fits re ts as"
| "fits re _ _ \<longleftrightarrow> False"

fun filled :: "reflectEnv \<Rightarrow> nat list \<Rightarrow> any list \<Rightarrow> any list" where
  "filled re (t # ts) (a # as) = (if a = ANil then re_zero re t else a) # filled re ts as"
| "filled re _ _ = []"

lemma reflect_args_fit:
  "fits re (drop i (f_in f)) args \<Longrightarrow> i \<le> length (f_in f) \<Longrightarrow>
   \<exists>rargs. reflect_args re f i args = Inr rargs \<and> map snd rargs = filled re (drop i (f_in f)) args
     \<and> list_all2 (\<lambda>(t, _) t'. re_assignable re t t') rargs (drop i (f_in f))"
proof (induction args arbitrary: i)
  case Nil
  then show ?case by (cases "drop i (f_in f)") simp_all
next
  case (Cons a args)
  then obtain t ts where d: "drop i (f_in f) = t # ts" by (cases "drop i (f_in f)") auto
  then have i: "i < length (f_in f)" "f_in f ! i = t" "drop (Suc i) (f_in f) = ts"
    by (metis drop_eq_Nil2 linorder_not_less list.distinct(1), metis nth_via_drop, metis drop_Suc list.sel(3) tl_drop)
  from Cons.IH [of "Suc i"] Cons.prems d i obtain rargs where r: "reflect_args re f (Suc i) args = Inr rargs"
      "map snd rargs = filled re ts args" "list_all2 (\<lambda>(t, _) t'. re_assignable re t t') rargs ts" by auto
  have ok: "re_assignable re (if a = ANil then t else re_type re a) t" using Cons.prems(1) d by simp
  show ?case
  proof (cases "a = ANil")
    case True
    then show ?thesis using r i ok d by (intro exI [of _ "(t, re_zero re t) # rargs"]) simp
  next
    case False
    then show ?thesis using r i ok d by (intro exI [of _ "(re_type re a, a) # rargs"]) simp
  qed
qed

definition good_signature :: "reflectEnv \<Rightarrow> gofunc \<Rightarrow> bool" where
  "good_signature re f \<longleftrightarrow> length (f_out f) \<in> {1, 2} \<and> re_assignable re (last (f_out f)) (re_error re)"

lemma good_signature_last: "length (f_out f) \<in> {1, 2} \<Longrightarrow> f_out f ! (length (f_out f) - 1) = last (f_out f)"
  by (subst last_conv_nth) auto


text \<open>
  A nil argument for a variadic parameter: \<^verbatim>\<open>try\<close> makes it the zero value of the slice type, which is not the element type; where slices
  cannot be elements, the call panics.
\<close>

lemma try_nil_variadic:
  assumes "resolve fn args = Inr (f, [ANil])" and "good_signature re f" and "\<not> f_isNil f" and "f_variadic f = Some elem"
    and "f_in f = [sl]" and "\<not> re_assignable re sl elem"
  shows "\<exists>p. FuncTry re fn args = Inl p"
proof -
  have sig: "length (f_out f) \<in> {1, 2}" "re_assignable re (last (f_out f)) (re_error re)" using assms(2) by (simp_all add: good_signature_def)
  have "reflect_Call re f [(sl, re_zero re sl)] = Inl ''reflect: Call using value of wrong type''"
    using assms by (simp add: reflect_Call_def param_types_def)
  with assms sig good_signature_last [OF sig(1)] show ?thesis by (auto simp: FuncTry_def Let_def)
qed

text \<open>What \<^verbatim>\<open>markdown\<close> answers does not depend on the buffer it is given, and the buffer goes back to the pool.\<close>

lemma FuncMarkdown_fresh:
  assumes "map_of m config = Some md" and "md input '''' = (html, err)"
  shows "FuncMarkdown m input [config] w = (case err of None \<Rightarrow> Inr (HTML html) | Some e \<Rightarrow> Inl e, bufPool_Put html (snd (bufPool_Get w)))"
  using assms by (simp add: FuncMarkdown_def Reset_def Let_def split: prod.split option.split)

text \<open>
  \<^verbatim>\<open>AddMarkdownConifg\<close> cannot make \<^verbatim>\<open>markdown\<close> without a name unsafe: the default renderer is made without that option, and entries stay.
\<close>

lemma markdown_default: "map_of (markdownConfigs gm) ''default'' = Some (gm mdOpts)" "WithUnsafe \<notin> set mdOpts"
  by (simp_all add: markdownConfigs_def mdOpts_def)

lemma AddMarkdownConifg_keeps: "AddMarkdownConifg name md m = Inr m' \<Longrightarrow> map_of m n = Some old \<Longrightarrow> map_of m' n = Some old"
  by (auto simp: AddMarkdownConifg_def add_entry_def split: option.splits)

lemma add_entry_lookup:
  "(\<exists>p. add_entry what name x m = Inl p) \<longleftrightarrow> name \<in> fst ` set m"
  "add_entry what name x m = Inr m' \<Longrightarrow> map_of m' n = (if n = name then Some x else map_of m n)"
  by (auto simp: add_entry_def map_of_eq_None_iff split: option.splits dest!: map_of_SomeD intro: rev_image_eqI)

section \<open>Examples\<close>

definition small_reflect :: reflectEnv where
  "small_reflect = \<lparr>re_type = (\<lambda>a. case a of AInt _ \<Rightarrow> 1 | AStr _ \<Rightarrow> 2 | _ \<Rightarrow> 0), re_assignable = (=), re_zero = (\<lambda>t. if t = 1 then AInt 0 else ANil), re_error = 9\<rparr>"

definition half :: gofunc where
  "half = \<lparr>f_isNil = False, f_in = [1], f_variadic = None, f_out = [1, 9],
     f_call = (\<lambda>as. case as of [AInt n] \<Rightarrow> Inr (AInt (n div 2), if n mod 2 = 0 then None else Some (ErrMsg ''odd'')) | _ \<Rightarrow> Inl ''type'')\<rparr>"


end
