(* ===== verification/Dot_Nats.thy ===== *)
theory Dot_Nats
  imports Go_Errors
begin

text \<open>
  The methods of the NATS provider (\<^verbatim>\<open>dot_nats.go\<close>) and of its key-value buckets (\<^verbatim>\<open>dot_kv.go\<close>). The client is an argument: \<open>'k\<close> is the state of the
  server behind it. A channel of messages is a number.
\<close>

section \<open>Key-value buckets\<close>

record 'k keyValue =
  kv_PutString :: "string \<Rightarrow> string \<Rightarrow> 'k \<Rightarrow> int result \<times> 'k"
  kv_Get :: "string \<Rightarrow> 'k \<Rightarrow> string result"
  kv_Delete :: "string \<Rightarrow> 'k \<Rightarrow> gerror option \<times> 'k"
  kv_Purge :: "string \<Rightarrow> 'k \<Rightarrow> gerror option \<times> 'k"
  kv_Watch :: "string \<Rightarrow> 'k \<Rightarrow> nat result \<times> 'k"

definition DotKV_Put :: "'k keyValue \<Rightarrow> string \<Rightarrow> string \<Rightarrow> 'k \<Rightarrow> gerror option \<times> 'k" where
  "DotKV_Put kv key v s = (case kv_PutString kv key v s of (Inl err, s') \<Rightarrow> (Some err, s') | (Inr _, s') \<Rightarrow> (None, s'))"

definition DotKV_Get :: "'k keyValue \<Rightarrow> string \<Rightarrow> 'k \<Rightarrow> string \<times> gerror option" where
  "DotKV_Get kv key s = (case kv_Get kv key s of Inl err \<Rightarrow> ('''', Some err) | Inr v \<Rightarrow> (v, None))"

definition DotKV_Delete :: "'k keyValue \<Rightarrow> string \<Rightarrow> 'k \<Rightarrow> gerror option \<times> 'k" where
  "DotKV_Delete kv key s = kv_Delete kv key s"

definition DotKV_Purge :: "'k keyValue \<Rightarrow> string \<Rightarrow> 'k \<Rightarrow> gerror option \<times> 'k" where
  "DotKV_Purge kv key s = kv_Purge kv key s"

definition DotKV_Watch :: "'k keyValue \<Rightarrow> string \<Rightarrow> 'k \<Rightarrow> nat result \<times> 'k" where
  "DotKV_Watch kv keys s = (case kv_Watch kv keys s of (Inl err, s') \<Rightarrow> (Inl err, s') | (Inr updates, s') \<Rightarrow> (Inr updates, s'))"

text \<open>With a client whose puts and gets agree, and where a deleted key has no value, a template reads back what it wrote.\<close>

lemma DotKV_roundtrip:
  assumes "\<forall>key v s n s'. kv_PutString kv key v s = (Inr n, s') \<longrightarrow> kv_Get kv key s' = Inr v"
    and "\<forall>key s s'. kv_Delete kv key s = (None, s') \<longrightarrow> (\<exists>e. kv_Get kv key s' = Inl e)"
  shows "DotKV_Put kv key v s = (None, s') \<Longrightarrow> DotKV_Get kv key s' = (v, None)"
    and "DotKV_Delete kv key s = (None, s') \<Longrightarrow> \<exists>e. DotKV_Get kv key s' = ('''', Some e)"
  using assms by (fastforce simp: DotKV_Put_def DotKV_Get_def DotKV_Delete_def split: prod.splits sum.splits)+

section \<open>Messages\<close>

record 'k natsConn =
  nc_ChanSubscribe :: "string \<Rightarrow> 'k \<Rightarrow> nat result \<times> 'k"
  nc_Publish :: "string \<Rightarrow> string \<Rightarrow> 'k \<Rightarrow> gerror option \<times> 'k"
  nc_Request :: "string \<Rightarrow> string \<Rightarrow> int \<Rightarrow> 'k \<Rightarrow> string result \<times> 'k"

definition DotNats_Publish :: "'k natsConn \<Rightarrow> string \<Rightarrow> string \<Rightarrow> 'k \<Rightarrow> gerror option \<times> 'k" where
  "DotNats_Publish conn subject message s = nc_Publish conn subject message s"

text \<open>The timeout is in nanoseconds.\<close>

definition DotNats_Request :: "'k natsConn \<Rightarrow> string \<Rightarrow> string \<Rightarrow> int list \<Rightarrow> 'k \<Rightarrow> string result \<times> 'k" where
  "DotNats_Request conn subject data timeout s =
     (case timeout of
        [] \<Rightarrow> nc_Request conn subject data (5 * 1000000000) s
      | [t] \<Rightarrow> nc_Request conn subject data t s
      | _ \<Rightarrow> (Inl (ErrMsg ''too many timeout args''), s))"

section \<open>Subscribe\<close>

text \<open>
  A subscription and the goroutine \<^verbatim>\<open>Subscribe\<close> starts: it waits for the context of the request, unsubscribes and closes the channel. The client
  puts messages on the channel as long as the subscription is active, which is what \<^verbatim>\<open>Unsubscribe\<close> documents; a message put on a closed
  channel would panic. The channel has no room: a message is taken by the template as it is put.
\<close>

datatype sub_pc = Waiting | Unsubscribed | Ended

record subscription =
  su_active :: bool
  su_closed :: bool
  su_done :: bool
  su_pc :: sub_pc
  su_taken :: "string list"
  su_panicked :: bool

definition sub_init :: subscription where
  "sub_init = \<lparr>su_active = True, su_closed = False, su_done = False, su_pc = Waiting, su_taken = [], su_panicked = False\<rparr>"

definition DotNats_Subscribe :: "'k natsConn \<Rightarrow> string \<Rightarrow> 'k \<Rightarrow> (nat \<times> subscription) result \<times> 'k" where
  "DotNats_Subscribe conn subject s =
     (case nc_ChanSubscribe conn subject s of
        (Inl err, s') \<Rightarrow> (Inl err, s')
      | (Inr ch, s') \<Rightarrow> (Inr (ch, sub_init), s'))"

inductive sub_step :: "subscription \<Rightarrow> subscription \<Rightarrow> bool" where
  deliver: "su_active s \<Longrightarrow> sub_step s (if su_closed s then s\<lparr>su_panicked := True\<rparr> else s\<lparr>su_taken := su_taken s @ [msg]\<rparr>)"
| request_done: "sub_step s (s\<lparr>su_done := True\<rparr>)"
| unsubscribe: "su_pc s = Waiting \<Longrightarrow> su_done s \<Longrightarrow> sub_step s (s\<lparr>su_active := False, su_pc := Unsubscribed\<rparr>)"
| close: "su_pc s = Unsubscribed \<Longrightarrow> sub_step s (s\<lparr>su_closed := True, su_pc := Ended\<rparr>)"

definition sub_inv :: "subscription \<Rightarrow> bool" where
  "sub_inv s \<longleftrightarrow> \<not> su_panicked s \<and> (su_closed s \<longleftrightarrow> su_pc s = Ended) \<and> (su_active s \<longleftrightarrow> su_pc s = Waiting) \<and> (su_pc s \<noteq> Waiting \<longrightarrow> su_done s)"

lemma sub_step_inv: "sub_step s t \<Longrightarrow> sub_inv s \<Longrightarrow> sub_inv t"
  by (induction rule: sub_step.induct) (auto simp: sub_inv_def)

text \<open>No message meets a closed channel; the channel is closed only after the request is over, and can then always be closed.\<close>

lemma Subscribe_safe:
  assumes "sub_step\<^sup>*\<^sup>* sub_init s"
  shows "\<not> su_panicked s \<and> (su_closed s \<longrightarrow> su_done s \<and> \<not> su_active s)
    \<and> (su_done s \<longrightarrow> (\<exists>t. sub_step\<^sup>*\<^sup>* s t \<and> su_closed t \<and> su_taken t = su_taken s))"
proof -
  have "sub_inv sub_init" by (simp add: sub_inv_def sub_init_def)
  with assms have inv: "sub_inv s" by (induction rule: rtranclp_induct) (auto dest: sub_step_inv)
  have closing: "\<exists>t. sub_step\<^sup>*\<^sup>* u t \<and> su_closed t \<and> su_taken t = su_taken u" if "su_pc u = Unsubscribed" for u
    using sub_step.close [OF that] by (intro exI [of _ "u\<lparr>su_closed := True, su_pc := Ended\<rparr>"]) auto
  have "\<exists>t. sub_step\<^sup>*\<^sup>* s t \<and> su_closed t \<and> su_taken t = su_taken s" if "su_done s"
  proof (cases "su_pc s")
    case Waiting
    let ?u = "s\<lparr>su_active := False, su_pc := Unsubscribed\<rparr>"
    obtain t where "sub_step\<^sup>*\<^sup>* ?u t" "su_closed t" "su_taken t = su_taken ?u" using closing [of ?u] by auto
    with sub_step.unsubscribe [OF Waiting that] show ?thesis by (auto intro: converse_rtranclp_into_rtranclp)
  next
    case Ended
    with inv show ?thesis by (auto simp: sub_inv_def)
  qed (rule closing)
  with inv show ?thesis by (auto simp: sub_inv_def)
qed

end
