(* ===== verification/Service.thy ===== *)
theory Service
  imports Server
begin

text \<open>
  What the server promises its clients, as an atomic service, and that every interleaving of the server is one of the service; and
  the life of the NATS servers that instances start.
\<close>

section \<open>The service\<close>

text \<open>
  The service has a current instance, if any, knows how many instances were installed, and keeps for every request that was accepted the
  instance it was accepted with. Instances are numbered in the order they are installed.
\<close>

record service =
  s_current :: "nat option"
  s_installed :: nat
  s_pending :: "nat option list"

datatype action = Tau | Install nat | Uninstall | Accept "nat option" | Answer nat "nat option"

fun service_step :: "action \<Rightarrow> service \<Rightarrow> service option" where
  "service_step Tau s = Some s"
| "service_step (Install n) s = (if n = s_installed s then Some (s\<lparr>s_current := Some n, s_installed := Suc n\<rparr>) else None)"
| "service_step Uninstall s = Some (s\<lparr>s_current := None\<rparr>)"
| "service_step (Accept i) s = (if i = s_current s then Some (s\<lparr>s_pending := s_pending s @ [i]\<rparr>) else None)"
| "service_step (Answer k i) s =
     (if k < length (s_pending s) \<and> s_pending s ! k = i
      then Some (s\<lparr>s_pending := take k (s_pending s) @ drop (Suc k) (s_pending s)\<rparr>) else None)"

fun service_run :: "action list \<Rightarrow> service \<Rightarrow> service option" where
  "service_run [] s = Some s"
| "service_run (a # as) s = (case service_step a s of None \<Rightarrow> None | Some s' \<Rightarrow> service_run as s')"

lemma service_run_snoc: "service_run (as @ [a]) s = Option.bind (service_run as s) (service_step a)"
  by (induction as arbitrary: s) (auto split: option.splits)

text \<open>The instances requests are accepted with, in the order the requests come.\<close>

fun accepted :: "action list \<Rightarrow> nat list" where
  "accepted [] = []"
| "accepted (Accept (Some i) # as) = i # accepted as"
| "accepted (_ # as) = accepted as"

lemma accepted_append: "accepted (as @ bs) = accepted as @ accepted bs"
  by (induction as rule: accepted.induct) simp_all

definition service_ok :: "service \<Rightarrow> bool" where
  "service_ok s \<longleftrightarrow> (\<forall>i. s_current s = Some i \<longrightarrow> Suc i = s_installed s)"

lemma service_step_ok: "service_step a s = Some s' \<Longrightarrow> service_ok s \<Longrightarrow> service_ok s' \<and> s_installed s \<le> s_installed s'"
  by (cases a) (auto simp: service_ok_def split: if_splits)

text \<open>A later request is never accepted with an older instance.\<close>

lemma accepted_sorted:
  "service_run as s = Some s' \<Longrightarrow> service_ok s \<Longrightarrow>
   service_ok s' \<and> sorted (accepted as) \<and> (\<forall>i \<in> set (accepted as). i < s_installed s')"
proof (induction as arbitrary: s' rule: rev_induct)
  case (snoc a as)
  then obtain s1 where s1: "service_run as s = Some s1" "service_step a s1 = Some s'"
    by (auto simp: service_run_snoc bind_eq_Some_conv)
  note ih = snoc.IH [OF s1(1) snoc.prems(2)]
  note ok = service_step_ok [OF s1(2)]
  have new: "accepted [a] = [] \<or> (\<exists>i. a = Accept (Some i) \<and> accepted [a] = [i] \<and> Suc i = s_installed s1)"
  proof (cases a)
    case (Accept i)
    with s1(2) ih show ?thesis by (cases i) (auto simp: service_ok_def split: if_splits)
  qed simp_all
  with ih ok show ?case by (fastforce simp: accepted_append sorted_append)
qed simp

section \<open>The server implements the service\<close>

text \<open>An instance that is built is installed when the pointer is swapped.\<close>

definition service_of :: "'d sys \<Rightarrow> service" where
  "service_of x = \<lparr>s_current = x_instance x, s_installed = (case x_phase x of Built _ new _ \<Rightarrow> new | _ \<Rightarrow> length (x_heap x)),
     s_pending = x_requests x\<rparr>"

fun action_of :: "'d event \<Rightarrow> 'd sys \<Rightarrow> action" where
  "action_of Swap x = (case x_phase x of Built _ new _ \<Rightarrow> Install new | _ \<Rightarrow> Tau)"
| "action_of StopStore x = Uninstall"
| "action_of Load x = Accept (x_instance x)"
| "action_of (Serve k r fl uuid) x = Answer k (x_requests x ! k)"
| "action_of (Abort k) x = Answer k (x_requests x ! k)"
| "action_of _ x = Tau"

text \<open>The part of an action that its event determines.\<close>

fun event_action :: "'d event \<Rightarrow> action \<Rightarrow> bool" where
  "event_action Swap a \<longleftrightarrow> (\<exists>n. a = Install n)"
| "event_action StopStore a \<longleftrightarrow> a = Uninstall"
| "event_action Load a \<longleftrightarrow> (\<exists>i. a = Accept i)"
| "event_action (Serve k r fl uuid) a \<longleftrightarrow> (\<exists>i. a = Answer k (Some i))"
| "event_action (Abort k) a \<longleftrightarrow> a = Answer k None"
| "event_action _ a \<longleftrightarrow> a = Tau"

lemma service_simulates:
  assumes "server_step env bg pf other e x x'" and "phase_inv x"
  shows "service_step (action_of e x) (service_of x) = Some (service_of x') \<and> event_action e (action_of e x)"
  using assms
proof (cases rule: server_step.cases)
  case (build be cfgs err)
  then show ?thesis by (auto simp: service_of_def reload_build_def split: prod.splits sum.splits)
next
  case (swap old new c)
  with assms(2) show ?thesis by (simp add: service_of_def reload_swap_def phase_inv_def)
next
  case (serve k r fl uuid)
  then show ?thesis by (auto simp: service_of_def handler_serve_def drop_request_def split: option.splits phase.splits)
qed (auto simp: service_of_def reload_finish_def stop_cancel_def stop_store_def handler_load_def drop_request_def split: phase.splits)

lemma server_run_service:
  assumes "server_run env bg pf other evs x x'" and "server_inv env x" and "\<forall>e \<in> set evs. sane e"
    and "0 \<le> x_counter x" and "x_counter x + int (length evs) < 2 ^ 63"
  shows "\<exists>as. list_all2 event_action evs as \<and> service_run as (service_of x) = Some (service_of x')"
  using assms
proof (induction rule: server_run.induct)
  case (2 evs x x' e x'')
  then obtain as where as: "list_all2 event_action evs as" "service_run as (service_of x) = Some (service_of x')" by auto
  have "server_inv env x'" using server_run_inv [OF 2(1)] 2 by simp
  then have "phase_inv x'" by (simp add: server_inv_def)
  from service_simulates [OF 2(2) this] as show ?case
    by (intro exI [of _ "as @ [action_of e x']"]) (simp add: service_run_snoc list_all2_appendI)
qed simp

text \<open>C11. The server implements the service: every interleaving of reloads, stops and requests is a run of the service in which an instance is
  installed, all at once, when \<^verbatim>\<open>Reload\<close> swaps the pointer, and a request belongs to the instance that is current when it is accepted. So
  the instances the requests are accepted with never go back to an older one.\<close>

theorem server_implements_service:
  assumes "Config_Server env be bg cfgs config counter w = Inr (Inr (x0 :: 'd sys))" and "start_ok bg cfgs config counter w"
    and "\<forall>e \<in> set (Build be [] # evs). sane e" and "server_run env bg pf other evs x0 x" and "counter + 1 + int (length evs) < 2 ^ 63"
  shows "\<exists>as. list_all2 event_action evs as \<and> service_run as (service_of x0) = Some (service_of x)
    \<and> service_of x0 = \<lparr>s_current = Some 0, s_installed = 1, s_pending = []\<rparr>
    \<and> sorted (accepted as) \<and> (\<forall>i \<in> set (accepted as). i < length (x_heap x))"
proof -
  have x0: "server_inv env x0" "x_counter x0 = counter + 1" "x_phase x0 = Free" "x_instance x0 = Some 0" "x_requests x0 = []"
    "length (x_heap x0) = 1"
    using Config_Server_ok [OF assms(1,2)] assms(3,5) by simp_all
  have s0: "service_of x0 = \<lparr>s_current = Some 0, s_installed = 1, s_pending = []\<rparr>" by (simp add: service_of_def x0)
  obtain as where as: "list_all2 event_action evs as" "service_run as (service_of x0) = Some (service_of x)"
    using server_run_service [OF assms(4) x0(1)] assms(2,3,5) x0(2) by (auto simp: start_ok_def)
  have "server_inv env x" using server_run_inv [OF assms(4) x0(1)] assms(2,3,5) x0(2) by (simp add: start_ok_def)
  then have "s_installed (service_of x) \<le> length (x_heap x)"
    by (auto simp: service_of_def server_inv_def phase_inv_def split: phase.splits)
  moreover have "service_ok (service_of x0)" by (simp add: s0 service_ok_def)
  ultimately show ?thesis using as s0 accepted_sorted [OF as(2)] by (auto intro!: exI [of _ as])
qed

section \<open>NATS servers in the process\<close>

text \<open>Every NATS server was started under the context of an instance, or its context has ended.\<close>

definition servers_inv :: "'d sys \<Rightarrow> bool" where
  "servers_inv x \<longleftrightarrow> (\<forall>(srv, c) \<in> set (w_servers (x_world x)). \<exists>a. c = Some a \<and> (a \<in> set (heap_ctxs x) \<or> is_done (x_world x) a))"

lemma is_done_grows:
  assumes "w_parents w' = w_parents w @ ps" and "set (w_cancelled w) \<subseteq> set (w_cancelled w')" and "is_done w a"
  shows "is_done w' a"
proof -
  have "a < length (w_parents w)" using assms(3) chain_less by (auto simp: is_done_def)
  with assms show ?thesis by (auto simp: is_done_def chain_append)
qed

lemma servers_inv_grows:
  assumes "servers_inv x" and "\<forall>(s, c) \<in> set (w_servers (x_world x')). (s, c) \<in> set (w_servers (x_world x)) \<or> (\<exists>a \<in> A. c = Some a)"
    and "w_parents (x_world x') = w_parents (x_world x) @ ps" and "set (w_cancelled (x_world x)) \<subseteq> set (w_cancelled (x_world x'))"
    and "set (heap_ctxs x) \<subseteq> set (heap_ctxs x')" and "\<forall>a \<in> A. a \<in> set (heap_ctxs x') \<or> is_done (x_world x') a"
  shows "servers_inv x'"
proof -
  have "\<exists>b. c = Some b \<and> (b \<in> set (heap_ctxs x') \<or> is_done (x_world x') b)" if "(srv, c) \<in> set (w_servers (x_world x'))" for srv c
  proof (cases "(srv, c) \<in> set (w_servers (x_world x))")
    case True
    then obtain b where b: "c = Some b" "b \<in> set (heap_ctxs x) \<or> is_done (x_world x) b" using assms(1) by (auto simp: servers_inv_def)
    with assms(5) is_done_grows [OF assms(3,4)] show ?thesis by blast
  next
    case False
    with that assms(2,6) show ?thesis by blast
  qed
  then show ?thesis by (auto simp: servers_inv_def)
qed

lemmas servers_inv_move = servers_inv_grows [where A = "{}" and ps = "[]", simplified]

lemma run_cancel_servers [simp]:
  "w_servers (run_cancel f w) = w_servers w" "set (w_cancelled w) \<subseteq> set (w_cancelled (run_cancel f w))"
  by (auto simp: run_cancel_def split: option.split)

lemma server_step_servers:
  assumes "server_step env bg pf other e x x'" and "server_inv env x" and "servers_inv x" and "sane e"
    and "0 \<le> x_counter x" and "x_counter x < 2 ^ 63 - 1"
  shows "servers_inv x'"
  using assms(1)
proof (cases rule: server_step.cases)
  case (build be cfgs err)
  let ?n = "length (w_parents (x_world x))"
  have root: "root_ctx x < ?n" using assms(2) by (simp add: server_inv_def ctx_inv_def)
  from assms(2) build(2) assms(4) [unfolded build(1)] build(3) assms(5,6) show ?thesis
  proof (cases rule: reload_build_cases)
    case (fails e w)
    have "?n \<in> set (chain (w_parents w) ?n)" using chain_child [OF root] fails(3) by simp
    then have "is_done w ?n" using fails(4) by (auto simp: is_done_def)
    then show ?thesis
      by (intro servers_inv_grows [OF assms(3), where A = "{?n}" and ps = "[Some (root_ctx x)]"])
        (use fails in \<open>auto simp: heap_ctxs_def\<close>)
  next
    case (builds inst w)
    then show ?thesis
      by (intro servers_inv_grows [OF assms(3), where A = "{?n}" and ps = "[Some (root_ctx x)]"]) (auto simp: heap_ctxs_def)
  qed
next
  case (serve k r fl uuid)
  have heap: "heap_inv env x" using assms(2) by (simp add: server_inv_def)
  obtain be i inst' w' where x': "x' = drop_request k (x\<lparr>x_heap := (x_heap x)[i := inst'], x_world := w'\<rparr>)" and w': "same_ctxs (x_world x) w'"
    and ctxs: "heap_ctxs (x\<lparr>x_heap := (x_heap x)[i := inst'], x_world := w'\<rparr>) = heap_ctxs x"
    by (rule handler_serve_keeps [OF heap serve(2,3)])
  have "heap_ctxs x' = heap_ctxs x" using ctxs by (simp add: x' heap_ctxs_def drop_request_def)
  with w' show ?thesis by (intro servers_inv_move [OF assms(3)]) (simp_all add: x' drop_request_def same_ctxs_def)
qed (auto intro!: servers_inv_move [OF assms(3)] simp: reload_swap_def reload_finish_def stop_cancel_def stop_store_def handler_load_def
    drop_request_def shutdown_server_def heap_ctxs_def dest: set_remove1_subset [THEN subsetD] split: phase.splits)

lemma server_run_servers:
  assumes "server_run env bg pf other evs x x'" and "server_inv env x" and "servers_inv x" and "\<forall>e \<in> set evs. sane e"
    and "0 \<le> x_counter x" and "x_counter x + int (length evs) < 2 ^ 63"
  shows "servers_inv x'"
  using assms
proof (induction rule: server_run.induct)
  case (2 evs x x' e x'')
  have inv: "server_inv env x' \<and> x_counter x \<le> x_counter x' \<and> x_counter x' \<le> x_counter x + int (length evs)"
    using server_run_inv [OF 2(1)] 2 by simp
  have "servers_inv x'" using 2 by simp
  with inv 2 show ?case by (intro server_step_servers [OF 2(2)]) simp_all
qed simp

lemma Config_Server_servers:
  assumes "Config_Server env be bg cfgs config counter w = Inr (Inr x)" and "start_ok bg cfgs config counter w"
    and "sane (Build be ([] :: 'd option_fun list))" and "counter < 2 ^ 63 - 1" and "w_servers w = []"
  shows "servers_inv (x :: 'd sys)"
proof -
  obtain x0 where x0: "server_inv env x0" "x_phase x0 = Free" "x_counter x0 = counter" "x_world x0 = w" "Reload env be bg [] x0 = Inr (None, x)"
    using Config_Server_start [OF assms(1,2)] by blast
  then obtain x1 where b: "reload_build env be bg [] x0 = Inr (None, x1)" and x: "x = reload_finish (reload_swap x1)"
    by (auto simp: Reload_def split: sum.splits option.splits)
  have "servers_inv x0" using x0(4) assms(5) by (simp add: servers_inv_def)
  then have "servers_inv x1"
    using server_step_servers [OF server_step.build [OF x0(2) b] x0(1) _ assms(3)] x0(3) assms(2,4) by (simp add: start_ok_def)
  then show ?thesis
    by (rule servers_inv_move) (auto simp: x reload_finish_def reload_swap_def heap_ctxs_def split: phase.splits)
qed

text \<open>The context of the current instance is not cancelled, unless the server is being stopped.\<close>

lemma current_open:
  assumes "server_inv env x" and "x_instance x = Some i" and "x_phase x \<noteq> Stopping"
  shows "heap_ctxs x ! i \<in> open_ctxs x" and "heap_ctxs x ! i \<in> set (heap_ctxs x)"
  using assms by (auto simp: server_inv_def phase_inv_def open_ctxs_def split: phase.splits)

lemma current_server_stays:
  assumes "server_step env bg pf other e x x'" and "server_inv env x" and "sane e" and "0 \<le> x_counter x" and "x_counter x < 2 ^ 63 - 1"
    and "\<not> is_done (x_world x) a" and "(srv, Some a) \<in> set (w_servers (x_world x))"
  shows "(srv, Some a) \<in> set (w_servers (x_world x'))"
  using assms(1)
proof (cases rule: server_step.cases)
  case (build be cfgs err)
  from assms(2) build(2) assms(3) [unfolded build(1)] build(3) assms(4,5) show ?thesis
    by (cases rule: reload_build_cases) (use assms(7) in auto)
next
  case (serve k r fl uuid)
  have heap: "heap_inv env x" using assms(2) by (simp add: server_inv_def)
  obtain be i inst' w' where x': "x' = drop_request k (x\<lparr>x_heap := (x_heap x)[i := inst'], x_world := w'\<rparr>)" and w': "same_ctxs (x_world x) w'"
    by (rule handler_serve_keeps [OF heap serve(2,3)])
  with assms(7) show ?thesis by (simp add: drop_request_def same_ctxs_def)
next
  case (shutdown s c)
  then have "(srv, Some a) \<noteq> (s, Some c)" using assms(6) by auto
  with assms(7) show ?thesis by (simp add: shutdown(2) shutdown_server_def in_set_remove1)
qed (use assms(7) in \<open>auto simp: reload_swap_def reload_finish_def stop_cancel_def stop_store_def handler_load_def drop_request_def
    split: phase.splits\<close>)

text \<open>C13. The NATS servers an instance starts in the process live exactly as long as the instance. While the instance is current and the server's
  context is not done no step of any interleaving shuts one of them down; and when no goroutine holds the mutex and none has a server
  left to shut down, every server that still runs belongs to the current instance, those of failed reloads included.\<close>

theorem nats_servers_follow_instances:
  assumes "Config_Server env be bg cfgs config counter w = Inr (Inr (x0 :: 'd sys))" and "start_ok bg cfgs config counter w"
    and "\<forall>e \<in> set (Build be [] # evs). sane e" and "server_run env bg pf other evs x0 x" and "counter + 2 + int (length evs) < 2 ^ 63"
    and "w_servers w = []"
  shows "(x_instance x = Some i \<and> x_phase x \<noteq> Stopping \<and> \<not> is_done (x_world x) (root_ctx x) \<and> server_step env bg pf other e x x' \<and> sane e
        \<and> (srv, Some (heap_ctxs x ! i)) \<in> set (w_servers (x_world x)) \<longrightarrow> (srv, Some (heap_ctxs x ! i)) \<in> set (w_servers (x_world x')))
    \<and> (x_phase x = Free \<and> (\<forall>(srv, c) \<in> set (w_servers (x_world x)). \<forall>a. c = Some a \<longrightarrow> \<not> is_done (x_world x) a)
        \<longrightarrow> (\<forall>(srv, c) \<in> set (w_servers (x_world x)). \<exists>i. x_instance x = Some i \<and> c = Some (heap_ctxs x ! i)))"
proof (intro conjI impI)
  have x0: "server_inv env x0" "x_counter x0 = counter + 1" using Config_Server_ok [OF assms(1,2)] assms(3,5) by simp_all
  have inv: "server_inv env x" "0 \<le> x_counter x" "x_counter x < 2 ^ 63 - 1"
    using server_run_inv [OF assms(4) x0(1)] assms(2,3,5) x0(2) by (auto simp: start_ok_def)
  {
    assume a: "x_instance x = Some i \<and> x_phase x \<noteq> Stopping \<and> \<not> is_done (x_world x) (root_ctx x) \<and> server_step env bg pf other e x x' \<and> sane e
      \<and> (srv, Some (heap_ctxs x ! i)) \<in> set (w_servers (x_world x))"
    have "ctx_inv x" using inv(1) by (simp add: server_inv_def)
    moreover have "heap_ctxs x ! i \<in> open_ctxs x" "heap_ctxs x ! i \<in> set (heap_ctxs x)"
      by (rule current_open [OF inv(1)]; use a in simp)+
    ultimately have "\<not> is_done (x_world x) (heap_ctxs x ! i)" using instance_done [of x "heap_ctxs x ! i"] a by simp
    moreover have "server_step env bg pf other e x x'" "sane e" using a by simp_all
    ultimately show "(srv, Some (heap_ctxs x ! i)) \<in> set (w_servers (x_world x'))"
      using current_server_stays [OF _ inv(1) _ inv(2,3)] a by blast
  next
    assume a: "x_phase x = Free \<and> (\<forall>(srv, c) \<in> set (w_servers (x_world x)). \<forall>a. c = Some a \<longrightarrow> \<not> is_done (x_world x) a)"
    have "servers_inv x0" using Config_Server_servers [OF assms(1,2) _ _ assms(6)] assms(3,5) by simp
    then have srvs: "servers_inv x" using server_run_servers [OF assms(4) x0(1)] assms(2,3,5) x0(2) by (simp add: start_ok_def)
    have "\<exists>i. x_instance x = Some i \<and> c = Some (heap_ctxs x ! i)" if mem: "(s, c) \<in> set (w_servers (x_world x))" for s c
    proof -
      obtain b where b: "c = Some b" "b \<in> set (heap_ctxs x) \<or> is_done (x_world x) b" using srvs mem unfolding servers_inv_def by blast
      have live: "\<not> is_done (x_world x) b" using a mem b(1) by blast
      then obtain j where j: "j < length (x_heap x)" "b = heap_ctxs x ! j" using b(2) by (auto simp: in_set_conv_nth)
      then have "x_instance x = Some j" using Free_done [OF inv(1) _ j(1)] a live by simp
      with b(1) j(2) show ?thesis by simp
    qed
    then show "\<forall>(srv, c) \<in> set (w_servers (x_world x)). \<exists>i. x_instance x = Some i \<and> c = Some (heap_ctxs x ! i)" by blast
  }
qed

section \<open>Examples\<close>

lemma server_implements_service_witness:
  "\<exists>as. list_all2 event_action ([Load, Build site_env [], Swap, Finish] :: string list event list) as
     \<and> service_run as (service_of site_server) = Some (service_of site_reloaded)
     \<and> sorted (accepted as)"
  using server_implements_service [OF site_server_ok(1) site_start_ok site_full_run [of "\<lambda>_. None" "\<lambda>_ _ rw. Inr rw"]] by auto

text \<open>The site with a NATS server in the process: it is started and reloaded, and the server of the first instance is shut down.\<close>

definition nats_options :: "string list option_fun list" where
  "nats_options = site_options @ [WithNats ''Nats'' (Some ''opts'') None []]"

definition nats_start :: "(gerror + string list sys) panics" where
  "nats_start = Config_Server toy_env site_env 0 nats_options empty_config 0 server_world"

definition nats_reload :: "string list sys \<Rightarrow> (gerror option \<times> string list sys) panics" where
  "nats_reload x = reload_build toy_env site_env 0 [] x"

definition nats_after :: "string list sys \<Rightarrow> string list sys" where
  "nats_after x1 = (let x2 = reload_finish (reload_swap x1) in x2\<lparr>x_world := shutdown_server (0, Some 1) (x_world x2)\<rparr>)"

definition nats_check :: bool where
  "nats_check = (case nats_start of
     Inr (Inr x) \<Rightarrow>
       (case nats_reload x of
          Inr (None, x1) \<Rightarrow> x_phase x = Free \<and> x_phase x1 = Built (Some 0) 1 2 \<and> w_servers (x_world x1) = [(0, Some 1), (0, Some 2)]
            \<and> is_done (x_world (reload_finish (reload_swap x1))) 1 \<and> \<not> is_done (x_world (nats_after x1)) 2
        | _ \<Rightarrow> False)
   | _ \<Rightarrow> False)"

lemma nats_check: nats_check
  by code_simp

definition nats_server :: "string list sys" where
  "nats_server = (case nats_start of Inr (Inr x) \<Rightarrow> x | _ \<Rightarrow> undefined)"

definition nats_built :: "string list sys" where
  "nats_built = (case nats_reload nats_server of Inr (_, x) \<Rightarrow> x | _ \<Rightarrow> undefined)"

lemma nats_ok:
  "Config_Server toy_env site_env 0 nats_options empty_config 0 server_world = Inr (Inr nats_server)"
  "reload_build toy_env site_env 0 [] nats_server = Inr (None, nats_built)"
proof -
  obtain x x1 where x: "nats_start = Inr (Inr x)" "nats_reload x = Inr (None, x1)"
    using nats_check by (auto simp: nats_check_def split: sum.splits option.splits)
  have "nats_server = x" unfolding nats_server_def x(1) by simp
  moreover have "nats_built = x1" unfolding nats_built_def \<open>nats_server = x\<close> x(2) by simp
  ultimately show "Config_Server toy_env site_env 0 nats_options empty_config 0 server_world = Inr (Inr nats_server)"
    and "reload_build toy_env site_env 0 [] nats_server = Inr (None, nats_built)"
    using x by (simp_all add: nats_start_def nats_reload_def)
qed

lemma nats_states: "x_phase nats_server = Free" "x_phase nats_built = Built (Some 0) 1 2"
  "w_servers (x_world nats_built) = [(0, Some 1), (0, Some 2)]" "is_done (x_world (reload_finish (reload_swap nats_built))) 1"
  "\<not> is_done (x_world (nats_after nats_built)) 2"
  using nats_check unfolding nats_check_def nats_start_def nats_reload_def by (simp_all add: nats_ok)

lemma nats_start_ok: "start_ok 0 nats_options empty_config 0 server_world"
  using site_start_ok(1) quiet_option.intros(1) [OF std_option.intros(8)]
  by (simp add: start_ok_def nats_options_def quiet_options_def WithNats_def)

lemma nats_run: "server_run toy_env 0 pf other [Build site_env [], Swap, Finish, Shutdown 0 1] nats_server (nats_after nats_built)"
proof -
  let ?r = "server_run toy_env 0 pf other"
  let ?x2 = "reload_finish (reload_swap nats_built)"
  have srvs: "w_servers (x_world ?x2) = [(0, Some 1), (0, Some 2)]"
    by (simp add: reload_finish_def reload_swap_def nats_states)
  have "?r ([] @ [Build site_env []]) nats_server nats_built"
    by (rule server_run.intros(2) [OF server_run.intros(1) server_step.build [OF nats_states(1) nats_ok(2)]])
  from server_run.intros(2) [OF this server_step.swap [OF nats_states(2)]]
  have "?r [Build site_env [], Swap] nats_server (reload_swap nats_built)" by simp
  from server_run.intros(2) [OF this server_step.finish [of _ 2]]
  have "?r [Build site_env [], Swap, Finish] nats_server ?x2" by (simp add: reload_swap_def nats_states)
  from server_run.intros(2) [OF this server_step.shutdown [of 0 1]]
  show ?thesis using srvs nats_states(4) by (simp add: nats_after_def Let_def)
qed

lemma nats_servers_follow_instances_witness:
  "w_servers (x_world (nats_after nats_built)) = [(0, Some 2)]
   \<and> (\<exists>i. x_instance (nats_after nats_built) = Some i \<and> heap_ctxs (nats_after nats_built) ! i = 2)"
proof -
  let ?x = "nats_after nats_built"
  have srvs: "w_servers (x_world ?x) = [(0, Some 2)]"
    by (simp add: nats_after_def Let_def reload_finish_def reload_swap_def nats_states shutdown_server_def)
  have sane: "\<forall>e \<in> set (Build site_env [] # [Build site_env [], Swap, Finish, Shutdown 0 1]). sane (e :: string list event)"
    using site_start_ok(2) by simp
  have free: "x_phase ?x = Free" by (simp add: nats_after_def Let_def reload_finish_def reload_swap_def nats_states)
  have empty: "w_servers server_world = []" by (simp add: server_world_def toy_world_def)
  from nats_servers_follow_instances [OF nats_ok(1) nats_start_ok sane nats_run [of "\<lambda>_. None" "\<lambda>_ _ rw. Inr rw"] _ empty] free srvs nats_states(5)
  show ?thesis by auto
qed

end
