(* ===== verification/Isolation.thy ===== *)
theory Isolation
  imports Preserve
begin

text \<open>
  Requests do not disturb each other. Every request works on objects of its own (a \<^verbatim>\<open>*DotDB\<close> for each database, a \<^verbatim>\<open>*dotFS\<close> for each
  directory), which its dot points to: \<^verbatim>\<open>value\<close> makes them new, and template and \<^verbatim>\<open>cleanup\<close> change no others.
\<close>

section \<open>The objects of a request\<close>

definition owned_txs :: "val dotval \<Rightarrow> nat set" where
  "owned_txs dv = {p. Some (VDB p) \<in> set dv}"

definition owned_fss :: "val dotval \<Rightarrow> nat set" where
  "owned_fss dv = {p. \<exists>path. Some (VDir path p) \<in> set dv}"

lemma same_dot_owned: "same_dot dv dv' \<Longrightarrow> owned_txs dv' = owned_txs dv \<and> owned_fss dv' = owned_fss dv"
  unfolding same_dot_def by (induction rule: list_all2_induct) (auto simp: owned_txs_def owned_fss_def same_field_def)

definition only_touches :: "nat set \<Rightarrow> nat set \<Rightarrow> 'd world \<Rightarrow> 'd world \<Rightarrow> bool" where
  "only_touches ts fs w w' \<longleftrightarrow> length (w_txs w') = length (w_txs w) \<and> length (w_fss w') = length (w_fss w)
     \<and> (\<forall>p. p \<notin> ts \<longrightarrow> w_txs w' ! p = w_txs w ! p) \<and> (\<forall>p. p \<notin> fs \<longrightarrow> w_fss w' ! p = w_fss w ! p)"

lemma only_touches_trans: "only_touches ts fs w w1 \<Longrightarrow> only_touches ts fs w1 w2 \<Longrightarrow> only_touches ts fs w w2"
  by (simp add: only_touches_def)

lemma dot_field_owned:
  "dot_field dv i = Some (VDB p) \<Longrightarrow> p \<in> owned_txs dv" "dot_field dv i = Some (VDir path p) \<Longrightarrow> p \<in> owned_fss dv"
  by (auto simp: dot_field_def owned_txs_def owned_fss_def split: if_splits) (metis nth_mem)+

lemma call_owned: "call ho r f dv w = (a, dv', w') \<Longrightarrow> only_touches (owned_txs dv) (owned_fss dv) w w'"
  by (cases f) (auto simp: only_touches_def split: option.splits val.splits prod.splits,
      (metis nth_list_update_neq dot_field_owned)+)

interpretation own_steps: execution ho r "\<lambda>_. True" to_response "\<lambda>dv w dv' w'. same_dot dv dv' \<and> only_touches (owned_txs dv) (owned_fss dv) w w'" for ho r
proof (unfold_locales, goal_cases)
  case (2 dv w dv1 w1 dv' w')
  then show ?case using same_dot_owned [of dv dv1] same_dot_trans only_touches_trans by metis
next
  case (3 f dv w a dv' w')
  then show ?case using call_same_dot call_owned by blast
qed (simp_all add: only_touches_def to_response_def)

lemma Execute_owned:
  assumes "emit = to_buffer \<or> emit = to_response" and "Execute ho r emit t dv (b, w) = (err, dv', b', w')"
  shows "same_dot dv dv' \<and> only_touches (owned_txs dv) (owned_fss dv) w w'"
  by (rule own_steps.Execute_keeps [OF all_calls_True _ assms(2)]) (use assms(1) in auto)

section \<open>Providers\<close>

text \<open>A value that points to no object among the first \<open>n\<close> and \<open>m\<close>.\<close>

fun fresh_val :: "nat \<Rightarrow> nat \<Rightarrow> val \<Rightarrow> bool" where
  "fresh_val n m (VDB p) \<longleftrightarrow> n \<le> p"
| "fresh_val n m (VDir path p) \<longleftrightarrow> m \<le> p"
| "fresh_val n m _ \<longleftrightarrow> True"

lemma fresh_val_mono: "fresh_val n m a \<Longrightarrow> n' \<le> n \<Longrightarrow> m' \<le> m \<Longrightarrow> fresh_val n' m' a"
  by (cases a) auto

definition isolated_dp :: "('d world, val) dotConfig \<Rightarrow> bool" where
  "isolated_dp dp \<longleftrightarrow>
     (\<forall>q w. prefix (w_txs w) (w_txs (snd (Value dp q w))) \<and> prefix (w_fss w) (w_fss (snd (Value dp q w)))
        \<and> (\<forall>a. fst (fst (Value dp q w)) = Some a \<longrightarrow> fresh_val (length (w_txs w)) (length (w_fss w)) a))
     \<and> (\<forall>c a err w err' w'. Cleanup dp = Some c \<longrightarrow> c a err w = Inr (err', w') \<longrightarrow>
          only_touches {p. a = VDB p} {p. \<exists>path. a = VDir path p} w w')"

text \<open>A custom provider is asked to leave the objects of others alone.\<close>

fun isolated_provider :: "'d provider \<Rightarrow> bool" where
  "isolated_provider (PCustom p) = isolated_dp (snd p)"
| "isolated_provider _ = True"

lemma builtin_isolated: "isolated_dp dotX" "isolated_dp dotReq" "isolated_dp dotResp" "isolated_dp dotFlush"
  by (simp_all add: isolated_dp_def dotX_def dotReq_def dotResp_def dotFlush_def dotFlush_Value_def)
    (auto simp: only_touches_def resp_Cleanup_def flush_Cleanup_def bad_assertion_def split: val.splits prod.splits sum.splits)

lemma provider_isolated: "isolated_provider p \<Longrightarrow> isolated_dp (provider_dot env p)"
  by (cases p) (auto simp: isolated_dp_def only_touches_def db_Value_def dir_Value_def dotFS_Value_def db_Cleanup_def dir_Cleanup_def
      bad_assertion_def nth_list_update split: val.splits prod.splits)

lemma dot_providers_isolated:
  assumes "list_all isolated_provider ps" and "isolated_dp l"
  shows "\<forall>dp \<in> set (dot_providers env ps l). isolated_dp dp"
  using assms builtin_isolated(1,2) provider_isolated by (auto simp: dot_providers_def list_all_iff)

section \<open>The objects that were there before\<close>

text \<open>The first \<open>n\<close> transactions and the first \<open>m\<close> directories, if there are so many, are what they were.\<close>

definition older :: "nat \<Rightarrow> nat \<Rightarrow> 'd world \<Rightarrow> 'd world \<Rightarrow> bool" where
  "older n m w w' \<longleftrightarrow> (n \<le> length (w_txs w) \<and> m \<le> length (w_fss w) \<longrightarrow>
     n \<le> length (w_txs w') \<and> m \<le> length (w_fss w') \<and> take n (w_txs w') = take n (w_txs w) \<and> take m (w_fss w') = take m (w_fss w))"

interpretation older: frame "older n m" for n m
  by unfold_locales (auto simp: older_def)

lemma only_touches_older:
  "only_touches ts fs w w' \<Longrightarrow> \<forall>p \<in> ts. n \<le> p \<Longrightarrow> \<forall>p \<in> fs. m \<le> p \<Longrightarrow> older n m w w'"
  by (simp add: only_touches_def older_def list_eq_iff_nth_eq) (meson leD)

lemma prefix_older: "prefix (w_txs w) (w_txs w') \<Longrightarrow> prefix (w_fss w) (w_fss w') \<Longrightarrow> older n m w w'"
  by (auto simp: older_def prefix_def)

lemma fill_fields_fresh:
  "\<forall>dp \<in> set dps. isolated_dp dp \<Longrightarrow> fill_fields tyof ts q i dps v w = Inr (res, w') \<Longrightarrow> n \<le> length (w_txs w) \<Longrightarrow> m \<le> length (w_fss w) \<Longrightarrow>
   \<forall>a. Some a \<in> set v \<longrightarrow> fresh_val n m a \<Longrightarrow>
   older n m w w' \<and> (\<forall>v'. res = Inr v' \<longrightarrow> (\<forall>a. Some a \<in> set v' \<longrightarrow> fresh_val n m a))"
proof (induction dps arbitrary: i v w)
  case (Cons dp dps)
  obtain a err w1 where v: "Value dp q w = ((a, err), w1)" by (metis prod.collapse)
  have dp: "isolated_dp dp" using Cons.prems(1) by simp
  then have pre: "prefix (w_txs w) (w_txs w1)" "prefix (w_fss w) (w_fss w1)"
    and fresh: "\<forall>x. a = Some x \<longrightarrow> fresh_val (length (w_txs w)) (length (w_fss w)) x"
    using v unfolding isolated_dp_def by (metis fst_conv snd_conv)+
  have 1: "older n m w w1" by (rule prefix_older [OF pre])
  show ?case
  proof (cases err)
    case (Some e)
    with Cons.prems(2) v 1 show ?thesis by (cases a) auto
  next
    case None
    with Cons.prems(2) v obtain x where x: "a = Some x" and rest: "fill_fields tyof ts q (Suc i) dps (v[i := Some x]) w1 = Inr (res, w')"
      by (auto split: option.splits if_splits)
    have len: "n \<le> length (w_txs w1)" "m \<le> length (w_fss w1)" using 1 Cons.prems(3,4) by (simp_all add: older_def)
    have "fresh_val n m x" using fresh x fresh_val_mono Cons.prems(3,4) by blast
    then have "\<forall>y. Some y \<in> set (v[i := Some x]) \<longrightarrow> fresh_val n m y"
      using Cons.prems(5) by (auto dest!: set_update_subset_insert [THEN subsetD])
    from Cons.IH [OF _ rest len this] Cons.prems(1) older.frame_trans [OF 1] show ?thesis by auto
  qed
qed (auto intro: older.frame_refl)

lemma dot_value_fresh_objects:
  assumes "\<forall>dp \<in> set (d_dps d). isolated_dp dp" and "dot_value tyof q d w = Inr (res, d', w')"
    and "n \<le> length (w_txs w)" and "m \<le> length (w_fss w)"
  shows "older n m w w'" and "res = Inr dv \<Longrightarrow> \<forall>a. Some a \<in> set dv \<longrightarrow> fresh_val n m a"
proof -
  obtain v d1 where g: "pool_Get d = (v, d1)" by force
  then have d1: "d_dps d1 = d_dps d" by (auto simp: pool_Get_def split: list.splits)
  obtain res1 where f: "fill_fields tyof (d_types d1) q 0 (d_dps d1) (SetZero v) w = Inr (res1, w')" and res: "\<forall>dv. res = Inr dv \<longrightarrow> res1 = Inr dv"
    using assms(2) g by (auto simp: dot_value_def Let_def split: sum.splits)
  have "\<forall>a. Some a \<in> set (SetZero v) \<longrightarrow> fresh_val n m a" by (auto simp: SetZero_def)
  with fill_fields_fresh [OF _ f assms(3,4)] assms(1) d1 res
  show "older n m w w'" and "res = Inr dv \<Longrightarrow> \<forall>a. Some a \<in> set dv \<longrightarrow> fresh_val n m a" by auto
qed

section \<open>A request leaves the objects of other requests alone\<close>

lemma fresh_owned:
  "\<forall>a. Some a \<in> set dv \<longrightarrow> fresh_val n m a \<Longrightarrow> (\<forall>p \<in> owned_txs dv. n \<le> p) \<and> (\<forall>p \<in> owned_fss dv. m \<le> p)"
  by (fastforce simp: owned_txs_def owned_fss_def)

lemma same_dot_fresh: "same_dot dv dv' \<Longrightarrow> \<forall>a. Some a \<in> set dv \<longrightarrow> fresh_val n m a \<Longrightarrow> \<forall>a. Some a \<in> set dv' \<longrightarrow> fresh_val n m a"
  unfolding same_dot_def by (induction rule: list_all2_induct) (auto simp: same_field_def)

lemma vacuous_older: "\<not> (n \<le> length (w_txs w) \<and> m \<le> length (w_fss w)) \<Longrightarrow> older n m w w'"
  by (auto simp: older_def)

lemma executed_older:
  assumes "dot_inv env ps l d" and "list_all isolated_provider ps" and "isolated_dp l"
    and "dot_value type_of q d w = Inr (Inr dv, d1, w1)" and "older n m w1 w2"
    and "Execute ho r emit t dv (b, w2) = (err, dv', b', w3)" and "emit = to_buffer \<or> emit = to_response"
    and "dot_cleanup dv' err d1 w3 = Inr (err', d2, w4)" and "n \<le> length (w_txs w)" and "m \<le> length (w_fss w)"
  shows "older n m w w4"
proof -
  have inv1: "dot_inv env ps l d1" by (rule dot_value_inv [OF assms(1,4)])
  have iso: "\<forall>dp \<in> set (d_dps d). isolated_dp dp" "\<forall>dp \<in> set (d_dps d1). isolated_dp dp"
    using dot_providers_isolated [OF assms(2,3)] assms(1) inv1 by (simp_all add: dot_inv_def)
  have v: "older n m w w1" "\<forall>a. Some a \<in> set dv \<longrightarrow> fresh_val n m a" using dot_value_fresh_objects [OF iso(1) assms(4,9,10)] by simp_all
  have x: "same_dot dv dv'" "only_touches (owned_txs dv) (owned_fss dv) w2 w3" using Execute_owned [OF assms(7,6)] by simp_all
  have "older n m w2 w3" using only_touches_older [OF x(2)] fresh_owned [OF v(2)] by blast
  moreover have "older n m w3 w4"
  proof (rule older.dot_cleanup_keeps_values [OF _ _ _ assms(8)])
    show "d_cleanups d1 = cleanups_from 0 (d_dps d1)" using inv1 by (simp add: dot_inv_def dot_wf_def)
    show "length dv' = length (d_dps d1)" by (rule executed_length [OF assms(1,4,6,7)])
    show "\<forall>dp \<in> set (d_dps d1). \<forall>c a err s err' s'. Cleanup dp = Some c \<longrightarrow> Some a \<in> set dv' \<longrightarrow> c a err s = Inr (err', s') \<longrightarrow> older n m s s'"
    proof (intro ballI allI impI)
      fix dp c a err s err' s'
      assume "dp \<in> set (d_dps d1)" "Cleanup dp = Some c" "Some a \<in> set dv'" "c a err s = Inr (err', s')"
      then have "only_touches {p. a = VDB p} {p. \<exists>path. a = VDir path p} s s'" "fresh_val n m a"
        using iso(2) same_dot_fresh [OF x(1) v(2)] unfolding isolated_dp_def by blast+
      then show "older n m s s'" by (intro only_touches_older) auto
    qed
  qed
  ultimately show ?thesis using v(1) assms(5) older.frame_trans by blast
qed

interpretation older_requests: requests "older n m" isolated_provider for n m
proof (unfold_locales, goal_cases)
  case (4 env ps l d q w res d1 w1)
  then have "isolated_dp l" using builtin_isolated by blast
  then have "\<forall>dp \<in> set (d_dps d). isolated_dp dp" using dot_providers_isolated [OF 4(2)] 4(1) by (simp add: dot_inv_def)
  then show ?case using dot_value_fresh_objects(1) [OF _ 4(4)] vacuous_older by blast
next
  case (5 env ps l d q w dv d1 w1 w2 ho r emit t b err dv' b' w3 err' d2 w4)
  then have "isolated_dp l" using builtin_isolated by blast
  then show ?case using executed_older [OF 5(1,2) _ 5(4-8)] vacuous_older by blast
qed (simp_all add: older_def)

text \<open>C12. A request leaves the objects of every other request alone: whatever an instance does to serve it, the transactions and the
  directory objects that existed when it arrived, such as those of a request whose template is still running, are there afterwards and are what they were,
  with the new ones behind them.\<close>

theorem requests_isolated:
  assumes "instance_inv env be inst" and "list_all isolated_provider (i_providers inst)"
    and "Instance_ServeHTTP env pf other uuid fl inst r w = Inr (inst', w')"
  shows "prefix (w_txs w) (w_txs w') \<and> prefix (w_fss w) (w_fss w')"
proof -
  have "older (length (w_txs w)) (length (w_fss w)) w w'" using older_requests.serve_keeps [OF assms] by blast
  then show ?thesis by (simp add: older_def) (metis take_is_prefix)
qed

section \<open>Examples\<close>

text \<open>The site serves its page while the transaction of another request is open.\<close>

definition busy :: "string list world \<Rightarrow> string list world" where
  "busy w = w\<lparr>w_txs := [\<lparr>db_ctx = background, db_tx = Some [''old'', ''half'']\<rparr>]\<rparr>"

definition busy_serve :: "string list Instance \<Rightarrow> string list world \<Rightarrow> (string list Instance \<times> string list world) panics" where
  "busy_serve inst w = Instance_ServeHTTP toy_env (\<lambda>_. None) (\<lambda>_ _ rw. Inr rw) ''id'' True inst (get_request ''/'') (busy w)"

definition busy_check :: bool where
  "busy_check = (case fst site_Instance of
     Inr (Inr i, w) \<Rightarrow> (case i_providers i of [PDB _] \<Rightarrow> True | _ \<Rightarrow> False)
       \<and> (case busy_serve i w of Inr (_, w') \<Rightarrow> length (w_txs w') = 2 | _ \<Rightarrow> False)
   | _ \<Rightarrow> False)"

lemma busy_check: busy_check
  by code_simp

lemma requests_isolated_witness:
  "\<exists>inst' w' d. busy_serve site_instance site_world = Inr (inst', w')
     \<and> w_txs w' = [\<lparr>db_ctx = background, db_tx = Some [''old'', ''half'']\<rparr>, d]"
proof -
  have "be_tree site_env x = TDir site" for x by (simp add: site_env_def)
  then have inv: "instance_inv toy_env site_env site_instance" by (rule instance_built [OF site_instance_ok _ site_tree])
  have iso: "list_all isolated_provider (i_providers site_instance)"
    using busy_check by (auto simp: busy_check_def site_instance_ok split: list.splits provider.splits)
  obtain inst' w' where s: "busy_serve site_instance site_world = Inr (inst', w')" and two: "length (w_txs w') = 2"
    using busy_check by (auto simp: busy_check_def site_instance_ok split: sum.splits)
  have "prefix (w_txs (busy site_world)) (w_txs w')" using requests_isolated [OF inv iso s [unfolded busy_serve_def]] by blast
  with two s show ?thesis by (auto simp: busy_def prefix_def length_Suc_conv)
qed

end
