(* ===== verification/Spec2Isabelle.thy ===== *)
theory Spec2Isabelle
  imports App Funcs Dot_Nats Service Isolation
begin

text \<open>
  \<^bold>\<open>xtemplate\<close>: a web server that turns a directory of Go templates and static files into routes.

  \<^medskip> \<^bold>\<open>The program.\<close> A \<^verbatim>\<open>Config\<close> (\<^verbatim>\<open>config.go\<close>) names a directory and the providers of the fields templates see. \<^verbatim>\<open>Config.Instance\<close>
  (\<^verbatim>\<open>instance.go\<close>) walks the directory with a \<^verbatim>\<open>builder\<close> (\<^verbatim>\<open>build.go\<close>): static files are hashed and grouped with their compressed copies,
  template files are parsed and their definitions become routes. It then initialises the providers, makes two \<^verbatim>\<open>dot\<close>s (\<^verbatim>\<open>dot.go\<close>), runs the
  \<^verbatim>\<open>INIT\<close> templates and gives an \<^verbatim>\<open>Instance\<close>, whose \<^verbatim>\<open>ServeHTTP\<close> finds a handler of \<^verbatim>\<open>handlers.go\<close>: one serves a static file, one buffers the
  output of a template, one streams it. A template handler fills a dot with the values of the providers, runs the template, and hands the
  values with the template's error to the providers' \<^verbatim>\<open>Cleanup\<close>. A \<^verbatim>\<open>Server\<close> (\<^verbatim>\<open>server.go\<close>) holds the current instance and replaces it on
  \<^verbatim>\<open>Reload\<close> while requests run; \<^verbatim>\<open>app.Main\<close> (\<^verbatim>\<open>app/app.go\<close>) reads the configuration and starts a server.

  \<^medskip> \<^bold>\<open>The theories.\<close> Each definition has the name of the function it models; a method has its type's name in front where two would clash.

  \<^item> \<^theory_text>\<open>Prelude\<close>, \<^theory_text>\<open>Go_Errors\<close>, \<^theory_text>\<open>Go_Strings\<close>, \<^theory_text>\<open>Go_Path\<close>, \<^theory_text>\<open>Go_Float\<close>, \<^theory_text>\<open>Go_Http\<close>, \<^theory_text>\<open>Go_ServeContent\<close>, \<^theory_text>\<open>Go_ServeMux\<close>: shared facts, and
    what the program uses of the language and its standard library.
  \<^item> \<^theory_text>\<open>Negotiate\<close>, \<^theory_text>\<open>Static_File\<close>: \<^verbatim>\<open>negiotiateEncoding\<close> and \<^verbatim>\<open>staticFileHandler\<close> of \<^verbatim>\<open>handlers.go\<close>, \<^verbatim>\<open>fileInfo\<close> and \<^verbatim>\<open>encodingInfo\<close> of \<^verbatim>\<open>build.go\<close>.
  \<^item> \<^theory_text>\<open>Dot\<close>: \<^verbatim>\<open>value\<close>, \<^verbatim>\<open>cleanup\<close> and \<^verbatim>\<open>makeDot\<close>, with the pool of structs. A provider is a record of functions.
  \<^item> \<^theory_text>\<open>Dot_Resp\<close>, \<^theory_text>\<open>Dot_DB\<close>, \<^theory_text>\<open>Dot_FS\<close>, \<^theory_text>\<open>Dot_Flush\<close>, \<^theory_text>\<open>Dot_Nats\<close>: the methods templates call on the fields, one theory per \<^verbatim>\<open>dot_*.go\<close> file
    (\<^verbatim>\<open>dot_kv.go\<close> is in \<^theory_text>\<open>Dot_Nats\<close>; \<^verbatim>\<open>dot_flags.go\<close>, \<^verbatim>\<open>dot_req.go\<close> and \<^verbatim>\<open>dot_instance.go\<close> are in \<^theory_text>\<open>Config\<close>, \<^theory_text>\<open>Providers\<close> and \<^theory_text>\<open>Template\<close>).
  \<^item> \<^theory_text>\<open>Build\<close>, \<^theory_text>\<open>Load\<close>: \<^verbatim>\<open>addStaticFileHandler\<close> and \<^verbatim>\<open>addTemplateHandler\<close>, and the walk that calls them.
  \<^item> \<^theory_text>\<open>World\<close>: the state the providers share. \<^theory_text>\<open>Config\<close>: \<^verbatim>\<open>Config\<close>, its defaults and options. \<^theory_text>\<open>Providers\<close>: each provider's \<^verbatim>\<open>Init\<close>, \<^verbatim>\<open>Value\<close> and
    \<^verbatim>\<open>Cleanup\<close> on that state. \<^theory_text>\<open>Template\<close>: a template as a tree of output and method calls, and its execution. \<^theory_text>\<open>Handlers\<close>: the two
    template handlers.
  \<^item> \<^theory_text>\<open>Instance\<close>: \<^verbatim>\<open>Config.Instance\<close> and \<^verbatim>\<open>ServeHTTP\<close>. \<^theory_text>\<open>Preserve\<close> and \<^theory_text>\<open>Isolation\<close>: what they leave alone, the contexts and NATS servers, and the objects of
    other requests.
  \<^item> \<^theory_text>\<open>Server\<close>: the server as interleaved actions of reloads, stops, requests and the goroutines that shut NATS servers down. \<^theory_text>\<open>Service\<close>: the
    abstract service it implements, and the life of the NATS servers.
  \<^item> \<^theory_text>\<open>FrontMatter\<close>, \<^theory_text>\<open>Funcs\<close>: \<^verbatim>\<open>frontmatter.go\<close> and the template functions of \<^verbatim>\<open>funcs.go\<close>. \<^theory_text>\<open>App\<close>: \<^verbatim>\<open>app/app.go\<close>.

  \<^medskip> \<^bold>\<open>Conventions.\<close> A string is its bytes. An error is a value of \<open>gerror\<close>; a function that may panic has a sum type whose left side is the
  message. A pointer that is shared is an index into a heap. A log message is left out, and with it the code that only makes one. Code that is not in
  the repository is an argument: the database driver, file systems, hashes and decompressors, the template parser, minifier, NATS client, markdown and sanitising packages, JSON, YAML and TOML parsers, the argument parser and the
  directory watcher. What is assumed of an argument stands in the statement that needs it.

  \<^medskip> \<^bold>\<open>What is shown.\<close>

  \<^item> Requests: a failed template sends nothing of its output and rolls every database back, a successful one commits them and sends all of it
    (\<^theory_text>\<open>Handlers\<close>, over the atomicity of \<^theory_text>\<open>Dot_DB\<close> and the order of cleanups in \<^theory_text>\<open>Dot\<close>); the values a template sees are those of its own
    request, whatever the pool holds, and have the types the fields were declared with (\<^theory_text>\<open>Dot\<close>, \<^theory_text>\<open>Instance\<close>); the transactions and
    directories of other requests are left alone (\<^theory_text>\<open>Isolation\<close>).
  \<^item> Static files: a directory that loads gives a consistent builder with every file once (\<^theory_text>\<open>Load\<close>); negotiation always gives one of the file's
    encodings and equals a one-pass reference (\<^theory_text>\<open>Negotiate\<close>); the handler answers with the bytes and headers of that encoding, 304 or 404
    (\<^theory_text>\<open>Static_File\<close>); from end to end, an instance answers with bytes that decode to the file (below).
  \<^item> Life of a server: an invariant over every interleaving, no request finds a nil instance before \<^verbatim>\<open>Stop\<close>, a failed reload keeps the running
    instance (\<^theory_text>\<open>Server\<close>); the server refines a service that installs instances one after another and answers each request with the one that is
    current when it is accepted, and a NATS server in the process lives as long as its instance (\<^theory_text>\<open>Service\<close>).
  \<^item> Providers and functions: event streams are read back as they were sent; the generator of \<^verbatim>\<open>Repeat\<close> counts right and ends; paths stay below the root
    and reads close their files; front matter and body are taken apart without loss; \<^verbatim>\<open>try\<close> reports errors as values.
  \<^item> Errors: what the code does on refused encodings, sibling files, name clashes, failures in a stream, and requests that come too late.

  The interfaces are locales: \<open>error_keeper\<close>, \<open>inner_provider\<close> and \<open>bystander\<close> (contracts of \<^verbatim>\<open>Cleanup\<close>), \<open>router\<close> (what \<^verbatim>\<open>ServeMux\<close> promises the
  builder), \<open>execution\<close> (a relation every method call of a template keeps), \<open>frame\<close> (a relation every provider keeps) and its extension \<open>requests\<close> (one
  that serving a request keeps). Each is interpreted on the definitions of the program.

  \<^medskip> \<^bold>\<open>Bounds.\<close> No definition takes fuel: every loop of the program is bounded by its data, and the goroutines that may wait are step
  relations. Instance ids wrap at 64 bits; the invariants ask that the counter has not reached \<open>2 ^ 63\<close>. Float arithmetic is rounded as
  binary64.

  \<^medskip> \<^bold>\<open>Not modelled.\<close> \<^verbatim>\<open>cmd/main.go\<close> only calls \<^verbatim>\<open>app.Main\<close>. \<^verbatim>\<open>Server.Serve\<close> is \<^verbatim>\<open>http.ListenAndServe\<close> on the handler; \<^verbatim>\<open>Main\<close> ends where it is
  called. Log messages and the metrics of \<^verbatim>\<open>ServeHTTP\<close> have no effect on an answer. A request is served in one action of \<^theory_text>\<open>Server\<close>, so the
  method calls of two requests are not interleaved there; \<^theory_text>\<open>Isolation\<close> shows that a request served while another runs does not
  reach the other's objects. How transactions of one database see each other's commits is the driver's. The
  methods that only satisfy an interface of another package (\<^verbatim>\<open>Error()\<close>, \<^verbatim>\<open>Version()\<close>, those of \<^verbatim>\<open>mockResponseWriter\<close>) give nothing that the code
  modelled here looks at.
\<close>

section \<open>From a directory to an answer\<close>

lemma negotiated_mem: "es \<noteq> [] \<Longrightarrow> \<exists>e \<in> set es. fst (negiotiateEncoding pf headers es) = Some e"
  using negotiated_nonempty [of es pf headers] negotiated_index_less [of es pf headers] nth_mem by metis

text \<open>C8. A file of the templates directory, seen from the client: an instance that was built from the directory answers a plain
  GET of the file's path with status 200; the body, decoded as the response's \<^verbatim>\<open>Content-Encoding\<close> says, has the hash of the file, which is
  also the entity tag; no file is left open and no database is touched. (The directory has not changed since, and no template
  has a route of its own host.)\<close>

theorem instance_serves_file:
  assumes "Config_Instance env be bg opts config counter w0 = (Inr (Inr inst, w1), n)"
    and "be_tree be (the (TemplatesFS (i_config inst))) = TDir ts" and "tree_ok (TDir ts)"
    and "\<forall>q content m. tree_open (TDir ts) q = Inr (content, m)
           \<longrightarrow> fs_node (e_fs env (the (TemplatesFS (i_config inst)))) q = Inr (RegFile content)"
    and "(p, None) \<in> set (walk ''.'' (TDir ts))" and "\<not> HasSuffix p (TemplateExtension (i_config inst))"
    and "Ext p \<notin> {''.gz'', ''.zst'', ''.br''}" and "CHR ''{'' \<notin> set p"
    and "\<forall>(q, _) \<in> set (b_mux (i_built inst)). pt_host q = ''''"
    and "plain_request r" and "r_path r = slash # p" and "r_escaped r = slash # p" and "query_Get r ''hash'' = ''''"
    and "\<not> is_done w (the (Ctx (i_config inst)))" and "w_rw w = new_response" and "handles_wf (w_handles w)"
  shows "\<exists>w' content m encoding plain. Instance_ServeHTTP env pf other uuid fl inst r w = Inr (inst, w')
     \<and> tree_open (TDir ts) p = Inr (content, m) \<and> final_status (w_rw w') = 200
     \<and> Header_Values (final_header (w_rw w')) ''Content-Encoding'' = [encoding]
     \<and> decoded (be_codecs be) encoding (rw_body (w_rw w')) = Some plain \<and> sri (be_codecs be) plain = sri (be_codecs be) content
     \<and> Header_Values (final_header (w_rw w')) ''Etag'' = [quoted (sri (be_codecs be) content)]
     \<and> h_open (w_handles w') = h_open (w_handles w) \<and> w_dbs w' = w_dbs w"
proof -
  let ?c = "i_config inst" and ?cd = "be_codecs be" and ?fs = "e_fs env (the (TemplatesFS (i_config inst)))"
  let ?ld = "instance_loader be (e_uni env) ?c (Minify config)"
  obtain b where f: "finish_instance env (be_nats be) ?c n (instance_funcs be (FuncMaps ?c)) b w0 = Inr (Inr inst, w1)"
    and l: "load_files ?ld (be_tree be (the (TemplatesFS ?c))) = Inr b"
    by (rule config_instance_ok [OF assms(1)])
  obtain k where built: "i_built inst = b\<lparr>b_stats := (b_stats b)\<lparr>TemplateInitializers := k\<rparr>\<rparr>" by (rule finish_instance_ok [OF f])
  have mux: "b_mux (i_built inst) = b_mux b" "b_heap (i_built inst) = b_heap b" by (simp_all add: built)
  define r' where "r' = r\<lparr>r_ctx := serve_context uuid (case Logger ?c of Some l \<Rightarrow> l | None \<Rightarrow> '''') (r_ctx r)\<rparr>"
  have r': "plain_request r'" "r_path r' = slash # p" "r_escaped r' = slash # p" "query_Get r' ''hash'' = ''''"
    "r_method r' = ''GET''" "r_header r' = r_header r"
    using assms(10-13) by (simp_all add: r'_def plain_request_def query_Get_def)
  have ld: "\<not> HasSuffix p (ld_extension ?ld)" "ld_codecs ?ld = ?cd" using assms(6) by (simp_all add: instance_loader_def)
  obtain pat addr e where route: "findHandler (b_mux b) r' = Found pat (HStatic addr)"
    and fok: "file_ok ?cd (tree_open (TDir ts)) (slash # p) (b_heap b ! addr)"
    and e: "e \<in> set (fi_encodings (b_heap b ! addr))" "is_identity e" "ei_path e = p"
    using loaded_static [OF assms(3) l [unfolded assms(2)] assms(5) ld(1) assms(7,8) assms(9) [unfolded mux] r'(5,3)] ld(2) by auto
  let ?fi = "b_heap b ! addr"
  have "encoding_ok ?cd (tree_open (TDir ts)) (fi_hash ?fi) e" using fok e(1) by (simp add: file_ok_def)
  then obtain content m where content: "tree_open (TDir ts) p = Inr (content, m)" "fi_hash ?fi = sri ?cd content"
    using e(2,3) by (auto simp: encoding_ok_def decoded_def is_identity_def)
  obtain enc where enc: "enc \<in> set (fi_encodings ?fi)"
    "fst (negiotiateEncoding pf (Header_Values (r_header r') ''Accept-Encoding'') (fi_encodings ?fi)) = Some enc"
    using negotiated_mem [of "fi_encodings ?fi"] e(1) by fastforce
  have "encoding_ok ?cd (tree_open (TDir ts)) (fi_hash ?fi) enc" using fok enc(1) by (simp add: file_ok_def)
  then obtain s m' plain where s: "tree_open (TDir ts) (ei_path enc) = Inr (s, m')" "decoded ?cd (ei_encoding enc) s = Some plain"
    "fi_hash ?fi = sri ?cd plain" by (auto simp: encoding_ok_def)
  have node: "fs_node ?fs (ei_path enc) = Inr (RegFile s)" using assms(4) s(1) by blast
  have named: "ei_encoding enc \<noteq> ''''" using s(2) by (auto simp: decoded_def)
  have clean: "Clean (r_path r') = fi_identityPath ?fi"
    using Clean_plain_path [OF walk_plain [OF assms(3,5)]] fok r'(2) by (simp add: file_ok_def)
  have nohash: "query_Get r' ''hash'' = '''' \<or> query_Get r' ''hash'' = fi_hash ?fi" using r'(4) by simp
  obtain rw h where sf: "staticFileHandler pf (e_serve env) ?fs ?fi r' new_response (w_handles w) = (Inr rw, h)"
    "final_status rw = 200" "rw_body rw = s" "Header_Values (final_header rw) ''Content-Encoding'' = [ei_encoding enc]"
    "Header_Values (final_header rw) ''Etag'' = [quoted (fi_hash ?fi)]" "h_open h = h_open (w_handles w)"
    using staticFileHandler_plain [OF clean nohash enc(2) node r'(1) named assms(16), of "e_serve env"] by blast
  have "Instance_ServeHTTP env pf other uuid fl inst r w = Inr (inst, w\<lparr>w_rw := rw, w_handles := h\<rparr>)"
    using assms(14,15) route sf(1) by (simp add: Instance_ServeHTTP_def Let_def serve_route_def mux flip: r'_def)
  with content s(2,3) sf show ?thesis
    by (intro exI [of _ "w\<lparr>w_rw := rw, w_handles := h\<rparr>"] exI [of _ content] exI [of _ m] exI [of _ "ei_encoding enc"] exI [of _ plain]) simp
qed

text \<open>The site of \<open>Instance\<close>, its directory behind the file system the instance reads from.\<close>

definition site_fs :: fsys where
  "site_fs = \<lparr>fs_node = (\<lambda>p. case tree_open (TDir site) p of Inr (s, _) \<Rightarrow> Inr (RegFile s) | Inl e \<Rightarrow> Inl e), fs_closeErr = (\<lambda>_. None)\<rparr>"

definition disk_env :: "string list env" where
  "disk_env = toy_env\<lparr>e_fs := (\<lambda>_. site_fs)\<rparr>"

definition disk_check :: "string list Instance \<Rightarrow> bool" where
  "disk_check i \<longleftrightarrow> TemplateExtension (i_config i) = ''.html'' \<and> Ctx (i_config i) = Some 0
     \<and> (\<forall>(q, _) \<in> set (b_mux (i_built i)). pt_host q = '''')"

lemma disk_instance:
  obtains inst w1 where "Config_Instance disk_env site_env 0 site_options empty_config 0 toy_world = (Inr (Inr inst, w1), 1)" and "disk_check inst"
proof -
  let ?r = "Config_Instance disk_env site_env 0 site_options empty_config 0 toy_world"
  have "case fst ?r of Inr (Inr i, _) \<Rightarrow> disk_check i | _ \<Rightarrow> False" by code_simp
  then obtain inst w1 where 1: "fst ?r = Inr (Inr inst, w1)" "disk_check inst" by (auto split: sum.splits)
  moreover have "snd ?r = 1" by (simp add: Config_Instance_def Let_def wrap64_def)
  ultimately show ?thesis using that [of inst w1] by (simp add: prod_eq_iff)
qed

lemma instance_serves_file_witness:
  "\<exists>inst w1 w' encoding plain. Config_Instance disk_env site_env 0 site_options empty_config 0 toy_world = (Inr (Inr inst, w1), 1)
     \<and> Instance_ServeHTTP disk_env (\<lambda>_. None) (\<lambda>_ _ rw. Inr rw) '''' True inst (get_request ''/app.js'') toy_world = Inr (inst, w')
     \<and> final_status (w_rw w') = 200 \<and> decoded toy_codecs encoding (rw_body (w_rw w')) = Some plain
     \<and> sri toy_codecs plain = sri toy_codecs ''code''"
proof -
  obtain inst w1 where i: "Config_Instance disk_env site_env 0 site_options empty_config 0 toy_world = (Inr (Inr inst, w1), 1)"
    and c: "disk_check inst" by (rule disk_instance)
  have tree: "be_tree site_env (the (TemplatesFS (i_config inst))) = TDir site" "be_codecs site_env = toy_codecs" by (simp_all add: site_env_def)
  have fs: "\<forall>q content m. tree_open (TDir site) q = Inr (content, m)
      \<longrightarrow> fs_node (e_fs disk_env (the (TemplatesFS (i_config inst)))) q = Inr (RegFile content)"
    by (simp add: disk_env_def site_fs_def)
  have walk: "walk ''.'' (TDir site) = [(''app.js'', None), (''app.js.gz'', None), (''index.html'', None)]" by code_simp
  have p: "(''app.js'', None) \<in> set (walk ''.'' (TDir site))" unfolding walk by simp
  have "\<not> HasSuffix ''app.js'' ''.html''" by code_simp
  then have ext: "\<not> HasSuffix ''app.js'' (TemplateExtension (i_config inst))" using c by (simp add: disk_check_def)
  have name: "Ext ''app.js'' \<notin> {''.gz'', ''.zst'', ''.br''}" "CHR ''{'' \<notin> set ''app.js''" by code_simp+
  have host: "\<forall>(q, _) \<in> set (b_mux (i_built inst)). pt_host q = ''''" using c by (simp add: disk_check_def)
  have r: "plain_request (get_request ''/app.js'')" "r_path (get_request ''/app.js'') = slash # ''app.js''"
    "r_escaped (get_request ''/app.js'') = slash # ''app.js''" "query_Get (get_request ''/app.js'') ''hash'' = ''''"
    by (simp_all add: plain_request_def get_request_def Header_Get_def Header_Values_def query_Get_def)
  have w: "\<not> is_done toy_world (the (Ctx (i_config inst)))" "w_rw toy_world = new_response" "handles_wf (w_handles toy_world)"
    by (simp_all add: is_done_def toy_world_def handles_wf_none)
  have content: "tree_open (TDir site) ''app.js'' = Inr (''code'', 5)" by code_simp
  from instance_serves_file [OF i tree(1) site_tree fs p ext name host r w, of "\<lambda>_. None" "\<lambda>_ _ rw. Inr rw" "''''" True]
  show ?thesis using i content tree(2) by fastforce
qed

end
